(* ===== verification/Prelude.thy ===== *)
theory Prelude
  imports Main "HOL-Library.Word"
begin

text \<open>
  Shared vocabulary of the development.

  \<^item> Go's \<open>time.Time\<close> is the number of nanoseconds since Go's zero time (January 1, year 1, UTC),
    an \<open>int\<close>; \<open>time.Duration\<close> is an \<open>int\<close> whose arithmetic is written with the 64-bit
    wrap-around of Go (\<open>wrap64\<close>), because the back-off computations of both services multiply durations.
  \<^item> Go's \<open>int\<close> is 64 bits wide on the platforms the services are built for.
  \<^item> \<open>outcome\<close> is what a call does when it may return, block on a channel or panic.
  \<^item> Generic list lemmas used by every table of the two services.
\<close>

named_theorems model_simps \<open>definitions that unfold a single program step\<close>
named_theorems frame_simps \<open>facts that say which part of the state an operation leaves alone\<close>

section \<open>Machine integers and time\<close>

type_synonym gotime = int
type_synonym duration = int

definition wrap64 :: "int \<Rightarrow> int" where
  "wrap64 x = sint (word_of_int x :: 64 word)"

definition max_int64 :: int where
  "max_int64 = 9223372036854775807"

definition min_int64 :: int where
  "min_int64 = - 9223372036854775808"

lemma wrap64_id: "min_int64 \<le> x \<Longrightarrow> x \<le> max_int64 \<Longrightarrow> wrap64 x = x"
  unfolding wrap64_def min_int64_def max_int64_def
  by (simp add: sint_sbintrunc' signed_take_bit_int_eq_self)

lemma wrap64_range: "min_int64 \<le> wrap64 x \<and> wrap64 x \<le> max_int64"
proof -
  have "- (2 ^ 63) \<le> wrap64 x" "wrap64 x < 2 ^ 63"
    using sint_ge [of "word_of_int x :: 64 word"] sint_lt [of "word_of_int x :: 64 word"]
    by (simp_all add: wrap64_def)
  then show ?thesis by (simp add: min_int64_def max_int64_def)
qed

lemma wrap64_cong: "2 ^ 64 dvd x - wrap64 x"
proof -
  have "(word_of_int x :: 64 word) = word_of_int (wrap64 x)" by (simp add: wrap64_def)
  then have "x mod 2 ^ 64 = wrap64 x mod 2 ^ 64"
    by (simp add: word_of_int_eq_iff take_bit_eq_mod)
  then show ?thesis by (simp add: mod_eq_dvd_iff)
qed

lemma wrap64_multiple: "2 ^ 64 dvd x \<Longrightarrow> wrap64 x = 0"
  unfolding wrap64_def by (subst word_of_int_eq_0_iff [THEN iffD2]) simp_all

definition zero_time :: gotime where
  "zero_time = 0"

definition is_zero :: "gotime \<Rightarrow> bool" where
  "is_zero t \<longleftrightarrow> t = zero_time"

text \<open>\<open>Time.Sub\<close> saturates at the ends of \<open>Duration\<close>.\<close>

definition time_sub :: "gotime \<Rightarrow> gotime \<Rightarrow> duration" where
  "time_sub t u = max min_int64 (min max_int64 (t - u))"

definition time_add :: "gotime \<Rightarrow> duration \<Rightarrow> gotime" where
  "time_add t d = t + d"

definition second :: duration where
  "second = 1000000000"

definition minute :: duration where
  "minute = 60 * second"

definition hour :: duration where
  "hour = 60 * minute"

lemma time_sub_ge_iff:
  "min_int64 < d \<Longrightarrow> d \<le> max_int64 \<Longrightarrow> d \<le> time_sub t u \<longleftrightarrow> d \<le> t - u"
  by (auto simp: time_sub_def)

text \<open>Go's \<open>1 << k\<close> for an \<open>int\<close> \<open>k\<close>: a negative count panics (\<open>None\<close>), a large one shifts the bit out.\<close>

definition shl1 :: "int \<Rightarrow> int option" where
  "shl1 k = (if k < 0 then None else Some (wrap64 (2 ^ nat k)))"

lemma shl1_exact:
  assumes "0 \<le> k" and "k \<le> 62"
  shows "shl1 k = Some (2 ^ nat k)"
proof -
  have "(2::int) ^ nat k \<le> 2 ^ 62"
    using assms by (intro power_increasing) auto
  then have "wrap64 (2 ^ nat k) = 2 ^ nat k"
    by (intro wrap64_id order_trans [OF _ zero_le_power])
       (simp_all add: min_int64_def max_int64_def)
  then show ?thesis using assms by (simp add: shl1_def)
qed

section \<open>Outcomes\<close>

datatype 'a outcome = Return 'a | Block | Panic string

section \<open>Lists\<close>

lemma distinct_map_filter: "distinct (map f xs) \<Longrightarrow> distinct (map f (filter P xs))"
  by (induction xs) auto

lemma distinct_map_take: "distinct (map f xs) \<Longrightarrow> distinct (map f (take n xs))"
  by (simp flip: take_map)

lemma distinct_map_sort_key: "distinct (map f xs) \<Longrightarrow> distinct (map f (sort_key g xs))"
proof -
  assume "distinct (map f xs)"
  then have "distinct xs" "inj_on f (set xs)" by (simp_all add: distinct_map)
  then show ?thesis by (simp add: distinct_map)
qed

lemma map_if_filter_same:
  "(\<And>x. f x = x) \<Longrightarrow> map (\<lambda>x. if P x then f x else x) xs = xs"
  by (induction xs) auto

lemma distinct_map_inj:
  "distinct (map f xs) \<Longrightarrow> x \<in> set xs \<Longrightarrow> y \<in> set xs \<Longrightarrow> f x = f y \<Longrightarrow> x = y"
  by (auto simp: distinct_map inj_on_def)

lemma find_Some_D: "find P xs = Some x \<Longrightarrow> x \<in> set xs \<and> P x"
  by (induction xs) (auto split: if_splits)

lemma find_None_iff_all: "find P xs = None \<longleftrightarrow> (\<forall>x \<in> set xs. \<not> P x)"
  by (induction xs) auto

lemma find_append_case:
  "find P (xs @ ys) = (case find P xs of None \<Rightarrow> find P ys | Some x \<Rightarrow> Some x)"
  by (induction xs) auto

lemma find_filter_first: "find P xs = (case filter P xs of [] \<Rightarrow> None | x # _ \<Rightarrow> Some x)"
  by (induction xs) auto

lemma find_filter: "find P (filter Q xs) = find (\<lambda>x. Q x \<and> P x) xs"
  by (induction xs) auto

text \<open>Sorting by a two-valued key is a stable partition.\<close>

lemma insort_flag:
  "(\<forall>a \<in> set as. \<not> P a) \<Longrightarrow> (\<forall>b \<in> set bs. P b) \<Longrightarrow> P x \<Longrightarrow>
   insort_key (\<lambda>r. if P r then 1 else (0::nat)) x (as @ bs) = as @ x # bs"
proof (induction as)
  case Nil
  then show ?case by (cases bs) auto
next
  case (Cons a as)
  then show ?case by simp
qed

lemma sort_key_flag:
  "sort_key (\<lambda>r. if P r then 1 else (0::nat)) xs = filter (\<lambda>r. \<not> P r) xs @ filter P xs"
proof (induction xs)
  case Nil
  then show ?case by simp
next
  case (Cons x xs)
  show ?case
  proof (cases "P x")
    case True
    then show ?thesis using Cons.IH
      by (simp add: insort_flag [of "filter (\<lambda>r. \<not> P r) xs" P "filter P xs"])
  next
    case False
    then show ?thesis using Cons.IH by (simp add: insort_is_Cons)
  qed
qed

lemma find_key_unique:
  assumes "distinct (map f xs)" and "x \<in> set xs" and "f x = k" and "Q x"
  shows "find (\<lambda>y. f y = k \<and> Q y) xs = Some x"
  using assms
proof (induction xs)
  case Nil
  then show ?case by simp
next
  case (Cons a xs)
  then show ?case
    by (cases "a = x") (auto simp: image_iff)
qed

lemma find_map_keep:
  "(\<And>x. x \<in> set xs \<Longrightarrow> P (h x) = P x) \<Longrightarrow> find P (map h xs) = map_option h (find P xs)"
  by (induction xs) auto

lemma sum_list_le_length: "(\<And>x. x \<in> set xs \<Longrightarrow> f x \<le> (1::nat)) \<Longrightarrow> sum_list (map f xs) \<le> length xs"
  by (induction xs) fastforce+

lemma sort_key_take_le:
  assumes "a \<in> set (take n (sort_key f xs))" and "b \<in> set (drop n (sort_key f xs))"
  shows "f a \<le> f b"
proof -
  have "sorted (map f (sort_key f xs))" by simp
  then have "sorted (map f (take n (sort_key f xs) @ drop n (sort_key f xs)))" by simp
  then show ?thesis using assms
    by (simp add: sorted_append del: append_take_drop_id)
qed

end
