(* ===== verification/Http.thy ===== *)
theory Http
  imports Prelude
begin

text \<open>
  What the handlers of both services see of HTTP: the Gin context of a request (the values the
  middleware reads and the \<open>user_id\<close> it may set) and the response they write.
  Gin itself, the router's matching and the JSON encoding are not under \<open>src/\<close>; a bound request
  body arrives as \<open>Inr\<close> of its fields, a binding failure as \<open>Inl\<close> of its message.
\<close>

type_synonym status_code = nat

abbreviation StatusOK :: status_code where "StatusOK \<equiv> 200"
abbreviation StatusCreated :: status_code where "StatusCreated \<equiv> 201"
abbreviation StatusAccepted :: status_code where "StatusAccepted \<equiv> 202"
abbreviation StatusBadRequest :: status_code where "StatusBadRequest \<equiv> 400"
abbreviation StatusUnauthorized :: status_code where "StatusUnauthorized \<equiv> 401"
abbreviation StatusNotFound :: status_code where "StatusNotFound \<equiv> 404"
abbreviation StatusTooManyRequests :: status_code where "StatusTooManyRequests \<equiv> 429"
abbreviation StatusInternalServerError :: status_code where "StatusInternalServerError \<equiv> 500"
abbreviation StatusServiceUnavailable :: status_code where "StatusServiceUnavailable \<equiv> 503"

record gin_context =
  c_header_authorization :: string  \<comment> \<open>\<open>c.GetHeader("Authorization")\<close>, empty when absent\<close>
  c_param_id :: string              \<comment> \<open>\<open>c.Param("id")\<close>\<close>
  c_client_ip :: string             \<comment> \<open>\<open>c.ClientIP()\<close>\<close>
  c_user_id :: "string option"      \<comment> \<open>\<open>c.Get("user_id")\<close>, only ever set to a string\<close>

text \<open>What a middleware does: call \<open>c.Next()\<close>, or write an error and \<open>c.Abort()\<close>.\<close>

datatype mw_result = Next gin_context | Abort status_code string

text \<open>\<open>userID, _ := c.Get("user_id"); userIDStr, _ := userID.(string)\<close>\<close>

definition user_id_str :: "gin_context \<Rightarrow> string" where
  "user_id_str c = (case c_user_id c of Some u \<Rightarrow> u | None \<Rightarrow> '''')"

text \<open>
  What comes of a \<open>http.NewRequest\<close> and the \<open>http.Client.Do\<close> after it: a URL the library refuses, a
  transport error, or a status with the decoded error body as text.
\<close>

datatype http_reply = InvalidRequest string | TransportError string | Reply status_code string

end
