(* ===== verification/RateLimit.thy ===== *)
theory RateLimit
  imports Http
begin

text \<open>
  The fixed-window rate limiter: \<open>internal/ratelimit/ratelimit.go\<close> and its Gin middleware
  \<open>internal/ratelimit/middleware.go\<close>.

  The record \<open>FixedWindow\<close> is the Go struct without its mutex: \<open>FixedWindow_Allow\<close> runs under
  the lock, so one call is one step. The repository keeps its windows in a map; a strategy that
  \<open>GetOrCreate\<close> returns is a pointer into that map, so \<open>RateLimitSystem_Allow\<close> stores the window
  it changed back under the key.

  The locale \<open>ratelimit_strategy\<close> is the contract of the interface \<open>RatelimitStrategy\<close>: its
  lemmas bound what any window-based strategy grants in a run of requests.
\<close>

section \<open>The limiter of one key\<close>

record RateLimitConfig =
  MaxTokens :: int
  Duration :: duration

record FixedWindow =
  Config :: RateLimitConfig
  TokensRemaining :: int
  WindowStart :: gotime

definition FixedWindow_Allow :: "gotime \<Rightarrow> FixedWindow \<Rightarrow> (string + bool) \<times> FixedWindow" where
  "FixedWindow_Allow now f =
     (let f1 = (if time_sub now (WindowStart f) \<ge> Duration (Config f)
                then f\<lparr>WindowStart := now, TokensRemaining := MaxTokens (Config f)\<rparr>
                else f)
      in if TokensRemaining f1 \<le> 0 then (Inr False, f1)
         else (Inr True, f1\<lparr>TokensRemaining := TokensRemaining f1 - 1\<rparr>))"

section \<open>The repository of windows\<close>

record InMemoryRateLimitRepo =
  Windows :: "string \<Rightarrow> FixedWindow option"
  RConfig :: RateLimitConfig

definition NewInMemoryRateLimitRepo :: "RateLimitConfig \<Rightarrow> InMemoryRateLimitRepo" where
  "NewInMemoryRateLimitRepo config = \<lparr>Windows = (\<lambda>_. None), RConfig = config\<rparr>"

text \<open>
  \<open>GetOrCreate\<close> looks the key up under the read lock (\<open>fast\<close>) and, when it is missing, again under
  the write lock (\<open>slow\<close>); other goroutines may run between the two.
\<close>

definition GetOrCreate_fast :: "string \<Rightarrow> InMemoryRateLimitRepo \<Rightarrow> FixedWindow option" where
  "GetOrCreate_fast key i = Windows i key"

definition GetOrCreate_slow ::
  "gotime \<Rightarrow> string \<Rightarrow> InMemoryRateLimitRepo \<Rightarrow> FixedWindow \<times> InMemoryRateLimitRepo" where
  "GetOrCreate_slow now key i =
     (case Windows i key of
        Some strategy \<Rightarrow> (strategy, i)
      | None \<Rightarrow>
          let window = \<lparr>Config = RConfig i, TokensRemaining = MaxTokens (RConfig i), WindowStart = now\<rparr>
          in (window, i\<lparr>Windows := (Windows i)(key \<mapsto> window)\<rparr>))"

definition GetOrCreate ::
  "gotime \<Rightarrow> string \<Rightarrow> InMemoryRateLimitRepo \<Rightarrow> FixedWindow \<times> InMemoryRateLimitRepo" where
  "GetOrCreate now key i =
     (case GetOrCreate_fast key i of
        Some strategy \<Rightarrow> (strategy, i)
      | None \<Rightarrow> GetOrCreate_slow now key i)"

section \<open>The system and its middleware\<close>

definition rate_limit_error :: string where
  "rate_limit_error = ''rate limit exceeded: max requests reached for this period''"

text \<open>\<open>t1\<close> is the \<open>time.Now()\<close> of \<open>GetOrCreate\<close>, \<open>t2\<close> the later one of \<open>Allow\<close>.\<close>

definition RateLimitSystem_Allow ::
  "gotime \<Rightarrow> gotime \<Rightarrow> string \<Rightarrow> InMemoryRateLimitRepo \<Rightarrow> (string + unit) \<times> InMemoryRateLimitRepo" where
  "RateLimitSystem_Allow t1 t2 key repo =
     (let (strategy, repo1) = GetOrCreate t1 key repo;
          (allowed, strategy1) = FixedWindow_Allow t2 strategy;
          repo2 = repo1\<lparr>Windows := (Windows repo1)(key \<mapsto> strategy1)\<rparr>
      in case allowed of
           Inl err \<Rightarrow> (Inl err, repo2)
         | Inr ok \<Rightarrow> (if \<not> ok then (Inl rate_limit_error, repo2) else (Inr (), repo2)))"

definition RateLimitMiddleware ::
  "gotime \<Rightarrow> gotime \<Rightarrow> gin_context \<Rightarrow> InMemoryRateLimitRepo \<Rightarrow> mw_result \<times> InMemoryRateLimitRepo" where
  "RateLimitMiddleware t1 t2 c repo =
     (let key = (case c_user_id c of None \<Rightarrow> c_client_ip c | Some userID \<Rightarrow> userID);
          (r, repo1) = RateLimitSystem_Allow t1 t2 key repo
      in case r of
           Inl err \<Rightarrow> (Abort StatusTooManyRequests err, repo1)
         | Inr _ \<Rightarrow> (Next c, repo1))"

section \<open>The contract of a window-based strategy\<close>

text \<open>
  A run of requests against one window, and the number of grants in a half-open time interval.
\<close>

fun run_allow :: "(gotime \<Rightarrow> 'w \<Rightarrow> (string + bool) \<times> 'w) \<Rightarrow> gotime list \<Rightarrow> 'w \<Rightarrow> (gotime \<times> bool) list" where
  "run_allow allow [] w = []"
| "run_allow allow (t # ts) w =
     (case allow t w of (r, w') \<Rightarrow> (t, r = Inr True) # run_allow allow ts w')"

definition grants_in :: "gotime \<Rightarrow> gotime \<Rightarrow> (gotime \<times> bool) list \<Rightarrow> nat" where
  "grants_in a b rs = length (filter (\<lambda>(t, g). g \<and> a \<le> t \<and> t < b) rs)"

lemma grants_in_Nil [simp]: "grants_in a b [] = 0"
  by (simp add: grants_in_def)

lemma grants_in_Cons [simp]:
  "grants_in a b ((t, g) # rs) = (if g \<and> a \<le> t \<and> t < b then 1 else 0) + grants_in a b rs"
  by (simp add: grants_in_def)

lemma run_allow_times: "map fst (run_allow allow ts w) = ts"
  by (induction ts arbitrary: w) (auto split: prod.splits)

lemma grants_in_late:
  "(\<And>t g. (t, g) \<in> set rs \<Longrightarrow> b \<le> t) \<Longrightarrow> grants_in a b rs = 0"
  by (force simp: grants_in_def filter_empty_conv)

locale ratelimit_strategy =
  fixes allow :: "gotime \<Rightarrow> 'w \<Rightarrow> (string + bool) \<times> 'w"
    and start :: "'w \<Rightarrow> gotime"
    and remaining :: "'w \<Rightarrow> int"
    and limit :: "'w \<Rightarrow> int"
    and period :: "'w \<Rightarrow> duration"
    and wf :: "'w \<Rightarrow> bool"
  assumes remaining_le: "wf w \<Longrightarrow> remaining w \<le> limit w"
    and keeps: "wf w \<Longrightarrow> allow t w = (r, w') \<Longrightarrow> wf w' \<and> limit w' = limit w \<and> period w' = period w"
    and decides: "wf w \<Longrightarrow> allow t w = (r, w') \<Longrightarrow>
          r = Inr (0 < (if t < start w + period w then remaining w else limit w))"
    and open_window: "wf w \<Longrightarrow> allow t w = (r, w') \<Longrightarrow> t < start w + period w \<Longrightarrow>
          start w' = start w \<and> remaining w' = (if r = Inr True then remaining w - 1 else remaining w)"
    and new_window: "wf w \<Longrightarrow> allow t w = (r, w') \<Longrightarrow> start w + period w \<le> t \<Longrightarrow>
          start w' = t \<and> remaining w' = (if r = Inr True then limit w - 1 else limit w)"
begin

lemma window_bound:
  "wf w \<Longrightarrow> sorted ts \<Longrightarrow> b \<le> start w + period w \<Longrightarrow>
   grants_in a b (run_allow allow ts w) \<le> nat (remaining w)"
proof (induction ts arbitrary: w)
  case Nil
  then show ?case by simp
next
  case (Cons t ts)
  obtain r w' where rw: "allow t w = (r, w')" by (cases "allow t w")
  show ?case
  proof (cases "t < start w + period w")
    case True
    have "grants_in a b (run_allow allow ts w') \<le> nat (remaining w')"
      using Cons.prems rw True keeps [OF _ rw] open_window [OF _ rw True]
      by (intro Cons.IH) auto
    then show ?thesis
      using rw Cons.prems decides [OF _ rw] open_window [OF _ rw True] True
      by (auto split: if_splits)
  next
    case False
    have "grants_in a b (run_allow allow (t # ts) w) = 0"
    proof (rule grants_in_late)
      fix t' g
      assume "(t', g) \<in> set (run_allow allow (t # ts) w)"
      then have "t' \<in> set (t # ts)"
        by (metis run_allow_times fst_conv image_eqI set_map)
      then show "b \<le> t'" using Cons.prems False by auto
    qed
    then show ?thesis by simp
  qed
qed

lemma two_window_bound_from:
  "wf w \<Longrightarrow> sorted ts \<Longrightarrow> (\<forall>t \<in> set ts. a \<le> t) \<Longrightarrow>
   grants_in a (a + period w) (run_allow allow ts w) \<le> nat (remaining w) + nat (limit w)"
proof (induction ts arbitrary: w)
  case Nil
  then show ?case by simp
next
  case (Cons t ts)
  obtain r w' where rw: "allow t w = (r, w')" by (cases "allow t w")
  note kp = keeps [OF Cons.prems(1) rw]
  show ?case
  proof (cases "t < start w + period w")
    case True
    have "grants_in a (a + period w') (run_allow allow ts w') \<le> nat (remaining w') + nat (limit w')"
      using Cons.prems kp by (intro Cons.IH) auto
    then show ?thesis
      using rw kp decides [OF Cons.prems(1) rw] open_window [OF Cons.prems(1) rw True] True
      by (auto split: if_splits)
  next
    case False
    then have nw: "start w' = t" "remaining w' = (if r = Inr True then limit w - 1 else limit w)"
      using new_window [OF Cons.prems(1) rw] by auto
    have "grants_in a (a + period w) (run_allow allow ts w') \<le> nat (remaining w')"
      using Cons.prems kp nw by (intro window_bound) auto
    then show ?thesis
      using rw nw decides [OF Cons.prems(1) rw] False by (auto split: if_splits)
  qed
qed

lemma two_window_bound:
  "wf w \<Longrightarrow> sorted ts \<Longrightarrow>
   grants_in a (a + period w) (run_allow allow ts w) \<le> 2 * nat (limit w)"
proof (induction ts arbitrary: w)
  case Nil
  then show ?case by simp
next
  case (Cons t ts)
  show ?case
  proof (cases "a \<le> t")
    case True
    then have "\<forall>u \<in> set (t # ts). a \<le> u" using Cons.prems(2) by auto
    then have "grants_in a (a + period w) (run_allow allow (t # ts) w) \<le> nat (remaining w) + nat (limit w)"
      using Cons.prems by (intro two_window_bound_from) auto
    then show ?thesis using remaining_le [OF Cons.prems(1)] by linarith
  next
    case False
    obtain r w' where rw: "allow t w = (r, w')" by (cases "allow t w")
    note kp = keeps [OF Cons.prems(1) rw]
    have "grants_in a (a + period w') (run_allow allow ts w') \<le> 2 * nat (limit w')"
      using Cons.prems kp by (intro Cons.IH) auto
    then show ?thesis using rw kp False by auto
  qed
qed

text \<open>Inside one window the strategy is exact: the first \<open>remaining\<close> requests pass, the others do not.\<close>

lemma open_window_exact:
  "wf w \<Longrightarrow> (\<forall>t \<in> set ts. t < start w + period w) \<Longrightarrow>
   map snd (run_allow allow ts w) =
     replicate (min (length ts) (nat (remaining w))) True
     @ replicate (length ts - nat (remaining w)) False"
proof (induction ts arbitrary: w)
  case Nil
  then show ?case by simp
next
  case (Cons t ts)
  obtain r w' where rw: "allow t w = (r, w')" by (cases "allow t w")
  have t: "t < start w + period w" using Cons.prems by simp
  note ow = open_window [OF Cons.prems(1) rw t] and dc = decides [OF Cons.prems(1) rw]
    and kp = keeps [OF Cons.prems(1) rw]
  have IH: "map snd (run_allow allow ts w') =
      replicate (min (length ts) (nat (remaining w'))) True
      @ replicate (length ts - nat (remaining w')) False"
    using Cons.prems kp ow by (intro Cons.IH) auto
  show ?case
  proof (cases "0 < remaining w")
    case True
    then obtain k where k: "nat (remaining w) = Suc k" "nat (remaining w') = k"
      using dc t ow by (cases "nat (remaining w)") auto
    then show ?thesis using rw dc t True IH by simp
  next
    case False
    then show ?thesis using rw dc t ow IH by simp
  qed
qed

text \<open>A request that comes when the window is over is granted (if the limit grants anything at all).\<close>

lemma reopens:
  "wf w \<Longrightarrow> start w + period w \<le> t \<Longrightarrow> 0 < limit w \<Longrightarrow> fst (allow t w) = Inr True"
  using decides [of w t "fst (allow t w)" "snd (allow t w)"] by simp

end

section \<open>The fixed window meets the contract\<close>

definition window_wf :: "FixedWindow \<Rightarrow> bool" where
  "window_wf f \<longleftrightarrow> TokensRemaining f \<le> MaxTokens (Config f) \<and>
     min_int64 < Duration (Config f) \<and> Duration (Config f) \<le> max_int64"

lemma window_expired_iff:
  "window_wf f \<Longrightarrow>
   (Duration (Config f) \<le> time_sub now (WindowStart f)) = (\<not> now < WindowStart f + Duration (Config f))"
  by (auto simp: window_wf_def time_sub_ge_iff)

interpretation fw: ratelimit_strategy FixedWindow_Allow WindowStart TokensRemaining
  "\<lambda>f. MaxTokens (Config f)" "\<lambda>f. Duration (Config f)" window_wf
proof unfold_locales
  show "window_wf w \<Longrightarrow> TokensRemaining w \<le> MaxTokens (Config w)" for w
    by (simp add: window_wf_def)
qed (auto simp: FixedWindow_Allow_def Let_def window_expired_iff window_wf_def split: if_splits)

lemmas fw_bounds = fw.window_bound fw.two_window_bound

section \<open>Runs of the whole system\<close>

text \<open>One request carries its key and the two clock readings that serve it.\<close>

type_synonym rl_request = "string \<times> gotime \<times> gotime"

fun run_system :: "rl_request list \<Rightarrow> InMemoryRateLimitRepo \<Rightarrow> (string \<times> gotime \<times> bool) list" where
  "run_system [] repo = []"
| "run_system ((key, t1, t2) # reqs) repo =
     (case RateLimitSystem_Allow t1 t2 key repo of
        (r, repo') \<Rightarrow> (key, t2, r = Inr ()) # run_system reqs repo')"

definition key_times :: "string \<Rightarrow> rl_request list \<Rightarrow> gotime list" where
  "key_times k reqs = map (\<lambda>(_, _, t2). t2) (filter (\<lambda>(k', _, _). k' = k) reqs)"

definition key_results :: "string \<Rightarrow> (string \<times> gotime \<times> bool) list \<Rightarrow> (gotime \<times> bool) list" where
  "key_results k rs = map snd (filter (\<lambda>(k', _, _). k' = k) rs)"

lemma key_times_simps [simp]:
  "key_times k [] = []"
  "key_times k ((k', t1, t2) # reqs) = (if k' = k then t2 # key_times k reqs else key_times k reqs)"
  by (simp_all add: key_times_def)

lemma key_results_simps [simp]:
  "key_results k [] = []"
  "key_results k ((k', x) # rs) = (if k' = k then x # key_results k rs else key_results k rs)"
  by (simp_all add: key_results_def)

text \<open>The window that serves the first request of a key.\<close>

definition window_at :: "gotime \<Rightarrow> string \<Rightarrow> InMemoryRateLimitRepo \<Rightarrow> FixedWindow" where
  "window_at t1 key repo = fst (GetOrCreate t1 key repo)"

lemma window_at_simps:
  "Windows repo k = Some w \<Longrightarrow> window_at t k repo = w"
  "Windows repo k = None \<Longrightarrow> window_at t k repo =
     \<lparr>Config = RConfig repo, TokensRemaining = MaxTokens (RConfig repo), WindowStart = t\<rparr>"
  by (simp_all add: window_at_def GetOrCreate_def GetOrCreate_fast_def GetOrCreate_slow_def Let_def)

lemma Allow_result:
  "fst (RateLimitSystem_Allow t1 t2 k repo) =
     (case fst (FixedWindow_Allow t2 (window_at t1 k repo)) of
        Inl e \<Rightarrow> Inl e | Inr ok \<Rightarrow> (if ok then Inr () else Inl rate_limit_error))"
  by (auto simp: RateLimitSystem_Allow_def window_at_def Let_def split: prod.splits sum.splits)

lemma GetOrCreate_frame [frame_simps]:
  "k' \<noteq> k \<Longrightarrow> Windows (snd (GetOrCreate t k repo)) k' = Windows repo k'"
  "RConfig (snd (GetOrCreate t k repo)) = RConfig repo"
  by (simp_all add: GetOrCreate_def GetOrCreate_fast_def GetOrCreate_slow_def Let_def split: option.splits)

lemma Allow_frame [frame_simps]:
  "Windows (snd (RateLimitSystem_Allow t1 t2 k repo)) k' =
     (if k' = k then Some (snd (FixedWindow_Allow t2 (window_at t1 k repo))) else Windows repo k')"
  "RConfig (snd (RateLimitSystem_Allow t1 t2 k repo)) = RConfig repo"
  using GetOrCreate_frame [where k = k and t = t1 and repo = repo]
  by (auto simp: RateLimitSystem_Allow_def window_at_def Let_def split: prod.splits sum.splits)

lemma FixedWindow_Allow_shape: "\<exists>g w'. FixedWindow_Allow t w = (Inr g, w')"
  by (auto simp: FixedWindow_Allow_def Let_def)

lemma run_system_known:
  "Windows repo k = Some w \<Longrightarrow>
   key_results k (run_system reqs repo) = run_allow FixedWindow_Allow (key_times k reqs) w"
proof (induction reqs arbitrary: repo w)
  case Nil
  then show ?case by simp
next
  case (Cons req reqs)
  obtain k' t1 t2 where req: "req = (k', t1, t2)" by (cases req)
  obtain r repo' where a: "RateLimitSystem_Allow t1 t2 k' repo = (r, repo')"
    by (cases "RateLimitSystem_Allow t1 t2 k' repo")
  note fr = Allow_frame [where ?t1.0 = t1 and ?t2.0 = t2 and k = k' and repo = repo, unfolded a snd_conv]
  show ?case
  proof (cases "k' = k")
    case True
    obtain g w' where g: "FixedWindow_Allow t2 w = (Inr g, w')"
      using FixedWindow_Allow_shape by blast
    have "(r = Inr ()) = g" "Windows repo' k = Some w'"
      using True g a Allow_result [of t1 t2 k' repo] fr(1) Cons.prems
      by (auto simp: window_at_simps split: if_splits)
    then show ?thesis using Cons.IH [of repo' w'] True req a g by simp
  next
    case False
    then have "Windows repo' k = Some w" using fr(1) Cons.prems by simp
    then show ?thesis using Cons.IH [of repo' w] False req a by simp
  qed
qed

lemma run_system_fresh:
  "Windows repo k = None \<Longrightarrow> filter (\<lambda>(k', _, _). k' = k) reqs = (k, t1, t2) # rest \<Longrightarrow>
   key_results k (run_system reqs repo) =
     run_allow FixedWindow_Allow (key_times k reqs)
       \<lparr>Config = RConfig repo, TokensRemaining = MaxTokens (RConfig repo), WindowStart = t1\<rparr>"
proof (induction reqs arbitrary: repo)
  case Nil
  then show ?case by simp
next
  case (Cons req reqs)
  obtain k' u1 u2 where req: "req = (k', u1, u2)" by (cases req)
  obtain r repo' where a: "RateLimitSystem_Allow u1 u2 k' repo = (r, repo')"
    by (cases "RateLimitSystem_Allow u1 u2 k' repo")
  note fr = Allow_frame [where ?t1.0 = u1 and ?t2.0 = u2 and k = k' and repo = repo, unfolded a snd_conv]
  show ?case
  proof (cases "k' = k")
    case True
    let ?w = "\<lparr>Config = RConfig repo, TokensRemaining = MaxTokens (RConfig repo), WindowStart = u1\<rparr>"
    obtain g w' where g: "FixedWindow_Allow u2 ?w = (Inr g, w')"
      using FixedWindow_Allow_shape by blast
    have "(r = Inr ()) = g" "Windows repo' k = Some w'"
      using True g a Allow_result [of u1 u2 k' repo] fr(1) Cons.prems
      by (auto simp: window_at_simps split: if_splits)
    then show ?thesis using run_system_known [of repo' k w' reqs] Cons.prems True req a g by simp
  next
    case False
    then show ?thesis using Cons.IH [of repo'] Cons.prems fr req a by simp
  qed
qed

text \<open>
  C36. Rate limits are per key: whatever the other keys do, the verdicts on the requests of one key
  are those of a single fixed window that sees that key's requests only.
\<close>

theorem run_system_per_key:
  assumes "Windows repo k = None"
    and "filter (\<lambda>(k', _, _). k' = k) reqs = (k, t1, t2) # rest"
  shows "key_results k (run_system reqs repo) =
     run_allow FixedWindow_Allow (key_times k reqs)
       \<lparr>Config = RConfig repo, TokensRemaining = MaxTokens (RConfig repo), WindowStart = t1\<rparr>"
  using assms by (rule run_system_fresh)

lemmas ratelimit_exec = RateLimitSystem_Allow_def GetOrCreate_def GetOrCreate_fast_def
  GetOrCreate_slow_def FixedWindow_Allow_def NewInMemoryRateLimitRepo_def Let_def time_sub_def
  min_int64_def max_int64_def hour_def minute_def second_def

definition two_keys_run :: "rl_request list" where
  "two_keys_run = [(''a'', 0, 0), (''b'', 0, 0), (''a'', 1, 1), (''b'', 1, 1), (''a'', 2, 2)]"

theorem run_system_per_key_witness:
  "key_results ''a'' (run_system two_keys_run
     (NewInMemoryRateLimitRepo \<lparr>MaxTokens = 2, Duration = hour\<rparr>)) = [(0, True), (1, True), (2, False)]"
proof -
  let ?cfg = "\<lparr>MaxTokens = 2, Duration = hour\<rparr>"
  have "key_results ''a'' (run_system two_keys_run (NewInMemoryRateLimitRepo ?cfg)) =
      run_allow FixedWindow_Allow (key_times ''a'' two_keys_run)
        \<lparr>Config = ?cfg, TokensRemaining = 2, WindowStart = 0\<rparr>"
    using run_system_per_key [of "NewInMemoryRateLimitRepo ?cfg" "''a''" two_keys_run 0 0
        "[(''a'', 1, 1), (''a'', 2, 2)]"]
    by (simp add: NewInMemoryRateLimitRepo_def two_keys_run_def)
  also have "\<dots> = [(0, True), (1, True), (2, False)]"
    by (simp add: two_keys_run_def ratelimit_exec)
  finally show ?thesis .
qed

lemma fresh_window_wf:
  "min_int64 < Duration cfg \<Longrightarrow> Duration cfg \<le> max_int64 \<Longrightarrow>
   window_wf \<lparr>Config = cfg, TokensRemaining = MaxTokens cfg, WindowStart = t\<rparr>"
  by (simp add: window_wf_def)

lemma run_system_quota:
  assumes dur: "min_int64 < Duration cfg" "Duration cfg \<le> max_int64"
    and sorted: "sorted (key_times k reqs)"
  shows "grants_in a (a + Duration cfg)
           (key_results k (run_system reqs (NewInMemoryRateLimitRepo cfg))) \<le> 2 * nat (MaxTokens cfg)"
proof (cases "filter (\<lambda>(k', _, _). k' = k) reqs")
  case Nil
  then have "key_results k (run_system reqs repo) = []" for repo
    by (induction reqs arbitrary: repo) (auto split: prod.splits if_splits)
  then show ?thesis by simp
next
  case (Cons req rest)
  then obtain t1 t2 where "filter (\<lambda>(k', _, _). k' = k) reqs = (k, t1, t2) # rest"
    by (metis (mono_tags, lifting) filter_eq_ConsD old.prod.case prod_cases3)
  then have "key_results k (run_system reqs (NewInMemoryRateLimitRepo cfg)) =
      run_allow FixedWindow_Allow (key_times k reqs)
        \<lparr>Config = cfg, TokensRemaining = MaxTokens cfg, WindowStart = t1\<rparr>"
    using run_system_fresh [of "NewInMemoryRateLimitRepo cfg" k reqs t1 t2 rest]
    by (simp add: NewInMemoryRateLimitRepo_def)
  then show ?thesis
    using fw.two_window_bound [OF fresh_window_wf [OF dur, of t1] sorted] by simp
qed

text \<open>
  Whatever mix of keys arrives, a key whose requests read a non-decreasing clock is granted at
  most twice \<open>MaxTokens\<close> requests in any interval of length \<open>Duration\<close> (the limiter is a fixed
  window, not a sliding one).
\<close>

lemma system_grants_bounded:
  assumes "min_int64 < Duration cfg" and "Duration cfg \<le> max_int64" and "sorted (key_times k reqs)"
  shows "grants_in a (a + Duration cfg)
           (key_results k (run_system reqs (NewInMemoryRateLimitRepo cfg))) \<le> 2 * nat (MaxTokens cfg)"
  using assms by (rule run_system_quota)

text \<open>The bound is met: two requests just before the end of a window and two just after it.\<close>

lemma system_grants_bounded_witness:
  "grants_in 5 (5 + 10) (key_results ''u'' (run_system
     [(''u'', 0, 8), (''u'', 9, 9), (''u'', 10, 10), (''u'', 11, 11), (''u'', 12, 12)]
     (NewInMemoryRateLimitRepo \<lparr>MaxTokens = 2, Duration = 10\<rparr>))) \<le> 2 * nat 2
   \<and> grants_in 5 (5 + 10) (key_results ''u'' (run_system
     [(''u'', 0, 8), (''u'', 9, 9), (''u'', 10, 10), (''u'', 11, 11), (''u'', 12, 12)]
     (NewInMemoryRateLimitRepo \<lparr>MaxTokens = 2, Duration = 10\<rparr>))) = 4"
proof
  let ?reqs = "[(''u'', 0, 8), (''u'', 9, 9), (''u'', 10, 10), (''u'', 11, 11), (''u'', 12, 12)] :: rl_request list"
  let ?cfg = "\<lparr>MaxTokens = 2, Duration = 10\<rparr>"
  show "grants_in 5 (5 + 10) (key_results ''u'' (run_system ?reqs (NewInMemoryRateLimitRepo ?cfg))) \<le> 2 * nat 2"
    using system_grants_bounded [of ?cfg "''u''" ?reqs 5] by (simp add: min_int64_def max_int64_def)
  show "grants_in 5 (5 + 10) (key_results ''u'' (run_system ?reqs (NewInMemoryRateLimitRepo ?cfg))) = 4"
    by (simp add: ratelimit_exec)
qed

text \<open>
  Inside one window the limiter is exact: of the requests that arrive before a fresh window is
  over, the first \<open>MaxTokens\<close> are granted and every later one is refused; the first request at or
  after the end of the window is granted again.
\<close>

lemma fixed_window_exact:
  assumes "window_wf w" and "TokensRemaining w = MaxTokens (Config w)" and "0 < MaxTokens (Config w)"
    and "\<forall>t \<in> set ts. t < WindowStart w + Duration (Config w)"
    and "WindowStart w + Duration (Config w) \<le> t'"
  shows "map snd (run_allow FixedWindow_Allow (ts @ [t']) w) =
     replicate (min (length ts) (nat (MaxTokens (Config w)))) True
     @ replicate (length ts - nat (MaxTokens (Config w))) False @ [True]"
proof -
  have "map snd (run_allow FixedWindow_Allow (ts @ [t']) w) =
      map snd (run_allow FixedWindow_Allow ts w) @ [True]"
    using assms(1,3,4,5)
  proof (induction ts arbitrary: w)
    case Nil
    then show ?case using fw.reopens [of w t'] by (auto split: prod.splits)
  next
    case (Cons t ts)
    obtain r w1 where a: "FixedWindow_Allow t w = (r, w1)" by (cases "FixedWindow_Allow t w")
    show ?case
      using Cons.IH [of w1] Cons.prems a fw.keeps [OF _ a] fw.open_window [OF _ a] by simp
  qed
  then show ?thesis using fw.open_window_exact [of w ts] assms by simp
qed

lemma fixed_window_exact_witness:
  "map snd (run_allow FixedWindow_Allow ([1, 2, 3] @ [50])
     \<lparr>Config = \<lparr>MaxTokens = 2, Duration = 10\<rparr>, TokensRemaining = 2, WindowStart = 0\<rparr>)
   = [True, True, False, True]"
  using fixed_window_exact [of "\<lparr>Config = \<lparr>MaxTokens = 2, Duration = 10\<rparr>, TokensRemaining = 2, WindowStart = 0\<rparr>"
      "[1, 2, 3]" 50]
  by (simp add: window_wf_def min_int64_def max_int64_def numeral_2_eq_2)

text \<open>
  The double-checked lock of \<open>GetOrCreate\<close> never replaces a window: two goroutines that both miss
  the key under the read lock get the same window, and the second leaves the map as it is.
\<close>

lemma GetOrCreate_double_check:
  "GetOrCreate_slow now2 key (snd (GetOrCreate_slow now1 key repo))
     = (fst (GetOrCreate_slow now1 key repo), snd (GetOrCreate_slow now1 key repo))"
  by (auto simp: GetOrCreate_slow_def Let_def split: option.splits)

end
