(* ===== verification/Sql.thy ===== *)
theory Sql
  imports Prelude
begin

text \<open>
  What the repositories of both services use of PostgreSQL through their drivers.

  A table is the list of its rows in physical order. A statement is a function on the tables that
  fails with a database error or returns a value; the SQL text of a repository method is written as
  such a function next to the method. \<open>exec_sql\<close> runs one statement in the presence of faults: the
  connection may fail before the statement runs or after it took effect (the client sees an error
  either way). Over-long values, lost connections and serialisation failures are all faults.

  The fields of \<open>db\<close> other than the tables are what the server adds: the clock \<open>NOW()\<close>, the row
  locks other transactions hold (\<open>SKIP LOCKED\<close> reads them), the order in which \<open>RETURNING\<close> lists
  rows (unspecified by SQL, here any ranking of the keys) and the precision with which a
  \<open>TIMESTAMPTZ\<close> column stores a Go time.
\<close>

section \<open>Errors and faults\<close>

datatype db_error = ErrNoRows | SqlState string string | DbError string

fun err_msg :: "db_error \<Rightarrow> string" where
  "err_msg ErrNoRows = ''no rows in result set''"
| "err_msg (SqlState code msg) = msg"
| "err_msg (DbError msg) = msg"

definition unique_violation :: db_error where
  "unique_violation = SqlState ''23505'' ''duplicate key value violates unique constraint''"

datatype fault = NoFault | FailBefore db_error | FailAfter db_error

record 't db =
  tables :: 't
  faults :: "fault list"
  db_now :: gotime
  row_locked :: "string \<Rightarrow> bool"
  ret_rank :: "string \<Rightarrow> nat"
  stamp :: "gotime \<Rightarrow> gotime"

definition exec_sql :: "('t \<Rightarrow> (db_error + 'a) \<times> 't) \<Rightarrow> 't db \<Rightarrow> (db_error + 'a) \<times> 't db" where
  "exec_sql stmt d =
     (case faults d of
        [] \<Rightarrow> (let (r, t) = stmt (tables d) in (r, d\<lparr>tables := t\<rparr>))
      | NoFault # fs \<Rightarrow> (let (r, t) = stmt (tables d) in (r, d\<lparr>tables := t, faults := fs\<rparr>))
      | FailBefore e # fs \<Rightarrow> (Inl e, d\<lparr>faults := fs\<rparr>)
      | FailAfter e # fs \<Rightarrow> (Inl e, d\<lparr>tables := snd (stmt (tables d)), faults := fs\<rparr>))"

lemma exec_sql_no_faults:
  "faults d = [] \<Longrightarrow> exec_sql stmt d = (fst (stmt (tables d)), d\<lparr>tables := snd (stmt (tables d))\<rparr>)"
  by (simp add: exec_sql_def split: prod.splits)

lemma exec_sql_Inr:
  "exec_sql stmt d = (Inr x, d') \<Longrightarrow> stmt (tables d) = (Inr x, tables d')"
  by (auto simp: exec_sql_def split: list.splits fault.splits prod.splits)

lemma exec_sql_ok:
  "exec_sql stmt d = (Inr x, d') \<Longrightarrow> tables d' = snd (stmt (tables d)) \<and> fst (stmt (tables d)) = Inr x"
  using exec_sql_Inr [of stmt d x d'] by simp

lemma exec_sql_tables:
  "exec_sql stmt d = (r, d') \<Longrightarrow> tables d' = tables d \<or> tables d' = snd (stmt (tables d))"
  by (auto simp: exec_sql_def split: list.splits fault.splits prod.splits)

lemma exec_sql_frame [frame_simps]:
  "db_now (snd (exec_sql stmt d)) = db_now d"
  "row_locked (snd (exec_sql stmt d)) = row_locked d"
  "ret_rank (snd (exec_sql stmt d)) = ret_rank d"
  "stamp (snd (exec_sql stmt d)) = stamp d"
  by (auto simp: exec_sql_def split: list.splits fault.splits prod.splits)

lemma exec_sql_frameD:
  "exec_sql stmt d = (r, d') \<Longrightarrow>
   db_now d' = db_now d \<and> row_locked d' = row_locked d \<and> ret_rank d' = ret_rank d \<and> stamp d' = stamp d"
  using exec_sql_frame [of stmt d] by simp

lemma exec_sql_faults_suffix:
  "exec_sql stmt d = (r, d') \<Longrightarrow> faults d' = tl (faults d)"
  by (auto simp: exec_sql_def split: list.splits fault.splits prod.splits)

lemma exec_sql_shape:
  "exec_sql stmt d = (fst (stmt (tables d)), d\<lparr>tables := snd (stmt (tables d)), faults := tl (faults d)\<rparr>)
   \<or> (\<exists>e. exec_sql stmt d = (Inl e, d\<lparr>tables := snd (stmt (tables d)), faults := tl (faults d)\<rparr>))
   \<or> (\<exists>e. exec_sql stmt d = (Inl e, d\<lparr>faults := tl (faults d)\<rparr>))"
proof (cases "faults d")
  case Nil
  then show ?thesis by (cases d) (simp add: exec_sql_no_faults)
next
  case (Cons f fs)
  then show ?thesis by (cases f) (auto simp: exec_sql_def split: prod.splits)
qed

text \<open>A property of the tables that a statement keeps is kept by running it, faults or not.\<close>

lemma exec_sql_keeps:
  "exec_sql stmt d = (r, d') \<Longrightarrow> P (tables d) \<Longrightarrow> (\<And>t. P t \<Longrightarrow> P (snd (stmt t))) \<Longrightarrow> P (tables d')"
  using exec_sql_tables [of stmt d r d'] by metis

text \<open>Reading \<open>rows.Err()\<close> after the loop over the rows of a query is one more chance to fail.\<close>

definition rows_err :: "'t db \<Rightarrow> (db_error + unit) \<times> 't db" where
  "rows_err d = exec_sql (\<lambda>t. (Inr (), t)) d"

definition no_faults :: "'t db \<Rightarrow> bool" where
  "no_faults d \<longleftrightarrow> faults d = []"

lemma no_faults_exec [simp]: "no_faults d \<Longrightarrow> no_faults (snd (exec_sql stmt d))"
  by (simp add: no_faults_def exec_sql_no_faults)

lemma view_of_read: "exec_sql (\<lambda>t. (f t, t)) d = (r, d') \<Longrightarrow> tables d' = tables d"
  using exec_sql_tables by fastforce

lemma frame_of_read:
  "exec_sql (\<lambda>t. (f t, t)) d = (r, d') \<Longrightarrow> tables d' = tables d \<and> stamp d' = stamp d"
  using view_of_read exec_sql_frameD by metis

section \<open>Tables with a primary key\<close>

definition has_key :: "('r \<Rightarrow> 'k) \<Rightarrow> 'k \<Rightarrow> 'r list \<Rightarrow> bool" where
  "has_key key k t \<longleftrightarrow> list_ex (\<lambda>r. key r = k) t"

definition keyed :: "('r \<Rightarrow> 'k) \<Rightarrow> 'r list \<Rightarrow> bool" where
  "keyed key t \<longleftrightarrow> distinct (map key t)"

definition row_of :: "('r \<Rightarrow> 'k) \<Rightarrow> 'k \<Rightarrow> 'r list \<Rightarrow> 'r option" where
  "row_of key k t = find (\<lambda>r. key r = k) t"

definition insert_row :: "('r \<Rightarrow> 'k) \<Rightarrow> 'r \<Rightarrow> 'r list \<Rightarrow> (db_error + unit) \<times> 'r list" where
  "insert_row key r t = (if has_key key (key r) t then (Inl unique_violation, t) else (Inr (), t @ [r]))"

definition update_where :: "('r \<Rightarrow> bool) \<Rightarrow> ('r \<Rightarrow> 'r) \<Rightarrow> 'r list \<Rightarrow> 'r list" where
  "update_where P f t = map (\<lambda>r. if P r then f r else r) t"

lemma has_key_iff: "has_key key k t \<longleftrightarrow> k \<in> key ` set t"
  by (auto simp: has_key_def list_ex_iff)

lemma has_key_row_of: "has_key key k t \<longleftrightarrow> row_of key k t \<noteq> None"
  by (auto simp: has_key_iff row_of_def find_None_iff_all)

lemma row_of_Some_D: "row_of key k t = Some r \<Longrightarrow> r \<in> set t \<and> key r = k"
  unfolding row_of_def by (drule find_Some_D) simp

lemma row_of_keyed: "keyed key t \<Longrightarrow> r \<in> set t \<Longrightarrow> row_of key (key r) t = Some r"
  unfolding row_of_def keyed_def using find_key_unique [of key t r "key r" "\<lambda>_. True"] by simp

lemma length_update_where [simp]: "length (update_where P f t) = length t"
  by (simp add: update_where_def)

lemma update_where_keys:
  "(\<And>r. key (f r) = key r) \<Longrightarrow> map key (update_where P f t) = map key t"
  by (simp add: update_where_def)

lemma keyed_insert_row: "keyed key t \<Longrightarrow> keyed key (snd (insert_row key r t))"
  by (auto simp: keyed_def insert_row_def has_key_iff)

lemma keyed_update_where: "(\<And>r. key (f r) = key r) \<Longrightarrow> keyed key (update_where P f t) = keyed key t"
  by (simp add: keyed_def update_where_keys)

lemma row_of_None_iff: "row_of key k t = None \<longleftrightarrow> k \<notin> key ` set t"
  by (auto simp: row_of_def find_None_iff_all)

lemma row_of_append:
  "row_of key k (t @ u) = (case row_of key k t of None \<Rightarrow> row_of key k u | Some r \<Rightarrow> Some r)"
  unfolding row_of_def by (rule find_append_case)

lemma row_of_insert_row:
  assumes "insert_row key r t = (Inr (), t')"
  shows "row_of key k t' = (if k = key r then Some r else row_of key k t)"
proof -
  have t': "t' = t @ [r]" and new: "row_of key (key r) t = None"
    using assms by (auto simp: insert_row_def has_key_iff row_of_None_iff split: if_splits)
  show ?thesis
    by (auto simp: t' row_of_append new row_of_def [of _ _ "[r]"] split: option.splits)
qed

lemma insert_row_cases:
  obtains (inserted) "insert_row key r t = (Inr (), t @ [r])" "row_of key (key r) t = None"
    | (duplicate) "insert_row key r t = (Inl unique_violation, t)" "row_of key (key r) t \<noteq> None"
  by (cases "has_key key (key r) t") (auto simp: insert_row_def has_key_row_of)

lemma row_of_update_where:
  "(\<And>r. key (f r) = key r) \<Longrightarrow>
   row_of key k (update_where P f t) = map_option (\<lambda>r. if P r then f r else r) (row_of key k t)"
  unfolding row_of_def update_where_def by (rule find_map_keep) simp

text \<open>\<open>UPDATE ... WHERE key = k\<close>.\<close>

definition update_key :: "('r \<Rightarrow> 'k) \<Rightarrow> 'k \<Rightarrow> ('r \<Rightarrow> 'r) \<Rightarrow> 'r list \<Rightarrow> 'r list" where
  "update_key key k f t = update_where (\<lambda>r. key r = k) f t"

lemma row_of_update_key:
  "(\<And>r. key (f r) = key r) \<Longrightarrow>
   row_of key k' (update_key key k f t) =
     (if k' = k then map_option f (row_of key k t) else row_of key k' t)"
  unfolding update_key_def
  by (cases "row_of key k' t") (auto simp: row_of_update_where dest: row_of_Some_D)

lemma keyed_update_key: "(\<And>r. key (f r) = key r) \<Longrightarrow> keyed key (update_key key k f t) = keyed key t"
  by (simp add: update_key_def keyed_update_where)

section \<open>Claiming rows: UPDATE ... WHERE key IN (SELECT ... FOR UPDATE SKIP LOCKED) RETURNING\<close>

text \<open>
  Both services poll their queue table with the same statement: the keys of the first \<open>n\<close> ready,
  unlocked rows by some order, a new status for these rows, and the updated rows as the result.
\<close>

definition claim_keys ::
  "('r \<Rightarrow> string) \<Rightarrow> ('r \<Rightarrow> bool) \<Rightarrow> ('r \<Rightarrow> gotime) \<Rightarrow> (string \<Rightarrow> bool) \<Rightarrow> nat \<Rightarrow> 'r list \<Rightarrow> string list" where
  "claim_keys key ready age locked n t =
     map key (take n (sort_key age (filter (\<lambda>r. ready r \<and> \<not> locked (key r)) t)))"

definition claim_rows ::
  "('r \<Rightarrow> string) \<Rightarrow> ('r \<Rightarrow> bool) \<Rightarrow> ('r \<Rightarrow> gotime) \<Rightarrow> ('r \<Rightarrow> 'r) \<Rightarrow> (string \<Rightarrow> bool) \<Rightarrow> (string \<Rightarrow> nat) \<Rightarrow> nat
     \<Rightarrow> 'r list \<Rightarrow> 'r list \<times> 'r list" where
  "claim_rows key ready age mark locked rank n t =
     (let ks = claim_keys key ready age locked n t;
          t' = update_where (\<lambda>r. key r \<in> set ks) mark t
      in (sort_key (\<lambda>r. rank (key r)) (filter (\<lambda>r. key r \<in> set ks) t'), t'))"

text \<open>
  The contract of such a queue: marking keeps the key, and a marked row is not ready at any later
  time. Everything a poller relies on follows.
\<close>

locale claim_queue =
  fixes key :: "'r \<Rightarrow> string"
    and ready_at :: "gotime \<Rightarrow> 'r \<Rightarrow> bool"
    and age :: "'r \<Rightarrow> gotime"
    and mark :: "'r \<Rightarrow> 'r"
  assumes key_mark: "key (mark r) = key r"
    and mark_not_ready: "\<not> ready_at now (mark r)"
begin

lemma claim_keys_subset:
  "k \<in> set (claim_keys key (ready_at now) age locked n t) \<Longrightarrow>
   \<exists>r \<in> set t. key r = k \<and> ready_at now r \<and> \<not> locked k"
  unfolding claim_keys_def by (auto dest!: in_set_takeD)

lemma claim_keys_distinct: "keyed key t \<Longrightarrow> distinct (claim_keys key (ready_at now) age locked n t)"
  unfolding claim_keys_def keyed_def
  by (intro distinct_map_take distinct_map_sort_key distinct_map_filter)

lemma length_claim_keys: "length (claim_keys key (ready_at now) age locked n t) \<le> n"
  by (simp add: claim_keys_def)

lemma claim_keyed: "keyed key t \<Longrightarrow> keyed key (snd (claim_rows key (ready_at now) age mark locked rank n t))"
  by (simp add: claim_rows_def Let_def keyed_update_where key_mark)

lemma claim_length_table [simp]: "length (snd (claim_rows key (ready_at now) age mark locked rank n t)) = length t"
  by (simp add: claim_rows_def Let_def)

text \<open>What the statement returns: the marked versions of ready, unlocked rows, each key once.\<close>

lemma claimed_iff:
  assumes "keyed key t"
  shows "set (fst (claim_rows key (ready_at now) age mark locked rank n t)) =
     mark ` {r \<in> set t. key r \<in> set (claim_keys key (ready_at now) age locked n t)}"
  by (auto simp: claim_rows_def Let_def update_where_def key_mark)

lemma claim_result_keys:
  assumes "keyed key t"
  shows "set (map key (fst (claim_rows key (ready_at now) age mark locked rank n t))) =
     set (claim_keys key (ready_at now) age locked n t)"
  using claim_keys_subset [of _ now locked n t]
  by (force simp: claimed_iff [OF assms] key_mark image_iff)

lemma claim_result_distinct:
  "keyed key t \<Longrightarrow> distinct (map key (fst (claim_rows key (ready_at now) age mark locked rank n t)))"
  unfolding claim_rows_def Let_def fst_conv
  by (intro distinct_map_sort_key distinct_map_filter)
     (simp add: keyed_update_where key_mark flip: keyed_def)

lemma claim_result_length:
  assumes "keyed key t"
  shows "length (fst (claim_rows key (ready_at now) age mark locked rank n t)) \<le> n"
proof -
  let ?rs = "fst (claim_rows key (ready_at now) age mark locked rank n t)"
  let ?ks = "claim_keys key (ready_at now) age locked n t"
  have "length (map key ?rs) = length ?ks"
    using claim_result_keys [OF assms] claim_result_distinct [OF assms] claim_keys_distinct [OF assms]
    by (metis distinct_card)
  then show ?thesis using length_claim_keys by simp
qed

text \<open>Rows that are not claimed are left alone; claimed rows are marked in the table.\<close>

lemma claim_row_of:
  "row_of key k (snd (claim_rows key (ready_at now) age mark locked rank n t)) =
     (if k \<in> set (claim_keys key (ready_at now) age locked n t)
      then map_option mark (row_of key k t) else row_of key k t)"
  unfolding claim_rows_def Let_def snd_conv
  by (cases "row_of key k t") (auto simp: row_of_update_where key_mark dest: row_of_Some_D)

text \<open>No double claim: two polls one after the other never return the same key.\<close>

lemma claim_twice_disjoint:
  assumes "keyed key t"
  shows "set (claim_keys key (ready_at now1) age locked1 n1 t) \<inter>
     set (claim_keys key (ready_at now2) age locked2 n2
            (snd (claim_rows key (ready_at now1) age mark locked1 rank1 n1 t))) = {}"
proof -
  have "\<not> ready_at now2 r"
    if "r \<in> set (snd (claim_rows key (ready_at now1) age mark locked1 rank1 n1 t))"
      and "key r \<in> set (claim_keys key (ready_at now1) age locked1 n1 t)" for r
    using that by (auto simp: claim_rows_def Let_def update_where_def key_mark mark_not_ready)
  then show ?thesis using claim_keys_subset [of _ now2 locked2 n2] by fastforce
qed

text \<open>Nor do two polls that run at the same time on the same rows: the second skips what the first locked.\<close>

lemma claim_concurrent_disjoint:
  assumes "\<forall>k \<in> set (claim_keys key (ready_at now1) age locked1 n1 t). locked2 k"
  shows "set (claim_keys key (ready_at now1) age locked1 n1 t) \<inter>
     set (claim_keys key (ready_at now2) age locked2 n2 t') = {}"
  using assms claim_keys_subset [of _ now2 locked2 n2 t'] by fastforce

text \<open>Oldest first: a ready, unlocked row that is passed over is not older than a claimed one.\<close>

lemma claim_oldest_first:
  assumes "keyed key t" and "r \<in> set t" and "key r \<in> set (claim_keys key (ready_at now) age locked n t)"
    and "r' \<in> set t" and "ready_at now r'" and "\<not> locked (key r')"
    and "key r' \<notin> set (claim_keys key (ready_at now) age locked n t)"
  shows "age r \<le> age r'"
proof -
  let ?xs = "filter (\<lambda>r. ready_at now r \<and> \<not> locked (key r)) t"
  obtain r0 where r0: "r0 \<in> set (take n (sort_key age ?xs))" "key r0 = key r"
    using assms(3) by (auto simp: claim_keys_def)
  then have "r0 \<in> set t" by (auto dest: in_set_takeD)
  then have "r0 = r" using r0 assms(1,2) by (auto simp: keyed_def dest: distinct_map_inj)
  have "r' \<notin> set (take n (sort_key age ?xs))" using assms(7) by (auto simp: claim_keys_def)
  moreover have "r' \<in> set (sort_key age ?xs)" using assms(4-6) by simp
  ultimately have "r' \<in> set (drop n (sort_key age ?xs))"
    by (metis Un_iff append_take_drop_id set_append)
  then show ?thesis using sort_key_take_le [of r0 n age ?xs r'] r0 \<open>r0 = r\<close> by simp
qed

text \<open>And complete: with room for all ready rows, all of them are claimed.\<close>

lemma claim_all:
  "length (filter (\<lambda>r. ready_at now r \<and> \<not> locked (key r)) t) \<le> n \<Longrightarrow> r \<in> set t \<Longrightarrow> ready_at now r \<Longrightarrow>
   \<not> locked (key r) \<Longrightarrow> key r \<in> set (claim_keys key (ready_at now) age locked n t)"
  by (simp add: claim_keys_def)

end

end
