(* ===== verification/NotificationDomain.thy ===== *)
theory NotificationDomain
  imports Sql
begin

text \<open>
  The data of the notification service: \<open>internal/domain/notification.go\<close>, the tables of
  \<open>migrations/\<close> and the repository interfaces of \<open>internal/repository/\<close>.

  A Go interface value is a record of its methods over the state \<open>'s\<close> they act on; the service code
  takes such records, as the Go structs hold interface values. Error values of this service are
  their messages, since the code inspects nothing else of them.
\<close>

section \<open>Domain types\<close>

datatype NotificationType = Email | Sms | Push

datatype NotificationStatus = Pending | Processing | Sent | DLQ | Scheduled

fun string_of_type :: "NotificationType \<Rightarrow> string" where
  "string_of_type Email = ''EMAIL''"
| "string_of_type Sms = ''SMS''"
| "string_of_type Push = ''PUSH''"

fun string_of_status :: "NotificationStatus \<Rightarrow> string" where
  "string_of_status Pending = ''PENDING''"
| "string_of_status Processing = ''PROCESSING''"
| "string_of_status Sent = ''SENT''"
| "string_of_status DLQ = ''DLQ''"
| "string_of_status Scheduled = ''SCHEDULED''"

text \<open>
  The conversion \<open>NotificationType(s)\<close> followed by the comparison with the three constants.
\<close>

definition type_of_string :: "string \<Rightarrow> NotificationType option" where
  "type_of_string s =
     (if s = ''EMAIL'' then Some Email else if s = ''SMS'' then Some Sms
      else if s = ''PUSH'' then Some Push else None)"

lemma type_of_string_of_type [simp]: "type_of_string (string_of_type ty) = Some ty"
  by (cases ty) (simp_all add: type_of_string_def)

lemma type_of_string_Some: "type_of_string s = Some ty \<longleftrightarrow> s = string_of_type ty"
  by (cases ty) (auto simp: type_of_string_def)

text \<open>
  \<open>map[string]string\<close>: the entries in the order one \<open>range\<close> loop visits them. Go leaves that order
  open, so statements about it are about every permutation of the list.
\<close>

type_synonym variables = "(string \<times> string) list"

record Notification =
  n_ID :: string
  n_Recipient :: string
  n_Template :: string
  n_Variable :: variables
  n_RetryCount :: int
  n_CreatedAt :: gotime
  n_Type :: NotificationType
  n_Status :: NotificationStatus
  n_NextRetryAt :: gotime
  n_UserID :: string
  n_ErrorMessage :: string

section \<open>Tables\<close>

text \<open>
  A \<open>JSONB\<close> value: the object of a variable map, or anything that does not decode into one. The codec keeps
  the map as it is, which is exact for names and values that are valid UTF-8 (\<open>json.Marshal\<close> writes U+FFFD
  for every byte that is not); \<open>Marshal\<close> of a map of strings cannot fail, the error type is the source's.
\<close>

datatype jsonb = JsonVars variables | JsonOther

definition json_marshal :: "variables \<Rightarrow> string + jsonb" where
  "json_marshal v = Inr (JsonVars v)"

fun json_unmarshal :: "jsonb \<Rightarrow> string + variables" where
  "json_unmarshal (JsonVars v) = Inr v"
| "json_unmarshal JsonOther = Inl ''json: cannot unmarshal value into Go value of type map[string]string''"

text \<open>The tables \<open>notifications\<close> and \<open>dlq_notifications\<close>; the columns added by migrations 3 and 4 may be NULL.\<close>

record notif_row =
  id_col :: string
  recipient_col :: string
  template_col :: string
  variable_col :: jsonb
  retry_count_col :: int
  created_at_col :: gotime
  type_col :: NotificationType
  status_col :: NotificationStatus
  next_retry_at_col :: gotime
  user_id_col :: "string option"
  error_message_col :: "string option"

record template_row =
  tname_col :: string
  tbody_col :: string
  tuser_col :: string

record ntables =
  notifications :: "notif_row list"
  dlq_notifications :: "notif_row list"
  templates :: "template_row list"

type_synonym ndb = "ntables db"

definition global_user :: string where
  "global_user = ''global''"

definition system_user :: string where
  "system_user = ''system''"

text \<open>\<open>if userID == "" { userID = "global" }\<close>\<close>

definition norm_user :: "string \<Rightarrow> string" where
  "norm_user u = (if u = '''' then global_user else u)"

section \<open>Repository interfaces\<close>

record 's NotificationRepo =
  nr_Save :: "Notification \<Rightarrow> 's \<Rightarrow> (string + unit) \<times> 's"
  nr_Update :: "Notification \<Rightarrow> 's \<Rightarrow> (string + unit) \<times> 's"
  nr_Get :: "string \<Rightarrow> string \<Rightarrow> 's \<Rightarrow> (string + Notification) \<times> 's"
  nr_GetReadyJobs :: "'s \<Rightarrow> (string + Notification list) \<times> 's"
  nr_GetTotalCount :: "'s \<Rightarrow> (string + int) \<times> 's"

record 's DLQRepo =
  dr_Save :: "Notification \<Rightarrow> 's \<Rightarrow> (string + unit) \<times> 's"
  dr_Get :: "string \<Rightarrow> string \<Rightarrow> 's \<Rightarrow> (string + Notification) \<times> 's"

record 's TemplateRepo =
  tr_Save :: "string \<Rightarrow> string \<Rightarrow> string \<Rightarrow> 's \<Rightarrow> (string + unit) \<times> 's"
  tr_Get :: "string \<Rightarrow> string \<Rightarrow> 's \<Rightarrow> (string + string) \<times> 's"
  tr_GetAll :: "string \<Rightarrow> 's \<Rightarrow> (string + (string \<Rightarrow> string option)) \<times> 's"

end
