(* ===== verification/TemplateStore.thy ===== *)
theory TemplateStore
  imports NotificationDomain
begin

text \<open>
  \<open>internal/repository/postgres/template_repository.go\<close>: the templates of a user with a fallback to
  the global ones. The locale \<open>template_repo\<close> is the contract of the interface \<open>TemplateRepo\<close>
  (\<open>internal/repository/template_repository.go\<close>) over an abstract view of the store: what is saved
  for a user and a name, and how a lookup resolves.
\<close>

section \<open>The contract\<close>

type_synonym template_view = "string \<Rightarrow> string \<Rightarrow> string option"

definition resolve :: "template_view \<Rightarrow> string \<Rightarrow> string \<Rightarrow> string option" where
  "resolve v u name = (case v (norm_user u) name of Some b \<Rightarrow> Some b | None \<Rightarrow> v global_user name)"

definition save_view :: "template_view \<Rightarrow> string \<Rightarrow> string \<Rightarrow> string \<Rightarrow> template_view" where
  "save_view v u name body = v(norm_user u := (v (norm_user u))(name \<mapsto> body))"

lemma resolve_save_same: "resolve (save_view v u name body) u name = Some body"
  by (simp add: resolve_def save_view_def)

lemma resolve_save_other_name: "name' \<noteq> name \<Longrightarrow> resolve (save_view v u name body) u' name' = resolve v u' name'"
  by (auto simp: resolve_def save_view_def split: option.splits)

text \<open>A user's template is invisible to every other user, unless it is a global one.\<close>

lemma resolve_save_other_user:
  "norm_user u \<noteq> global_user \<Longrightarrow> norm_user u' \<noteq> norm_user u \<Longrightarrow>
   resolve (save_view v u name body) u' name' = resolve v u' name'"
  by (auto simp: resolve_def save_view_def split: option.splits)

locale template_repo =
  fixes R :: "'s TemplateRepo"
    and view :: "'s \<Rightarrow> template_view"
    and reliable :: "'s \<Rightarrow> bool"
  assumes save_ok: "tr_Save R name body u s = (Inr (), s') \<Longrightarrow> view s' = save_view (view s) u name body"
    and save_fail: "tr_Save R name body u s = (Inl e, s') \<Longrightarrow>
          view s' = view s \<or> view s' = save_view (view s) u name body"
    and get_ok: "tr_Get R name u s = (Inr b, s') \<Longrightarrow> resolve (view s) u name = Some b"
    and get_view: "view (snd (tr_Get R name u s)) = view s"
    and get_all_ok: "tr_GetAll R u s = (Inr m, s') \<Longrightarrow> m name = resolve (view s) u name"
    and get_all_view: "view (snd (tr_GetAll R u s)) = view s"
    and reliable_save: "reliable s \<Longrightarrow> fst (tr_Save R name body u s) = Inr () \<and> reliable (snd (tr_Save R name body u s))"
    and reliable_get: "reliable s \<Longrightarrow> reliable (snd (tr_Get R name u s)) \<and>
          fst (tr_Get R name u s) =
            (case resolve (view s) u name of Some b \<Rightarrow> Inr b | None \<Rightarrow> Inl (''template not found: '' @ name))"
begin

lemma get_after_save:
  assumes "tr_Save R name body u s = (Inr (), s')" and "reliable s'"
  shows "fst (tr_Get R name u s') = Inr body"
  using reliable_get [OF assms(2), of name u] save_ok [OF assms(1)] by (simp add: resolve_save_same)

lemma get_after_foreign_save:
  assumes "tr_Save R name body u s = (r, s')"
    and "norm_user u \<noteq> global_user" and "norm_user u' \<noteq> norm_user u"
  shows "resolve (view s') u' name' = resolve (view s) u' name'"
proof (cases r)
  case (Inl e)
  then show ?thesis using save_fail assms resolve_save_other_user by (metis (no_types, lifting))
next
  case (Inr x)
  then show ?thesis using save_ok [of name body u s s'] assms resolve_save_other_user by simp
qed

end

section \<open>The PostgreSQL repository\<close>

definition template_key :: "template_row \<Rightarrow> string \<times> string" where
  "template_key r = (tuser_col r, tname_col r)"

text \<open>\<open>INSERT ... ON CONFLICT (user_id, name) DO UPDATE SET body = EXCLUDED.body\<close>\<close>

definition upsert_template :: "template_row \<Rightarrow> template_row list \<Rightarrow> template_row list" where
  "upsert_template r t =
     (if has_key template_key (template_key r) t
      then update_key template_key (template_key r) (\<lambda>old. old\<lparr>tbody_col := tbody_col r\<rparr>) t
      else t @ [r])"

definition TemplateRepository_Save :: "string \<Rightarrow> string \<Rightarrow> string \<Rightarrow> ndb \<Rightarrow> (string + unit) \<times> ndb" where
  "TemplateRepository_Save name body userID d =
     (let userID = (if userID = '''' then global_user else userID);
          (r, d') = exec_sql (\<lambda>t. (Inr (), t\<lparr>templates :=
             upsert_template \<lparr>tname_col = name, tbody_col = body, tuser_col = userID\<rparr> (templates t)\<rparr>)) d
      in case r of
           Inl err \<Rightarrow> (Inl (''save template: '' @ err_msg err), d')
         | Inr _ \<Rightarrow> (Inr (), d'))"

text \<open>
  The rows of a user and the global ones, the user's first: \<open>ORDER BY (user_id = 'global') ASC\<close>. The
  second criterion \<open>user_id DESC\<close> never decides, since rows of one group have the same \<open>user_id\<close>.
\<close>

definition template_rows :: "(template_row \<Rightarrow> bool) \<Rightarrow> string \<Rightarrow> template_row list \<Rightarrow> template_row list" where
  "template_rows P userID t =
     sort_key (\<lambda>r. if tuser_col r = global_user then 1 else (0::nat))
       (filter (\<lambda>r. P r \<and> (tuser_col r = userID \<or> tuser_col r = global_user)) t)"

definition TemplateRepository_Get :: "string \<Rightarrow> string \<Rightarrow> ndb \<Rightarrow> (string + string) \<times> ndb" where
  "TemplateRepository_Get name userID d =
     (let userID = (if userID = '''' then global_user else userID);
          (r, d') = exec_sql (\<lambda>t.
             (case template_rows (\<lambda>r. tname_col r = name) userID (templates t) of
                [] \<Rightarrow> Inl ErrNoRows
              | r # _ \<Rightarrow> Inr (tbody_col r), t)) d
      in case r of
           Inl err \<Rightarrow>
             (if err = ErrNoRows then (Inl (''template not found: '' @ name), d')
              else (Inl (''get template: '' @ err_msg err), d'))
         | Inr body \<Rightarrow> (Inr body, d'))"

text \<open>\<open>SELECT DISTINCT ON (name)\<close>: of the rows with one name, the first.\<close>

fun distinct_on :: "('r \<Rightarrow> 'k) \<Rightarrow> 'r list \<Rightarrow> 'r list" where
  "distinct_on f [] = []"
| "distinct_on f (r # rs) = r # distinct_on f (filter (\<lambda>r'. f r' \<noteq> f r) rs)"

text \<open>\<open>for rows.Next() { ...; templates[name] = body }\<close>.\<close>

definition collect_templates :: "template_row list \<Rightarrow> string \<Rightarrow> string option" where
  "collect_templates rows = fold (\<lambda>r m. m(tname_col r \<mapsto> tbody_col r)) rows (\<lambda>_. None)"

definition TemplateRepository_GetAll ::
  "string \<Rightarrow> ndb \<Rightarrow> (string + (string \<Rightarrow> string option)) \<times> ndb" where
  "TemplateRepository_GetAll userID d =
     (let userID = (if userID = '''' then global_user else userID);
          (r, d1) = exec_sql (\<lambda>t.
             (Inr (distinct_on tname_col (template_rows (\<lambda>_. True) userID (templates t))), t)) d
      in case r of
           Inl err \<Rightarrow> (Inl (''query all templates: '' @ err_msg err), d1)
         | Inr rows \<Rightarrow>
             (let (e, d2) = rows_err d1
              in case e of
                   Inl err \<Rightarrow> (Inl (''iterate templates: '' @ err_msg err), d2)
                 | Inr _ \<Rightarrow> (Inr (collect_templates rows), d2)))"

definition TemplateRepository :: "ndb TemplateRepo" where
  "TemplateRepository = \<lparr>tr_Save = TemplateRepository_Save, tr_Get = TemplateRepository_Get,
     tr_GetAll = TemplateRepository_GetAll\<rparr>"

section \<open>The repository meets the contract\<close>

definition pg_template_view :: "ndb \<Rightarrow> template_view" where
  "pg_template_view d u name = map_option tbody_col (row_of template_key (u, name) (templates (tables d)))"

lemma upsert_view:
  "row_of template_key k (upsert_template r t) =
     (if k = template_key r
      then Some (case row_of template_key k t of Some old \<Rightarrow> old\<lparr>tbody_col := tbody_col r\<rparr> | None \<Rightarrow> r)
      else row_of template_key k t)"
proof (cases "has_key template_key (template_key r) t")
  case True
  have "row_of template_key k (upsert_template r t) =
      (if k = template_key r
       then map_option (\<lambda>old. old\<lparr>tbody_col := tbody_col r\<rparr>) (row_of template_key (template_key r) t)
       else row_of template_key k t)"
    unfolding upsert_template_def using True
    by (simp add: row_of_update_key template_key_def)
  then show ?thesis using True by (auto simp: has_key_row_of)
next
  case False
  then have "insert_row template_key r t = (Inr (), upsert_template r t)"
    by (simp add: insert_row_def upsert_template_def)
  then show ?thesis using False by (auto simp: row_of_insert_row has_key_row_of)
qed

lemma template_rows_split:
  "template_rows P u t =
     filter (\<lambda>r. P r \<and> tuser_col r \<noteq> global_user \<and> tuser_col r = u) t
     @ filter (\<lambda>r. P r \<and> tuser_col r = global_user) t"
  unfolding template_rows_def sort_key_flag filter_filter
  by (intro arg_cong2 [where f = "(@)"] filter_cong) auto

lemma template_rows_find:
  "find Q (template_rows P u t) =
     (case find (\<lambda>r. P r \<and> tuser_col r \<noteq> global_user \<and> tuser_col r = u \<and> Q r) t of
        Some r \<Rightarrow> Some r
      | None \<Rightarrow> find (\<lambda>r. P r \<and> tuser_col r = global_user \<and> Q r) t)"
  by (simp add: template_rows_split find_append_case find_filter split: option.split)

lemma find_contra: "find (\<lambda>r. f r \<noteq> c \<and> f r = c \<and> P r) t = None"
  by (simp add: find_None_iff_all)

lemma find_restrict: "u \<noteq> c \<Longrightarrow> find (\<lambda>r. f r \<noteq> c \<and> f r = u \<and> P r) t = find (\<lambda>r. f r = u \<and> P r) t"
  by (induction t) auto

lemma resolve_pg:
  "resolve (pg_template_view d) u name =
     map_option tbody_col (find (\<lambda>r. tname_col r = name) (template_rows (\<lambda>_. True) (norm_user u) (templates (tables d))))"
proof (cases "norm_user u = global_user")
  case True
  then show ?thesis
    by (simp add: template_rows_find find_contra resolve_def pg_template_view_def row_of_def
        template_key_def split: option.splits)
next
  case False
  then show ?thesis
    by (simp add: template_rows_find find_restrict resolve_def pg_template_view_def row_of_def template_key_def
        split: option.splits)
qed

lemma template_rows_head:
  "(case template_rows (\<lambda>r. tname_col r = name) u t of [] \<Rightarrow> None | r # _ \<Rightarrow> Some r) =
     find (\<lambda>r. tname_col r = name) (template_rows (\<lambda>_. True) u t)"
proof -
  have "filter (\<lambda>_. True) (template_rows P u t) = template_rows P u t" for P by simp
  then have "(case template_rows (\<lambda>r. tname_col r = name) u t of [] \<Rightarrow> None | r # _ \<Rightarrow> Some r) =
      find (\<lambda>_. True) (template_rows (\<lambda>r. tname_col r = name) u t)"
    by (simp add: find_filter_first)
  also have "\<dots> = find (\<lambda>r. tname_col r = name) (template_rows (\<lambda>_. True) u t)"
    unfolding template_rows_find by (intro arg_cong2 [where f = "\<lambda>a b. case a of Some r \<Rightarrow> Some r | None \<Rightarrow> b"]
        arg_cong [where f = "\<lambda>P. find P t"]) auto
  finally show ?thesis .
qed

lemma set_distinct_on: "set (distinct_on f rs) \<subseteq> set rs"
  by (induction f rs rule: distinct_on.induct) auto

lemma distinct_distinct_on: "distinct (map f (distinct_on f rs))"
proof (induction f rs rule: distinct_on.induct)
  case (2 f r rs)
  then show ?case using set_distinct_on [of f "filter (\<lambda>r'. f r' \<noteq> f r) rs"] by auto
qed simp

lemma find_distinct_on: "find (\<lambda>r. f r = k) (distinct_on f rs) = find (\<lambda>r. f r = k) rs"
proof (induction f rs rule: distinct_on.induct)
  case (2 f r rs)
  have "(\<lambda>x. f x \<noteq> f r \<and> f x = k) = (\<lambda>x. f x = k)" if "f r \<noteq> k" using that by auto
  then show ?case using 2 by (simp add: find_filter)
qed simp

lemma collect_templates_find:
  "distinct (map tname_col rows) \<Longrightarrow>
   collect_templates rows name = map_option tbody_col (find (\<lambda>r. tname_col r = name) rows)"
proof -
  have "fold (\<lambda>r m. m(tname_col r \<mapsto> tbody_col r)) rows m name =
      (case find (\<lambda>r. tname_col r = name) rows of Some r \<Rightarrow> Some (tbody_col r) | None \<Rightarrow> m name)"
    if "distinct (map tname_col rows)" for m
    using that
  proof (induction rows arbitrary: m)
    case (Cons r rows)
    then show ?case by (auto simp: image_iff split: option.splits dest!: find_Some_D)
  qed simp
  then show "distinct (map tname_col rows) \<Longrightarrow> ?thesis"
    by (simp add: collect_templates_def split: option.splits)
qed

lemma Get_cases:
  "TemplateRepository_Get name u d =
     (let (r, d') = exec_sql (\<lambda>t. (case find (\<lambda>r. tname_col r = name)
                (template_rows (\<lambda>_. True) (norm_user u) (templates t)) of
                None \<Rightarrow> Inl ErrNoRows | Some r \<Rightarrow> Inr (tbody_col r), t)) d
      in (case r of
            Inl err \<Rightarrow> Inl (if err = ErrNoRows then ''template not found: '' @ name
                            else ''get template: '' @ err_msg err)
          | Inr body \<Rightarrow> Inr body, d'))"
proof -
  have "(case template_rows (\<lambda>r. tname_col r = name) (norm_user u) t of
           [] \<Rightarrow> Inl ErrNoRows | r # _ \<Rightarrow> Inr (tbody_col r)) =
        (case find (\<lambda>r. tname_col r = name) (template_rows (\<lambda>_. True) (norm_user u) t) of
           None \<Rightarrow> Inl ErrNoRows | Some r \<Rightarrow> Inr (tbody_col r))" for t
    unfolding template_rows_head [symmetric] by (simp split: list.splits)
  then show ?thesis
    by (simp add: TemplateRepository_Get_def norm_user_def [symmetric] split: prod.splits sum.splits)
qed

lemma Save_view:
  "templates t' = upsert_template \<lparr>tname_col = name, tbody_col = body, tuser_col = norm_user u\<rparr> (templates (tables d)) \<Longrightarrow>
   tables d' = t' \<Longrightarrow> pg_template_view d' = save_view (pg_template_view d) u name body"
  by (auto simp: fun_eq_iff pg_template_view_def save_view_def upsert_view template_key_def split: option.splits)

lemma Save_cases:
  assumes "TemplateRepository_Save name body u d = (r, d')"
  shows "r = Inr () \<Longrightarrow> pg_template_view d' = save_view (pg_template_view d) u name body"
    and "pg_template_view d' = pg_template_view d \<or> pg_template_view d' = save_view (pg_template_view d) u name body"
proof -
  obtain r0 where ex: "exec_sql (\<lambda>t. (Inr (), t\<lparr>templates :=
       upsert_template \<lparr>tname_col = name, tbody_col = body, tuser_col = norm_user u\<rparr> (templates t)\<rparr>)) d = (r0, d')"
    and r0: "r = Inr () \<longrightarrow> r0 = Inr ()"
    using assms by (auto simp: TemplateRepository_Save_def norm_user_def [symmetric] split: prod.splits sum.splits)
  show "pg_template_view d' = save_view (pg_template_view d) u name body" if "r = Inr ()"
  proof (rule Save_view [OF _ refl])
    show "templates (tables d') =
        upsert_template \<lparr>tname_col = name, tbody_col = body, tuser_col = norm_user u\<rparr> (templates (tables d))"
      using exec_sql_ok [OF ex [unfolded r0 [rule_format, OF that]]] by simp
  qed
  show "pg_template_view d' = pg_template_view d \<or> pg_template_view d' = save_view (pg_template_view d) u name body"
    using exec_sql_tables [OF ex]
  proof
    assume "tables d' = tables d"
    then show ?thesis by (simp add: pg_template_view_def [abs_def])
  next
    assume "tables d' = snd ((\<lambda>t. (Inr (), t\<lparr>templates :=
       upsert_template \<lparr>tname_col = name, tbody_col = body, tuser_col = norm_user u\<rparr> (templates t)\<rparr>)) (tables d))"
    then have "pg_template_view d' = save_view (pg_template_view d) u name body"
      by (intro Save_view [OF _ refl]) simp
    then show ?thesis ..
  qed
qed

interpretation pg_templates: template_repo TemplateRepository pg_template_view no_faults
proof (unfold_locales, goal_cases)
  case (1 name body u s s')
  then show ?case using Save_cases(1) by (simp add: TemplateRepository_def)
next
  case (2 name body u s e s')
  then show ?case using Save_cases(2) by (simp add: TemplateRepository_def)
next
  case (3 name u s b s')
  then show ?case
    by (auto simp: TemplateRepository_def Get_cases resolve_pg dest!: exec_sql_Inr
        split: prod.splits sum.splits option.splits)
next
  case (4 name u s)
  then show ?case
    by (auto simp: TemplateRepository_def Get_cases pg_template_view_def [abs_def] dest!: view_of_read
        split: prod.splits)
next
  case (5 u s m s' name)
  then show ?case
    by (auto simp: TemplateRepository_def TemplateRepository_GetAll_def norm_user_def [symmetric] resolve_pg
        collect_templates_find distinct_distinct_on find_distinct_on dest!: exec_sql_Inr
        split: prod.splits sum.splits)
next
  case (6 u s)
  then show ?case
    by (auto simp: TemplateRepository_def TemplateRepository_GetAll_def pg_template_view_def [abs_def]
        rows_err_def dest!: view_of_read split: prod.splits sum.splits)
next
  case (7 s name body u)
  then show ?case
    by (simp add: TemplateRepository_def TemplateRepository_Save_def no_faults_def exec_sql_no_faults)
next
  case (8 s name u)
  then show ?case
    by (auto simp: TemplateRepository_def Get_cases no_faults_def exec_sql_no_faults resolve_pg
        split: option.splits)
qed

lemma pg_template_ops [simp]:
  "tr_Save TemplateRepository = TemplateRepository_Save"
  "tr_Get TemplateRepository = TemplateRepository_Get"
  "tr_GetAll TemplateRepository = TemplateRepository_GetAll"
  by (simp_all add: TemplateRepository_def)

section \<open>Properties\<close>

definition sample_db :: "template_row list \<Rightarrow> ndb" where
  "sample_db ts = \<lparr>tables = \<lparr>notifications = [], dlq_notifications = [], templates = ts\<rparr>,
     faults = [], db_now = 0, row_locked = (\<lambda>_. False), ret_rank = (\<lambda>_. 0), stamp = id\<rparr>"

text \<open>
  Saving a template and reading it back gives the saved body: an upsert, so a second save of the
  same name by the same user replaces the first, and templates of other names are unchanged.
\<close>

lemma template_save_get:
  assumes "TemplateRepository_Save name body u d = (Inr (), d')" and "no_faults d'"
  shows "fst (TemplateRepository_Get name u d') = Inr body \<and>
     (name' = name \<or> resolve (pg_template_view d') u' name' = resolve (pg_template_view d) u' name')"
  using pg_templates.get_after_save [of name body u d d'] pg_templates.save_ok [of name body u d d'] assms
  by (cases "name' = name") (simp_all add: resolve_save_other_name)

lemma template_save_get_witness:
  "fst (TemplateRepository_Get ''MFA'' ''u1''
     (snd (TemplateRepository_Save ''MFA'' ''new'' ''u1''
       (sample_db [\<lparr>tname_col = ''MFA'', tbody_col = ''old'', tuser_col = ''u1''\<rparr>])))) = Inr ''new''"
proof -
  let ?d = "sample_db [\<lparr>tname_col = ''MFA'', tbody_col = ''old'', tuser_col = ''u1''\<rparr>]"
  have "TemplateRepository_Save ''MFA'' ''new'' ''u1'' ?d =
      (Inr (), snd (TemplateRepository_Save ''MFA'' ''new'' ''u1'' ?d))"
    "no_faults (snd (TemplateRepository_Save ''MFA'' ''new'' ''u1'' ?d))"
    using pg_templates.reliable_save [of ?d "''MFA''" "''new''" "''u1''"]
    by (simp_all add: no_faults_def sample_db_def prod_eq_iff)
  then show ?thesis
    using template_save_get [of "''MFA''" "''new''" "''u1''" ?d _ "''MFA''" "''u1''"] by blast
qed

text \<open>
  Tenants are isolated: a template that a user other than \<open>global\<close> saves never changes what another
  user's lookup of any name resolves to, whether the save succeeds or the connection fails midway.
\<close>

lemma template_isolation:
  assumes "norm_user u \<noteq> global_user" and "norm_user u' \<noteq> norm_user u" and "no_faults d'"
    and "TemplateRepository_Save name body u d = (r, d')"
  shows "fst (TemplateRepository_Get name' u' d') =
     (case resolve (pg_template_view d) u' name' of
        Some b \<Rightarrow> Inr b | None \<Rightarrow> Inl (''template not found: '' @ name'))"
  using pg_templates.get_after_foreign_save [of name body u d r d' u' name'] assms
    pg_templates.reliable_get [of d' name' u'] by simp

lemma template_isolation_witness:
  "fst (TemplateRepository_Get ''MFA'' ''u2''
     (snd (TemplateRepository_Save ''MFA'' ''mine'' ''u1''
       (sample_db [\<lparr>tname_col = ''MFA'', tbody_col = ''shared'', tuser_col = ''global''\<rparr>])))) = Inr ''shared''"
proof -
  let ?d = "sample_db [\<lparr>tname_col = ''MFA'', tbody_col = ''shared'', tuser_col = ''global''\<rparr>]"
  have "no_faults (snd (TemplateRepository_Save ''MFA'' ''mine'' ''u1'' ?d))"
    using pg_templates.reliable_save [of ?d "''MFA''" "''mine''" "''u1''"]
    by (simp add: no_faults_def sample_db_def)
  then show ?thesis
    using template_isolation [of "''u1''" "''u2''" "snd (TemplateRepository_Save ''MFA'' ''mine'' ''u1'' ?d)"
        "''MFA''" "''mine''" ?d _ "''MFA''"]
    by (simp add: norm_user_def global_user_def resolve_def pg_template_view_def sample_db_def row_of_def
        template_key_def prod_eq_iff)
qed

text \<open>
  C37. The dashboard's list agrees with the lookups: when \<open>GetAll\<close> returns, its map holds for every name
  exactly the body that \<open>Get\<close> would return to that user, and no other name.
\<close>

theorem template_get_all_agrees:
  assumes "TemplateRepository_GetAll u d = (Inr m, d')" and "no_faults d"
  shows "fst (TemplateRepository_Get name u d) =
     (case m name of Some b \<Rightarrow> Inr b | None \<Rightarrow> Inl (''template not found: '' @ name))"
  using pg_templates.get_all_ok [of u d m d' name] pg_templates.reliable_get [of d name u] assms by simp

theorem template_get_all_agrees_witness:
  "\<exists>m d'. TemplateRepository_GetAll ''u1'' (sample_db
       [\<lparr>tname_col = ''MFA'', tbody_col = ''shared'', tuser_col = ''global''\<rparr>,
        \<lparr>tname_col = ''MFA'', tbody_col = ''mine'', tuser_col = ''u1''\<rparr>]) = (Inr m, d') \<and> m ''MFA'' = Some ''mine''"
proof -
  let ?d = "sample_db [\<lparr>tname_col = ''MFA'', tbody_col = ''shared'', tuser_col = ''global''\<rparr>,
        \<lparr>tname_col = ''MFA'', tbody_col = ''mine'', tuser_col = ''u1''\<rparr>]"
  obtain m d' where m: "TemplateRepository_GetAll ''u1'' ?d = (Inr m, d')"
    by (simp add: TemplateRepository_GetAll_def exec_sql_no_faults rows_err_def sample_db_def)
  have "fst (TemplateRepository_Get ''MFA'' ''u1'' ?d) = Inr ''mine''"
    by (simp add: TemplateRepository_Get_def exec_sql_no_faults template_rows_def sample_db_def global_user_def)
  then have "m ''MFA'' = Some ''mine''"
    using template_get_all_agrees [OF m, of "''MFA''"]
    by (simp add: no_faults_def sample_db_def split: option.splits)
  then show ?thesis using m by blast
qed

end
