(* ===== verification/NotificationStore.thy ===== *)
theory NotificationStore
  imports TemplateStore
begin

text \<open>
  \<open>internal/repository/postgres/notification_repository.go\<close>: the tables of notifications and of
  dead letters behind the interfaces \<open>NotificationRepo\<close> and \<open>DLQRepo\<close>, and the in-memory
  idempotency keys.
\<close>

section \<open>Rows\<close>

text \<open>What \<open>INSERT\<close> stores: an empty user id becomes \<open>global\<close>, times are stored at column precision.\<close>

definition row_of_notification :: "(gotime \<Rightarrow> gotime) \<Rightarrow> jsonb \<Rightarrow> string \<Rightarrow> Notification \<Rightarrow> notif_row" where
  "row_of_notification st var userID n =
     \<lparr>id_col = n_ID n, recipient_col = n_Recipient n, template_col = n_Template n, variable_col = var,
      retry_count_col = n_RetryCount n, created_at_col = st (n_CreatedAt n), type_col = n_Type n,
      status_col = n_Status n, next_retry_at_col = st (n_NextRetryAt n),
      user_id_col = Some userID, error_message_col = Some (n_ErrorMessage n)\<rparr>"

text \<open>What \<open>UPDATE\<close> writes: every column but \<open>id\<close> and \<open>user_id\<close>.\<close>

definition overwrite_row :: "(gotime \<Rightarrow> gotime) \<Rightarrow> jsonb \<Rightarrow> Notification \<Rightarrow> notif_row \<Rightarrow> notif_row" where
  "overwrite_row st var n r =
     r\<lparr>recipient_col := n_Recipient n, template_col := n_Template n, variable_col := var,
       retry_count_col := n_RetryCount n, created_at_col := st (n_CreatedAt n), type_col := n_Type n,
       status_col := n_Status n, next_retry_at_col := st (n_NextRetryAt n),
       error_message_col := Some (n_ErrorMessage n)\<rparr>"

text \<open>
  \<open>Scan\<close> into Go strings refuses NULL; then the JSON column is decoded. \<open>scan_row\<close> keeps the two failures
  apart, since their messages differ.
\<close>

datatype scan_error = ScanFailed db_error | UnmarshalFailed string

definition null_scan_error :: db_error where
  "null_scan_error = DbError ''cannot scan NULL into *string''"

definition scan_row :: "notif_row \<Rightarrow> scan_error + Notification" where
  "scan_row r =
     (case (user_id_col r, error_message_col r) of
        (Some u, Some e) \<Rightarrow>
          (case json_unmarshal (variable_col r) of
             Inl err \<Rightarrow> Inl (UnmarshalFailed err)
           | Inr v \<Rightarrow> Inr \<lparr>n_ID = id_col r, n_Recipient = recipient_col r, n_Template = template_col r,
               n_Variable = v, n_RetryCount = retry_count_col r, n_CreatedAt = created_at_col r,
               n_Type = type_col r, n_Status = status_col r, n_NextRetryAt = next_retry_at_col r,
               n_UserID = u, n_ErrorMessage = e\<rparr>)
      | _ \<Rightarrow> Inl (ScanFailed null_scan_error))"

section \<open>NotificationRepository\<close>

definition NotificationRepository_Save :: "Notification \<Rightarrow> ndb \<Rightarrow> (string + unit) \<times> ndb" where
  "NotificationRepository_Save n d =
     (case json_marshal (n_Variable n) of
        Inl err \<Rightarrow> (Inl (''marshal variables: '' @ err), d)
      | Inr varString \<Rightarrow>
          (let userID = (if n_UserID n = '''' then global_user else n_UserID n);
               (r, d') = exec_sql (\<lambda>t.
                  (let (r, rows) = insert_row id_col (row_of_notification (stamp d) varString userID n)
                                     (notifications t)
                   in (r, t\<lparr>notifications := rows\<rparr>))) d
           in case r of
                Inl err \<Rightarrow> (Inl (''save notification: '' @ err_msg err), d')
              | Inr _ \<Rightarrow> (Inr (), d')))"

definition NotificationRepository_Update :: "Notification \<Rightarrow> ndb \<Rightarrow> (string + unit) \<times> ndb" where
  "NotificationRepository_Update n d =
     (case json_marshal (n_Variable n) of
        Inl err \<Rightarrow> (Inl (''marshal variables: '' @ err), d)
      | Inr varString \<Rightarrow>
          (let (r, d') = exec_sql (\<lambda>t.
                 (Inr (), t\<lparr>notifications :=
                    update_key id_col (n_ID n) (overwrite_row (stamp d) varString n) (notifications t)\<rparr>)) d
           in case r of
                Inl err \<Rightarrow> (Inl (''update notification: '' @ err_msg err), d')
              | Inr _ \<Rightarrow> (Inr (), d')))"

text \<open>\<open>WHERE id = $1 AND (...)\<close>: one row at most; a comparison with NULL is not true.\<close>

definition user_is :: "notif_row \<Rightarrow> string \<Rightarrow> bool" where
  "user_is r u \<longleftrightarrow> user_id_col r = Some u"

definition select_one :: "(notif_row \<Rightarrow> bool) \<Rightarrow> notif_row list \<Rightarrow> db_error + notif_row" where
  "select_one P t = (case find P t of None \<Rightarrow> Inl ErrNoRows | Some r \<Rightarrow> Inr r)"

definition NotificationRepository_Get :: "string \<Rightarrow> string \<Rightarrow> ndb \<Rightarrow> (string + Notification) \<times> ndb" where
  "NotificationRepository_Get ident userID d =
     (let (r, d') = exec_sql (\<lambda>t.
            (select_one (\<lambda>r. id_col r = ident \<and>
                (userID = system_user \<or> user_is r userID \<or> user_is r global_user)) (notifications t), t)) d
      in case r of
           Inl err \<Rightarrow>
             (if err = ErrNoRows then (Inl ''notification not found'', d')
              else (Inl (''get notification: '' @ err_msg err), d'))
         | Inr row \<Rightarrow>
             (case scan_row row of
                Inl (ScanFailed err) \<Rightarrow> (Inl (''get notification: '' @ err_msg err), d')
              | Inl (UnmarshalFailed err) \<Rightarrow> (Inl (''unmarshal variables: '' @ err), d')
              | Inr n \<Rightarrow> (Inr n, d')))"

text \<open>The polling statement of \<open>GetReadyJobs\<close>.\<close>

definition job_ready :: "gotime \<Rightarrow> notif_row \<Rightarrow> bool" where
  "job_ready now r \<longleftrightarrow> status_col r = Pending \<and> next_retry_at_col r \<le> now"

definition mark_processing :: "notif_row \<Rightarrow> notif_row" where
  "mark_processing r = r\<lparr>status_col := Processing\<rparr>"

definition ready_jobs_limit :: nat where
  "ready_jobs_limit = 50"

definition claim_ready_jobs :: "ndb \<Rightarrow> notif_row list \<Rightarrow> notif_row list \<times> notif_row list" where
  "claim_ready_jobs d =
     claim_rows id_col (job_ready (db_now d)) created_at_col mark_processing (row_locked d) (ret_rank d)
       ready_jobs_limit"

text \<open>The loop over \<open>rows\<close>: the first row that does not scan or decode aborts it.\<close>

fun scan_jobs :: "notif_row list \<Rightarrow> string + Notification list" where
  "scan_jobs [] = Inr []"
| "scan_jobs (r # rs) =
     (case scan_row r of
        Inl (ScanFailed err) \<Rightarrow> Inl (''scan ready job: '' @ err_msg err)
      | Inl (UnmarshalFailed err) \<Rightarrow> Inl (''unmarshal variables: '' @ err)
      | Inr n \<Rightarrow> (case scan_jobs rs of Inl err \<Rightarrow> Inl err | Inr ns \<Rightarrow> Inr (n # ns)))"

definition NotificationRepository_GetReadyJobs :: "ndb \<Rightarrow> (string + Notification list) \<times> ndb" where
  "NotificationRepository_GetReadyJobs d =
     (let (r, d1) = exec_sql (\<lambda>t.
            (let (rows, rest) = claim_ready_jobs d (notifications t)
             in (Inr rows, t\<lparr>notifications := rest\<rparr>))) d
      in case r of
           Inl err \<Rightarrow> (Inl (''query ready jobs: '' @ err_msg err), d1)
         | Inr rows \<Rightarrow>
             (case scan_jobs rows of
                Inl err \<Rightarrow> (Inl err, d1)
              | Inr ns \<Rightarrow>
                  (let (e, d2) = rows_err d1
                   in case e of
                        Inl err \<Rightarrow> (Inl (''iterate ready jobs: '' @ err_msg err), d2)
                      | Inr _ \<Rightarrow> (Inr ns, d2))))"

definition NotificationRepository_GetTotalCount :: "ndb \<Rightarrow> (string + int) \<times> ndb" where
  "NotificationRepository_GetTotalCount d =
     (let (r, d') = exec_sql (\<lambda>t. (Inr (int (length (notifications t))), t)) d
      in case r of
           Inl err \<Rightarrow> (Inl (''get total notifications count: '' @ err_msg err), d')
         | Inr count \<Rightarrow> (Inr count, d'))"

definition NotificationRepository :: "ndb NotificationRepo" where
  "NotificationRepository =
     \<lparr>nr_Save = NotificationRepository_Save, nr_Update = NotificationRepository_Update,
      nr_Get = NotificationRepository_Get, nr_GetReadyJobs = NotificationRepository_GetReadyJobs,
      nr_GetTotalCount = NotificationRepository_GetTotalCount\<rparr>"

section \<open>DLQRepository\<close>

definition DLQRepository_Save :: "Notification \<Rightarrow> ndb \<Rightarrow> (string + unit) \<times> ndb" where
  "DLQRepository_Save n d =
     (case json_marshal (n_Variable n) of
        Inl err \<Rightarrow> (Inl (''marshal variables: '' @ err), d)
      | Inr varString \<Rightarrow>
          (let userID = (if n_UserID n = '''' then global_user else n_UserID n);
               (r, d') = exec_sql (\<lambda>t.
                  (let (r, rows) = insert_row id_col (row_of_notification (stamp d) varString userID n)
                                     (dlq_notifications t)
                   in (r, t\<lparr>dlq_notifications := rows\<rparr>))) d
           in case r of
                Inl err \<Rightarrow> (Inl (''save dlq notification: '' @ err_msg err), d')
              | Inr _ \<Rightarrow> (Inr (), d')))"

definition DLQRepository_Get :: "string \<Rightarrow> string \<Rightarrow> ndb \<Rightarrow> (string + Notification) \<times> ndb" where
  "DLQRepository_Get ident userID d =
     (let (r, d') = exec_sql (\<lambda>t.
            (select_one (\<lambda>r. id_col r = ident \<and> (user_is r userID \<or> user_is r global_user))
               (dlq_notifications t), t)) d
      in case r of
           Inl err \<Rightarrow>
             (if err = ErrNoRows then (Inl ''dlq notification not found'', d')
              else (Inl (''get dlq notification: '' @ err_msg err), d'))
         | Inr row \<Rightarrow>
             (case scan_row row of
                Inl (ScanFailed err) \<Rightarrow> (Inl (''get dlq notification: '' @ err_msg err), d')
              | Inl (UnmarshalFailed err) \<Rightarrow> (Inl (''unmarshal variables: '' @ err), d')
              | Inr n \<Rightarrow> (Inr n, d')))"

definition DLQRepository :: "ndb DLQRepo" where
  "DLQRepository = \<lparr>dr_Save = DLQRepository_Save, dr_Get = DLQRepository_Get\<rparr>"

section \<open>InMemoryIdempotencyRepository\<close>

text \<open>\<open>any\<close> values are of a type \<open>'v\<close> that holds the constant \<open>true\<close>.\<close>

record 'v InMemoryIdempotencyRepository =
  keys :: "string \<Rightarrow> 'v option"

definition NewInMemoryIdempotencyRepository :: "'v InMemoryIdempotencyRepository" where
  "NewInMemoryIdempotencyRepository = \<lparr>keys = (\<lambda>_. None)\<rparr>"

definition Idempotency_Exisits :: "string \<Rightarrow> 'v InMemoryIdempotencyRepository \<Rightarrow> string + 'v" where
  "Idempotency_Exisits key r = (case keys r key of None \<Rightarrow> Inl ''not found'' | Some response \<Rightarrow> Inr response)"

definition Idempotency_Save :: "'v \<Rightarrow> string \<Rightarrow> 'v InMemoryIdempotencyRepository \<Rightarrow> 'v InMemoryIdempotencyRepository" where
  "Idempotency_Save true_value key r = r\<lparr>keys := (keys r)(key \<mapsto> true_value)\<rparr>"

definition Idempotency_Update ::
  "string \<Rightarrow> 'v \<Rightarrow> 'v InMemoryIdempotencyRepository \<Rightarrow> 'v InMemoryIdempotencyRepository" where
  "Idempotency_Update key v r = r\<lparr>keys := (keys r)(key \<mapsto> v)\<rparr>"

lemma notification_repo_ops [simp]:
  "nr_Save NotificationRepository = NotificationRepository_Save"
  "nr_Update NotificationRepository = NotificationRepository_Update"
  "nr_Get NotificationRepository = NotificationRepository_Get"
  "nr_GetReadyJobs NotificationRepository = NotificationRepository_GetReadyJobs"
  "nr_GetTotalCount NotificationRepository = NotificationRepository_GetTotalCount"
  "dr_Save DLQRepository = DLQRepository_Save"
  "dr_Get DLQRepository = DLQRepository_Get"
  by (simp_all add: NotificationRepository_def DLQRepository_def)

section \<open>The contract of the repositories as the notification system uses them\<close>

text \<open>
  The abstract view of a stored notification: its status, its retry count and its next retry time.
  \<open>written n\<close> is the view an update with \<open>n\<close> leaves.
\<close>

record job_view =
  v_status :: NotificationStatus
  v_retries :: int
  v_next :: gotime

definition written :: "(gotime \<Rightarrow> gotime) \<Rightarrow> Notification \<Rightarrow> job_view" where
  "written st n = \<lparr>v_status = n_Status n, v_retries = n_RetryCount n, v_next = st (n_NextRetryAt n)\<rparr>"

definition set_view :: "(gotime \<Rightarrow> gotime) \<Rightarrow> Notification \<Rightarrow> (string \<Rightarrow> job_view option) \<Rightarrow> string \<Rightarrow> job_view option" where
  "set_view st n v = v(n_ID n := map_option (\<lambda>_. written st n) (v (n_ID n)))"

lemma set_view_other [simp]: "k \<noteq> n_ID n \<Longrightarrow> set_view st n v k = v k"
  by (simp add: set_view_def)

lemma set_view_same: "set_view st n v (n_ID n) = map_option (\<lambda>_. written st n) (v (n_ID n))"
  by (simp add: set_view_def)

lemma set_view_dom: "dom (set_view st n v) = dom v"
  by (auto simp: set_view_def dom_def)

locale notification_repo =
  fixes R :: "'s NotificationRepo"
    and D :: "'s DLQRepo"
    and view :: "'s \<Rightarrow> string \<Rightarrow> job_view option"
    and dead :: "'s \<Rightarrow> string set"
    and st :: "'s \<Rightarrow> gotime \<Rightarrow> gotime"
    and reliable :: "'s \<Rightarrow> bool"
  assumes update_view: "nr_Update R n s = (r, s') \<Longrightarrow>
          view s' = set_view (st s) n (view s) \<or> (r \<noteq> Inr () \<and> view s' = view s)"
    and update_dead: "dead (snd (nr_Update R n s)) = dead s"
    and update_st: "st (snd (nr_Update R n s)) = st s"
    and update_reliable: "reliable s \<Longrightarrow> fst (nr_Update R n s) = Inr () \<and> reliable (snd (nr_Update R n s))"
    and save_view: "nr_Save R n s = (r, s') \<Longrightarrow>
          (view s (n_ID n) = None \<and> view s' = (view s)(n_ID n \<mapsto> written (st s) n)) \<or> (r \<noteq> Inr () \<and> view s' = view s)"
    and save_reliable: "reliable s \<Longrightarrow> reliable (snd (nr_Save R n s)) \<and>
          (fst (nr_Save R n s) = Inr () \<longleftrightarrow> view s (n_ID n) = None)"
    and dlq_save_view: "view (snd (dr_Save D n s)) = view s"
    and dlq_save_dead: "dr_Save D n s = (r, s') \<Longrightarrow> dead s' = insert (n_ID n) (dead s) \<or> (r \<noteq> Inr () \<and> dead s' = dead s)"
    and dlq_save_reliable: "reliable s \<Longrightarrow> reliable (snd (dr_Save D n s)) \<and> dead (snd (dr_Save D n s)) = insert (n_ID n) (dead s)"
begin

lemma update_known:
  "reliable s \<Longrightarrow> view s (n_ID n) \<noteq> None \<Longrightarrow>
   view (snd (nr_Update R n s)) = (view s)(n_ID n \<mapsto> written (st s) n)"
  using update_view [of n s "fst (nr_Update R n s)" "snd (nr_Update R n s)"] update_reliable [of s n]
  by (auto simp: set_view_def prod_eq_iff)

lemma update_same_dom: "dom (view (snd (nr_Update R n s))) = dom (view s)"
  by (metis update_view set_view_dom prod.collapse)

lemma update_other: "k \<noteq> n_ID n \<Longrightarrow> view (snd (nr_Update R n s)) k = view s k"
  by (metis update_view set_view_other prod.collapse)

end

section \<open>The PostgreSQL repositories meet the contract\<close>

definition row_view :: "notif_row \<Rightarrow> job_view" where
  "row_view r = \<lparr>v_status = status_col r, v_retries = retry_count_col r, v_next = next_retry_at_col r\<rparr>"

definition pg_view :: "ndb \<Rightarrow> string \<Rightarrow> job_view option" where
  "pg_view d k = map_option row_view (row_of id_col k (notifications (tables d)))"

definition pg_dead :: "ndb \<Rightarrow> string set" where
  "pg_dead d = id_col ` set (dlq_notifications (tables d))"

lemma id_overwrite [simp]: "id_col (overwrite_row st v n r) = id_col r"
  by (simp add: overwrite_row_def)

lemma id_row_of_notification [simp]: "id_col (row_of_notification st v u n) = n_ID n"
  by (simp add: row_of_notification_def)

lemma row_view_overwrite [simp]: "row_view (overwrite_row st v n r) = written st n"
  by (simp add: row_view_def overwrite_row_def written_def)

lemma row_view_row_of [simp]: "row_view (row_of_notification st v u n) = written st n"
  by (simp add: row_view_def row_of_notification_def written_def)

lemma Update_exec:
  "NotificationRepository_Update n d =
     (let (r, d') = exec_sql (\<lambda>t. (Inr (), t\<lparr>notifications :=
            update_key id_col (n_ID n) (overwrite_row (stamp d) (JsonVars (n_Variable n)) n) (notifications t)\<rparr>)) d
      in (case r of Inl err \<Rightarrow> Inl (''update notification: '' @ err_msg err) | Inr _ \<Rightarrow> Inr (), d'))"
  by (auto simp: NotificationRepository_Update_def json_marshal_def split: prod.splits sum.splits)

lemma Save_exec:
  "NotificationRepository_Save n d =
     (let (r, d') = exec_sql (\<lambda>t.
            (let (r, rows) = insert_row id_col
                   (row_of_notification (stamp d) (JsonVars (n_Variable n)) (norm_user (n_UserID n)) n) (notifications t)
             in (r, t\<lparr>notifications := rows\<rparr>))) d
      in (case r of Inl err \<Rightarrow> Inl (''save notification: '' @ err_msg err) | Inr _ \<Rightarrow> Inr (), d'))"
  by (auto simp: NotificationRepository_Save_def json_marshal_def norm_user_def split: prod.splits sum.splits)

lemma DLQSave_exec:
  "DLQRepository_Save n d =
     (let (r, d') = exec_sql (\<lambda>t.
            (let (r, rows) = insert_row id_col
                   (row_of_notification (stamp d) (JsonVars (n_Variable n)) (norm_user (n_UserID n)) n) (dlq_notifications t)
             in (r, t\<lparr>dlq_notifications := rows\<rparr>))) d
      in (case r of Inl err \<Rightarrow> Inl (''save dlq notification: '' @ err_msg err) | Inr _ \<Rightarrow> Inr (), d'))"
  by (auto simp: DLQRepository_Save_def json_marshal_def norm_user_def split: prod.splits sum.splits)

lemma pg_view_update:
  "notifications (tables d') = update_key id_col (n_ID n) (overwrite_row st v n) (notifications (tables d)) \<Longrightarrow>
   pg_view d' = set_view st n (pg_view d)"
  by (auto simp: fun_eq_iff pg_view_def set_view_def row_of_update_key option.map_comp comp_def)

lemma pg_view_insert:
  "row_of id_col (n_ID n) (notifications (tables d)) = None \<Longrightarrow>
   notifications (tables d') = notifications (tables d) @ [row_of_notification st v u n] \<Longrightarrow>
   pg_view d (n_ID n) = None \<and> pg_view d' = (pg_view d)(n_ID n \<mapsto> written st n)"
  by (auto simp: fun_eq_iff pg_view_def row_of_append row_of_def [of _ _ "[_]"] split: option.splits)

lemma pg_view_same: "notifications (tables d') = notifications (tables d) \<Longrightarrow> pg_view d' = pg_view d"
  by (simp add: pg_view_def [abs_def])

lemma pg_dead_same: "dlq_notifications (tables d') = dlq_notifications (tables d) \<Longrightarrow> pg_dead d' = pg_dead d"
  by (simp add: pg_dead_def)

interpretation pg_notifications: notification_repo NotificationRepository DLQRepository
  pg_view pg_dead stamp no_faults
proof (unfold_locales, goal_cases)
  case (1 n s r s')
  let ?stmt = "\<lambda>t. (Inr (), t\<lparr>notifications :=
        update_key id_col (n_ID n) (overwrite_row (stamp s) (JsonVars (n_Variable n)) n) (notifications t)\<rparr>)"
  show ?case using exec_sql_shape [of ?stmt s] 1
    by (elim disjE exE) (auto simp: Update_exec intro: pg_view_same pg_view_update)
next
  case (2 n s)
  then show ?case
    by (auto simp: Update_exec pg_dead_def dest!: exec_sql_tables split: prod.splits)
next
  case (3 n s)
  then show ?case by (auto simp: Update_exec dest!: exec_sql_frameD split: prod.splits)
next
  case (4 s n)
  then show ?case by (simp add: Update_exec no_faults_def exec_sql_no_faults)
next
  case (5 n s r s')
  let ?stmt = "\<lambda>t. (let (r, rows) = insert_row id_col
        (row_of_notification (stamp s) (JsonVars (n_Variable n)) (norm_user (n_UserID n)) n) (notifications t)
      in (r, t\<lparr>notifications := rows\<rparr>))"
  show ?case
  proof (cases rule: insert_row_cases [of id_col
        "row_of_notification (stamp s) (JsonVars (n_Variable n)) (norm_user (n_UserID n)) n" "notifications (tables s)"])
    case inserted
    then have new: "pg_view s (n_ID n) = None" by (simp add: pg_view_def)
    have ins: "pg_view (s\<lparr>tables := (tables s)\<lparr>notifications := notifications (tables s) @
          [row_of_notification (stamp s) (JsonVars (n_Variable n)) (norm_user (n_UserID n)) n]\<rparr>, faults := fs\<rparr>)
        = (pg_view s)(n_ID n \<mapsto> written (stamp s) n)" for fs
      using inserted by (intro pg_view_insert [THEN conjunct2]) simp_all
    show ?thesis using exec_sql_shape [of ?stmt s] 5
      by (elim disjE exE) (auto simp: Save_exec inserted ins new intro: pg_view_same)
  next
    case duplicate
    with 5 show ?thesis using exec_sql_shape [of ?stmt s]
      by (elim disjE exE) (auto simp: Save_exec intro!: pg_view_same)
  qed
next
  case (6 s n)
  then show ?case
    by (cases rule: insert_row_cases [of id_col
          "row_of_notification (stamp s) (JsonVars (n_Variable n)) (norm_user (n_UserID n)) n" "notifications (tables s)"])
       (auto simp: Save_exec no_faults_def exec_sql_no_faults pg_view_def)
next
  case (7 n s)
  then show ?case
    by (auto simp: DLQSave_exec pg_view_def [abs_def] Let_def dest!: exec_sql_tables split: prod.splits)
next
  case (8 n s r s')
  let ?stmt = "\<lambda>t. (let (r, rows) = insert_row id_col
        (row_of_notification (stamp s) (JsonVars (n_Variable n)) (norm_user (n_UserID n)) n) (dlq_notifications t)
      in (r, t\<lparr>dlq_notifications := rows\<rparr>))"
  show ?case
    by (cases rule: insert_row_cases [of id_col
          "row_of_notification (stamp s) (JsonVars (n_Variable n)) (norm_user (n_UserID n)) n" "dlq_notifications (tables s)"];
        insert exec_sql_shape [of ?stmt s] 8; elim disjE exE)
       (auto simp: DLQSave_exec pg_dead_def)
next
  case (9 s n)
  then show ?case
    by (cases rule: insert_row_cases [of id_col
          "row_of_notification (stamp s) (JsonVars (n_Variable n)) (norm_user (n_UserID n)) n" "dlq_notifications (tables s)"])
       (auto simp: DLQSave_exec no_faults_def exec_sql_no_faults pg_dead_def row_of_None_iff)
qed

section \<open>The notifications table as a claimable queue\<close>

interpretation jobs: claim_queue id_col job_ready created_at_col mark_processing
  by unfold_locales (simp_all add: mark_processing_def job_ready_def)

lemma scan_row_Inr:
  "scan_row r = Inr n \<Longrightarrow> n_ID n = id_col r \<and> n_Status n = status_col r \<and> n_RetryCount n = retry_count_col r \<and>
     n_NextRetryAt n = next_retry_at_col r \<and> user_id_col r = Some (n_UserID n) \<and> n_Type n = type_col r \<and>
     n_CreatedAt n = created_at_col r"
  by (auto simp: scan_row_def split: option.splits sum.splits)

lemma scan_jobs_Inr:
  "scan_jobs rows = Inr ns \<Longrightarrow> list_all2 (\<lambda>r n. scan_row r = Inr n) rows ns"
  by (induction rows arbitrary: ns) (auto split: sum.splits scan_error.splits)

lemma scan_jobs_map:
  assumes "scan_jobs rows = Inr ns"
  shows "map n_ID ns = map id_col rows" and "map n_Status ns = map status_col rows"
  using scan_jobs_Inr [OF assms] by (induction rows ns rule: list_all2_induct) (auto dest: scan_row_Inr)

abbreviation claimed_by :: "ndb \<Rightarrow> string list" where
  "claimed_by d \<equiv> claim_keys id_col (job_ready (db_now d)) created_at_col (row_locked d) ready_jobs_limit
     (notifications (tables d))"

text \<open>Every run of \<open>GetReadyJobs\<close> either leaves the table as it is or performs the whole claim.\<close>

lemma GetReadyJobs_tables:
  assumes "NotificationRepository_GetReadyJobs d = (r, d')"
  shows "notifications (tables d') = notifications (tables d) \<and> r \<noteq> Inr ns
     \<or> notifications (tables d') = snd (claim_ready_jobs d (notifications (tables d)))"
  using assms
  by (auto simp: NotificationRepository_GetReadyJobs_def rows_err_def split: prod.splits sum.splits
      dest!: exec_sql_tables exec_sql_ok)

lemma GetReadyJobs_Inr:
  assumes "NotificationRepository_GetReadyJobs d = (Inr ns, d')"
  shows "scan_jobs (fst (claim_ready_jobs d (notifications (tables d)))) = Inr ns
     \<and> notifications (tables d') = snd (claim_ready_jobs d (notifications (tables d)))"
  using assms
  by (auto simp: NotificationRepository_GetReadyJobs_def rows_err_def split: prod.splits sum.splits
      dest!: exec_sql_ok)

lemma GetReadyJobs_ids:
  assumes "keyed id_col (notifications (tables d))" and "NotificationRepository_GetReadyJobs d = (Inr ns, d')"
  shows "set (map n_ID ns) = set (claimed_by d)" and "distinct (map n_ID ns)" and "length ns \<le> ready_jobs_limit"
    and "\<forall>n \<in> set ns. n_Status n = Processing"
proof -
  note sc = scan_jobs_map [OF GetReadyJobs_Inr [OF assms(2), THEN conjunct1]]
  show "set (map n_ID ns) = set (claimed_by d)" "distinct (map n_ID ns)"
    unfolding sc(1) claim_ready_jobs_def
    using jobs.claim_result_keys [OF assms(1)] jobs.claim_result_distinct [OF assms(1)] by blast+
  show "length ns \<le> ready_jobs_limit"
    using jobs.claim_result_length [OF assms(1)] sc(1) unfolding claim_ready_jobs_def by (metis length_map)
  have "status_col r = Processing" if "r \<in> set (fst (claim_ready_jobs d (notifications (tables d))))" for r
    using that jobs.claimed_iff [OF assms(1)] by (auto simp: claim_ready_jobs_def mark_processing_def)
  then have "set (map n_Status ns) \<subseteq> {Processing}" unfolding sc(2) by auto
  then show "\<forall>n \<in> set ns. n_Status n = Processing" by auto
qed

text \<open>What a successful poll hands out was ready and unlocked in the table, and is PROCESSING afterwards.\<close>

lemma GetReadyJobs_takes:
  assumes "keyed id_col (notifications (tables d))" and "NotificationRepository_GetReadyJobs d = (Inr ns, d')"
    and "k \<in> set (map n_ID ns)"
  shows "\<exists>r \<in> set (notifications (tables d)). id_col r = k \<and> job_ready (db_now d) r \<and> \<not> row_locked d k"
  using assms(3) unfolding GetReadyJobs_ids(1) [OF assms(1,2)] by (rule jobs.claim_keys_subset)


lemma GetReadyJobs_marks:
  assumes "keyed id_col (notifications (tables d))" and g: "NotificationRepository_GetReadyJobs d = (Inr ns, d')"
    and "k \<in> set (map n_ID ns)"
  shows "map_option v_status (pg_view d' k) = Some Processing"
proof -
  have c: "k \<in> set (claimed_by d)" using assms(3) GetReadyJobs_ids(1) [OF assms(1,2)] by simp
  obtain r where "r \<in> set (notifications (tables d))" "id_col r = k"
    using GetReadyJobs_takes [OF assms] by blast
  then have "row_of id_col k (notifications (tables d)) = Some r" using row_of_keyed [OF assms(1)] by blast
  then show ?thesis
    using c GetReadyJobs_Inr [OF g] jobs.claim_row_of
    by (simp add: pg_view_def claim_ready_jobs_def row_view_def mark_processing_def)
qed

lemma claimed_never_again:
  assumes "keyed id_col (notifications (tables d))"
    and "notifications (tables d1) = snd (claim_ready_jobs d (notifications (tables d)))"
    and "NotificationRepository_GetReadyJobs d1 = (Inr ns, d2)"
  shows "set (claimed_by d) \<inter> set (map n_ID ns) = {}"
proof -
  have "keyed id_col (notifications (tables d1))"
    unfolding assms(2) claim_ready_jobs_def using assms(1) by (rule jobs.claim_keyed)
  then have "set (map n_ID ns) = set (claimed_by d1)" using assms(3) by (rule GetReadyJobs_ids(1))
  then show ?thesis
    unfolding assms(2) claim_ready_jobs_def using jobs.claim_twice_disjoint [OF assms(1)] by simp
qed

text \<open>A claim that took effect leaves its rows PROCESSING, and no later poll returns them.\<close>

lemma claim_leaves_processing:
  assumes "keyed id_col (notifications (tables d))"
    and ran: "notifications (tables d1) = snd (claim_ready_jobs d (notifications (tables d)))"
    and k: "k \<in> set (claimed_by d)"
  shows "map_option v_status (pg_view d1 k) = Some Processing \<and>
     (\<forall>d1' ns d2. notifications (tables d1') = notifications (tables d1) \<longrightarrow>
        NotificationRepository_GetReadyJobs d1' = (Inr ns, d2) \<longrightarrow> k \<notin> set (map n_ID ns))"
proof -
  obtain r where r: "r \<in> set (notifications (tables d))" "id_col r = k"
    using jobs.claim_keys_subset [OF k] by blast
  then have "row_of id_col k (notifications (tables d)) = Some r"
    using row_of_keyed [OF assms(1)] by blast
  then have "map_option v_status (pg_view d1 k) = Some Processing"
    using k jobs.claim_row_of ran
    by (simp add: pg_view_def claim_ready_jobs_def row_view_def mark_processing_def)
  moreover have "k \<notin> set (map n_ID ns)"
    if "notifications (tables d1') = notifications (tables d1)"
      and "NotificationRepository_GetReadyJobs d1' = (Inr ns, d2)" for d1' ns d2
    using claimed_never_again [OF assms(1) _ that(2)] that(1) ran k by auto
  ultimately show ?thesis by blast
qed


definition job_row :: "string \<Rightarrow> gotime \<Rightarrow> NotificationStatus \<Rightarrow> string option \<Rightarrow> notif_row" where
  "job_row ident created status err =
     \<lparr>id_col = ident, recipient_col = ''a@b.c'', template_col = ''MFA'', variable_col = JsonVars [],
      retry_count_col = 0, created_at_col = created, type_col = Email, status_col = status,
      next_retry_at_col = created, user_id_col = Some ''u1'', error_message_col = err\<rparr>"

definition jobs_db :: "gotime \<Rightarrow> notif_row list \<Rightarrow> ndb" where
  "jobs_db now rows = \<lparr>tables = \<lparr>notifications = rows, dlq_notifications = [], templates = []\<rparr>,
     faults = [], db_now = now, row_locked = (\<lambda>_. False), ret_rank = (\<lambda>_. 0), stamp = id\<rparr>"

lemmas jobs_exec = jobs_db_def job_row_def NotificationRepository_GetReadyJobs_def exec_sql_no_faults
  claim_ready_jobs_def claim_rows_def claim_keys_def job_ready_def mark_processing_def ready_jobs_limit_def
  update_where_def scan_row_def rows_err_def Let_def

definition two_jobs :: ndb where
  "two_jobs = jobs_db 9 [job_row ''b'' 2 Pending (Some []), job_row ''a'' 1 Pending (Some [])]"


text \<open>In particular two polls in a row never share a notification.\<close>

lemma polls_disjoint:
  assumes "keyed id_col (notifications (tables d))"
    and "NotificationRepository_GetReadyJobs d = (Inr ns1, d1)"
    and "notifications (tables d1') = notifications (tables d1)"
    and "NotificationRepository_GetReadyJobs d1' = (Inr ns2, d2)"
  shows "set (map n_ID ns1) \<inter> set (map n_ID ns2) = {}"
  using claimed_never_again [OF assms(1) _ assms(4)] GetReadyJobs_Inr [OF assms(2)]
    GetReadyJobs_ids(1) [OF assms(1,2)] assms(3) by simp

text \<open>
  Two pollers that run at the same time do not share a notification either: the second one skips the
  rows the first has locked, whatever version of the table it reads.
\<close>

lemma ready_jobs_concurrent:
  assumes "keyed id_col (notifications (tables d1))" and "keyed id_col (notifications (tables d2))"
    and "NotificationRepository_GetReadyJobs d1 = (Inr ns1, d1')"
    and "\<forall>k \<in> set (claimed_by d1). row_locked d2 k"
    and "NotificationRepository_GetReadyJobs d2 = (Inr ns2, d2')"
  shows "set (map n_ID ns1) \<inter> set (map n_ID ns2) = {}"
  unfolding GetReadyJobs_ids(1) [OF assms(1,3)] GetReadyJobs_ids(1) [OF assms(2,5)]
  using assms(4) by (rule jobs.claim_concurrent_disjoint)

lemma ready_jobs_concurrent_witness:
  "\<exists>ns1 d1' ns2 d2'. NotificationRepository_GetReadyJobs (two_jobs\<lparr>db_now := 1\<rparr>) = (Inr ns1, d1')
     \<and> NotificationRepository_GetReadyJobs (two_jobs\<lparr>row_locked := (\<lambda>k. k = ''a'')\<rparr>) = (Inr ns2, d2')
     \<and> map n_ID ns1 = [''a''] \<and> map n_ID ns2 = [''b''] \<and> set (map n_ID ns1) \<inter> set (map n_ID ns2) = {}"
proof -
  let ?d1 = "two_jobs\<lparr>db_now := 1\<rparr>" and ?d2 = "two_jobs\<lparr>row_locked := (\<lambda>k. k = ''a'')\<rparr>"
  have k: "keyed id_col (notifications (tables ?d1))" "keyed id_col (notifications (tables ?d2))"
    by (simp_all add: two_jobs_def jobs_exec keyed_def)
  obtain ns1 d1 where r1: "NotificationRepository_GetReadyJobs ?d1 = (Inr ns1, d1)" and a: "map n_ID ns1 = [''a'']"
    by (simp add: two_jobs_def jobs_exec)
  obtain ns2 d2 where r2: "NotificationRepository_GetReadyJobs ?d2 = (Inr ns2, d2)" and b: "map n_ID ns2 = [''b'']"
    by (simp add: two_jobs_def jobs_exec)
  have "\<forall>k \<in> set (claimed_by ?d1). row_locked ?d2 k" by (simp add: two_jobs_def jobs_exec)
  from ready_jobs_concurrent [OF k r1 this r2] r1 r2 a b show ?thesis
    by (intro exI [of _ ns1] exI [of _ d1] exI [of _ ns2] exI [of _ d2]) simp
qed

text \<open>
  C25. What a successful poll returns: at most 50 notifications, each once, all taken from rows that were
  ready and unlocked, all in status PROCESSING in the copy and in the table; and the oldest first in the
  sense that a ready, unlocked notification that was passed over was not created before any that was taken.
\<close>

theorem ready_jobs_functional:
  assumes k: "keyed id_col (notifications (tables d))" and g: "NotificationRepository_GetReadyJobs d = (Inr ns, d')"
  shows "length ns \<le> 50 \<and> distinct (map n_ID ns)
     \<and> (\<forall>n \<in> set ns. n_Status n = Processing \<and> map_option v_status (pg_view d' (n_ID n)) = Some Processing)
     \<and> (\<forall>n \<in> set ns. \<exists>r \<in> set (notifications (tables d)).
          id_col r = n_ID n \<and> job_ready (db_now d) r \<and> \<not> row_locked d (n_ID n))
     \<and> (\<forall>r \<in> set (notifications (tables d)). \<forall>r' \<in> set (notifications (tables d)).
          id_col r \<in> set (map n_ID ns) \<longrightarrow> job_ready (db_now d) r' \<longrightarrow> \<not> row_locked d (id_col r') \<longrightarrow>
          id_col r' \<notin> set (map n_ID ns) \<longrightarrow> created_at_col r \<le> created_at_col r')"
proof (intro conjI ballI impI)
  show "length ns \<le> 50" "distinct (map n_ID ns)"
    using GetReadyJobs_ids(2,3) [OF k g] by (simp_all add: ready_jobs_limit_def)
  fix n
  assume n: "n \<in> set ns"
  then show "n_Status n = Processing" using GetReadyJobs_ids(4) [OF k g] by blast
  have id: "n_ID n \<in> set (map n_ID ns)" using n by simp
  show "map_option v_status (pg_view d' (n_ID n)) = Some Processing" by (rule GetReadyJobs_marks [OF k g id])
  show "\<exists>r \<in> set (notifications (tables d)). id_col r = n_ID n \<and> job_ready (db_now d) r \<and> \<not> row_locked d (n_ID n)"
    by (rule GetReadyJobs_takes [OF k g id])
next
  fix r r'
  assume "r \<in> set (notifications (tables d))" "r' \<in> set (notifications (tables d))"
    "id_col r \<in> set (map n_ID ns)" "job_ready (db_now d) r'" "\<not> row_locked d (id_col r')"
    "id_col r' \<notin> set (map n_ID ns)"
  then show "created_at_col r \<le> created_at_col r'"
    unfolding GetReadyJobs_ids(1) [OF k g] using jobs.claim_oldest_first [OF k] by blast
qed

theorem ready_jobs_functional_witness:
  "\<exists>ns d'. NotificationRepository_GetReadyJobs two_jobs = (Inr ns, d')
     \<and> length ns \<le> 50 \<and> map n_ID ns = [''b'', ''a''] \<and> (\<exists>n. n \<in> set ns \<and> n_Status n = Processing)"
proof -
  have k: "keyed id_col (notifications (tables two_jobs))" by (simp add: two_jobs_def jobs_exec keyed_def)
  obtain ns d' where r: "NotificationRepository_GetReadyJobs two_jobs = (Inr ns, d')"
    and ids: "map n_ID ns = [''b'', ''a'']" by (simp add: two_jobs_def jobs_exec)
  then obtain n where "n \<in> set ns" by (cases ns) auto
  have "length ns \<le> 50" "n_Status n = Processing"
    using ready_jobs_functional [OF k r] \<open>n \<in> set ns\<close> by auto
  with r ids \<open>n \<in> set ns\<close> show ?thesis by (intro exI [of _ ns] exI [of _ d']) auto
qed

section \<open>Failures after the claim, isolation and round trips\<close>

text \<open>
  A poll whose statement ran but whose rows do not scan (a row from before migration 4 has a NULL
  \<open>error_message\<close>) returns an error after the claim is committed: every claimed notification is
  left in PROCESSING, and no later poll returns any of them.
\<close>

lemma ready_jobs_scan_failure_strands:
  assumes "keyed id_col (notifications (tables d))" and "no_faults d"
    and "NotificationRepository_GetReadyJobs d = (Inl err, d1)" and "k \<in> set (claimed_by d)"
  shows "map_option v_status (pg_view d1 k) = Some Processing \<and>
     (\<forall>d1' ns d2. notifications (tables d1') = notifications (tables d1) \<longrightarrow>
        NotificationRepository_GetReadyJobs d1' = (Inr ns, d2) \<longrightarrow> k \<notin> set (map n_ID ns))"
proof -
  have ran: "notifications (tables d1) = snd (claim_ready_jobs d (notifications (tables d)))"
    using assms(2,3)
    by (auto simp: NotificationRepository_GetReadyJobs_def no_faults_def exec_sql_no_faults rows_err_def
        split: prod.splits sum.splits)
  show ?thesis using assms(1) ran assms(4) by (rule claim_leaves_processing)
qed

definition legacy_jobs :: ndb where
  "legacy_jobs = jobs_db 9 [job_row ''b'' 2 Pending None, job_row ''a'' 1 Pending (Some [])]"

lemma ready_jobs_scan_failure_strands_witness:
  "\<exists>err d1. NotificationRepository_GetReadyJobs legacy_jobs = (Inl err, d1)
     \<and> map_option v_status (pg_view d1 ''a'') = Some Processing"
proof -
  obtain err d1 where g: "NotificationRepository_GetReadyJobs legacy_jobs = (Inl err, d1)"
    by (simp add: legacy_jobs_def jobs_exec)
  have "keyed id_col (notifications (tables legacy_jobs))" "no_faults legacy_jobs"
    "''a'' \<in> set (claimed_by legacy_jobs)"
    by (simp_all add: legacy_jobs_def jobs_exec keyed_def no_faults_def)
  from ready_jobs_scan_failure_strands [OF this(1,2) g this(3)] g show ?thesis by blast
qed

text \<open>
  Tenant isolation of reads: what \<open>Get\<close> returns is a row with the requested id that names the caller or
  \<open>global\<close> as its owner; only the caller named \<open>system\<close> sees the notifications of others.
\<close>

lemma NotificationRepository_Get_row:
  assumes "NotificationRepository_Get ident u d = (Inr n, d')"
  shows "\<exists>r \<in> set (notifications (tables d)). scan_row r = Inr n \<and> id_col r = ident
     \<and> (user_is r u \<or> user_is r global_user \<or> u = system_user)"
  using assms
  by (auto simp: NotificationRepository_Get_def select_one_def
      split: prod.splits sum.splits if_splits option.splits scan_error.splits
      dest!: exec_sql_ok find_Some_D)

lemma DLQRepository_Get_row:
  assumes "DLQRepository_Get ident u d = (Inr n, d')"
  shows "\<exists>r \<in> set (dlq_notifications (tables d)). scan_row r = Inr n \<and> id_col r = ident
     \<and> (user_is r u \<or> user_is r global_user)"
  using assms
  by (auto simp: DLQRepository_Get_def select_one_def
      split: prod.splits sum.splits if_splits option.splits scan_error.splits
      dest!: exec_sql_ok find_Some_D)

lemma Get_notifications: "NotificationRepository_Get k u d = (r, d') \<Longrightarrow> tables d' = tables d"
  by (auto simp: NotificationRepository_Get_def split: prod.splits sum.splits if_splits scan_error.splits
      dest!: view_of_read)

text \<open>
  C39. Saving a notification and reading it back as its owner gives it back, with the times at column
  precision and an empty owner replaced by \<open>global\<close>; the save succeeds exactly when the id is new.
\<close>

theorem notification_save_get:
  assumes "NotificationRepository_Save n d = (Inr (), d1)" and "no_faults d1"
  shows "fst (NotificationRepository_Get (n_ID n) (n_UserID n) d1) =
     Inr (n\<lparr>n_CreatedAt := stamp d (n_CreatedAt n), n_NextRetryAt := stamp d (n_NextRetryAt n),
            n_UserID := norm_user (n_UserID n)\<rparr>)
   \<and> pg_view d (n_ID n) = None"
proof -
  let ?row = "row_of_notification (stamp d) (JsonVars (n_Variable n)) (norm_user (n_UserID n)) n"
  have ins: "insert_row id_col ?row (notifications (tables d)) = (Inr (), notifications (tables d1))"
    using assms(1) by (auto simp: Save_exec split: prod.splits sum.splits dest!: exec_sql_ok)
  have new: "row_of id_col (n_ID n) (notifications (tables d)) = None"
    and t1: "notifications (tables d1) = notifications (tables d) @ [?row]"
    using ins by (cases rule: insert_row_cases [of id_col ?row "notifications (tables d)"]; simp)+
  have "find (\<lambda>r. id_col r = n_ID n \<and> P r) (notifications (tables d)) = None" for P
    using new by (force simp: row_of_None_iff find_None_iff_all)
  moreover have "user_is ?row (n_UserID n) \<or> user_is ?row global_user"
    by (simp add: user_is_def row_of_notification_def norm_user_def)
  ultimately have "select_one (\<lambda>r. id_col r = n_ID n \<and>
       (n_UserID n = system_user \<or> user_is r (n_UserID n) \<or> user_is r global_user)) (notifications (tables d1)) = Inr ?row"
    by (auto simp: select_one_def t1 find_append_case)
  moreover have "scan_row ?row = Inr (n\<lparr>n_CreatedAt := stamp d (n_CreatedAt n),
       n_NextRetryAt := stamp d (n_NextRetryAt n), n_UserID := norm_user (n_UserID n)\<rparr>)"
    by (cases n) (simp add: scan_row_def row_of_notification_def)
  ultimately show ?thesis using assms(2) new
    by (simp add: NotificationRepository_Get_def exec_sql_no_faults no_faults_def pg_view_def)
qed

definition sample_notification :: Notification where
  "sample_notification = \<lparr>n_ID = ''n1'', n_Recipient = ''a@b.c'', n_Template = ''MFA'', n_Variable = [(''code'', ''7'')],
     n_RetryCount = 0, n_CreatedAt = 5, n_Type = Email, n_Status = Pending, n_NextRetryAt = 5, n_UserID = [],
     n_ErrorMessage = []\<rparr>"

theorem notification_save_get_witness:
  "\<exists>d1. NotificationRepository_Save sample_notification two_jobs = (Inr (), d1)
     \<and> fst (NotificationRepository_Get ''n1'' [] d1) = Inr (sample_notification\<lparr>n_UserID := ''global''\<rparr>)"
proof -
  obtain d1 where s: "NotificationRepository_Save sample_notification two_jobs = (Inr (), d1)" and "no_faults d1"
    by (simp add: Save_exec exec_sql_no_faults two_jobs_def jobs_db_def job_row_def insert_row_def has_key_def
        sample_notification_def row_of_notification_def no_faults_def)
  from notification_save_get [OF this] s show ?thesis
    by (simp add: sample_notification_def two_jobs_def jobs_db_def norm_user_def global_user_def)
qed

section \<open>Primary keys\<close>

definition notif_keys_ok :: "ndb \<Rightarrow> bool" where
  "notif_keys_ok d \<longleftrightarrow> keyed id_col (notifications (tables d)) \<and> keyed id_col (dlq_notifications (tables d))"

lemma Update_keys: "notif_keys_ok d \<Longrightarrow> notif_keys_ok (snd (NotificationRepository_Update n d))"
  by (auto simp: notif_keys_ok_def Update_exec keyed_update_key split: prod.splits dest!: exec_sql_tables)

lemma Save_keys: "notif_keys_ok d \<Longrightarrow> notif_keys_ok (snd (NotificationRepository_Save n d))"
  by (auto simp: notif_keys_ok_def Save_exec Let_def split: prod.splits dest!: exec_sql_tables)
     (metis keyed_insert_row snd_conv)+

lemma Save_keyed:
  "keyed id_col (notifications (tables d)) \<Longrightarrow> keyed id_col (notifications (tables (snd (NotificationRepository_Save n d))))"
  by (auto simp: Save_exec Let_def split: prod.splits dest!: exec_sql_tables) (metis keyed_insert_row snd_conv)

lemma DLQSave_keys: "notif_keys_ok d \<Longrightarrow> notif_keys_ok (snd (DLQRepository_Save n d))"
  by (auto simp: notif_keys_ok_def DLQSave_exec Let_def split: prod.splits dest!: exec_sql_tables)
     (metis keyed_insert_row snd_conv)+

end
