(* ===== verification/Senders.thy ===== *)
theory Senders
  imports NotificationStore GoStrings Http Complex_Main
begin

text \<open>
  The delivery channels of \<open>internal/service/system.go\<close>: \<open>EmailSender\<close>, \<open>PushSender\<close> and
  \<open>SmsSender\<close> behind the interface \<open>NotificationSender\<close>.

  What a sender takes from outside is the record \<open>send_env\<close>: the draw of \<open>rand.Float64()\<close> (a rational,
  as every finite \<open>float64\<close> is) and the reply of the Resend API to a given request.
\<close>

section \<open>Environment of a delivery\<close>

record resend_request =
  rq_authorization :: string
  rq_from :: string
  rq_to :: "string list"
  rq_subject :: string
  rq_html :: string

record send_env =
  rand_float :: rat
  resend_do :: "resend_request \<Rightarrow> http_reply"

type_synonym 's NotificationSender = "send_env \<Rightarrow> Notification \<Rightarrow> 's \<Rightarrow> (string + unit) \<times> 's"

text \<open>Decimal digits (\<open>%d\<close>) and a quoted string (\<open>%q\<close>, for text without characters to escape).\<close>

fun decimal :: "nat \<Rightarrow> string" where
  "decimal n = (if n < 10 then [char_of (48 + n)] else decimal (n div 10) @ [char_of (48 + n mod 10)])"

declare decimal.simps [simp del]

definition quoted :: "string \<Rightarrow> string" where
  "quoted s = CHR 0x22 # s @ [CHR 0x22]"

section \<open>Rendering\<close>

definition placeholder :: "string \<Rightarrow> string" where
  "placeholder k = ''{{'' @ k @ ''}}''"

fun render :: "variables \<Rightarrow> string \<Rightarrow> string" where
  "render [] body = body"
| "render ((k, v) # vars) body = render vars (replace_all (placeholder k) v body)"

section \<open>The senders\<close>

record 's EmailSender =
  es_TemplateRepo :: "'s TemplateRepo"
  es_ResendAPIKey :: string
  es_EmailFrom :: string
  es_FailRate :: rat

definition default_from :: string where
  "default_from = ''no-reply@sanjayvelu.online''"

definition resend_payload :: "'s EmailSender \<Rightarrow> Notification \<Rightarrow> string \<Rightarrow> resend_request" where
  "resend_payload e notification body =
     (let fromAddress = (if es_EmailFrom e = '''' then default_from else es_EmailFrom e)
      in \<lparr>rq_authorization = ''Bearer '' @ es_ResendAPIKey e, rq_from = fromAddress,
          rq_to = [n_Recipient notification],
          rq_subject = ''Notification: '' @ n_Template notification,
          rq_html = ''<p>'' @ body @ ''</p>''\<rparr>)"

definition EmailSender_Send :: "'s EmailSender \<Rightarrow> 's NotificationSender" where
  "EmailSender_Send e env notification s =
     (if n_Recipient notification = ''fail@example.com''
      then (Inl ''permanent email sending failure for testing'', s)
      else case tr_Get (es_TemplateRepo e) (n_Template notification) (n_UserID notification) s of
        (Inl err, s') \<Rightarrow> (Inl (''load template '' @ quoted (n_Template notification) @ '': '' @ err), s')
      | (Inr templateBody, s') \<Rightarrow>
          (let body = render (n_Variable notification) templateBody
           in if es_ResendAPIKey e = ''''
              then (if es_FailRate e > 0 \<and> rand_float env < es_FailRate e
                    then (Inl ''transient email delivery failure (mock)'', s')
                    else (Inr (), s'))
              else (case resend_do env (resend_payload e notification body) of
                      InvalidRequest err \<Rightarrow> (Inl (''create HTTP request: '' @ err), s')
                    | TransportError err \<Rightarrow> (Inl (''execute HTTP request: '' @ err), s')
                    | Reply code errMap \<Rightarrow>
                        if code \<noteq> StatusOK \<and> code \<noteq> StatusCreated \<and> code \<noteq> StatusAccepted
                        then (Inl (''resend API returned error (status '' @ decimal code @ ''): '' @ errMap), s')
                        else (Inr (), s'))))"

definition PushSender_Send :: "rat \<Rightarrow> 's NotificationSender" where
  "PushSender_Send FailRate env notification s =
     (if FailRate > 0 \<and> rand_float env < FailRate
      then (Inl ''transient push delivery failure'', s) else (Inr (), s))"

definition SmsSender_Send :: "rat \<Rightarrow> 's NotificationSender" where
  "SmsSender_Send FailRate env notification s =
     (if FailRate > 0 \<and> rand_float env < FailRate
      then (Inl ''transient SMS delivery failure'', s) else (Inr (), s))"

section \<open>The contract of a sender\<close>

text \<open>
  A sender may read the store but not change it, and the fault-free store stays fault-free. \<open>obs\<close> is
  what the notification system observes of the store.
\<close>

locale notification_sender =
  fixes send :: "'s NotificationSender"
    and obs :: "'s \<Rightarrow> 'o"
    and reliable :: "'s \<Rightarrow> bool"
  assumes send_obs: "obs (snd (send env n s)) = obs s"
    and send_reliable: "reliable s \<Longrightarrow> reliable (snd (send env n s))"

definition pg_obs :: "ndb \<Rightarrow> ntables \<times> (gotime \<Rightarrow> gotime)" where
  "pg_obs d = (tables d, stamp d)"

lemma Template_Get_obs: "pg_obs (snd (TemplateRepository_Get name u d)) = pg_obs d"
  by (auto simp: Get_cases pg_obs_def dest!: frame_of_read split: prod.splits)

interpretation email: notification_sender
  "EmailSender_Send \<lparr>es_TemplateRepo = TemplateRepository, es_ResendAPIKey = key, es_EmailFrom = sender, es_FailRate = rate\<rparr>"
  pg_obs no_faults for key sender rate
proof (unfold_locales, goal_cases)
  case (1 env n s)
  then show ?case
    using Template_Get_obs [of "n_Template n" "n_UserID n" s]
    by (auto simp: EmailSender_Send_def Let_def split: prod.splits sum.splits http_reply.splits)
next
  case (2 s env n)
  then show ?case
    using pg_templates.reliable_get [of s "n_Template n" "n_UserID n"]
    by (auto simp: EmailSender_Send_def Let_def split: prod.splits sum.splits http_reply.splits)
qed

interpretation push: notification_sender "PushSender_Send rate" pg_obs no_faults for rate
  by unfold_locales (simp_all add: PushSender_Send_def)

interpretation sms: notification_sender "SmsSender_Send rate" pg_obs no_faults for rate
  by unfold_locales (simp_all add: SmsSender_Send_def)

section \<open>Rendering is a simultaneous substitution\<close>

text \<open>
  A template as its author means it: text without braces, and placeholders. \<open>substitute\<close> replaces every
  placeholder that has a variable, all at once.
\<close>

datatype token = Text string | Hole string

fun token_text :: "token \<Rightarrow> string" where
  "token_text (Text t) = t"
| "token_text (Hole k) = placeholder k"

definition template_text :: "token list \<Rightarrow> string" where
  "template_text toks = concat (map token_text toks)"

definition brace_free :: "string \<Rightarrow> bool" where
  "brace_free s \<longleftrightarrow> CHR ''{'' \<notin> set s \<and> CHR ''}'' \<notin> set s"

fun token_ok :: "token \<Rightarrow> bool" where
  "token_ok (Text t) = brace_free t"
| "token_ok (Hole k) = brace_free k"

fun fill :: "string \<Rightarrow> string \<Rightarrow> token \<Rightarrow> token" where
  "fill k v (Text t) = Text t"
| "fill k v (Hole k') = (if k' = k then Text v else Hole k')"

fun substitute :: "(string \<Rightarrow> string option) \<Rightarrow> token \<Rightarrow> token" where
  "substitute m (Text t) = Text t"
| "substitute m (Hole k) = (case m k of Some v \<Rightarrow> Text v | None \<Rightarrow> Hole k)"

lemma template_text_simps [simp]:
  "template_text [] = []"
  "template_text (tok # toks) = token_text tok @ template_text toks"
  by (simp_all add: template_text_def)

lemma placeholder_nonempty [simp]: "placeholder k \<noteq> []"
  by (simp add: placeholder_def)

lemma has_prefix_Cons: "has_prefix (a # p) (b # s) \<longleftrightarrow> a = b \<and> has_prefix p s"
  by (auto simp: has_prefix_def)

lemma brace_free_close:
  "brace_free k \<Longrightarrow> brace_free k' \<Longrightarrow> has_prefix (k @ ''}}'') (k' @ CHR ''}'' # s) \<Longrightarrow> k = k'"
proof (induction k arbitrary: k')
  case Nil
  then show ?case by (cases k') (auto simp: brace_free_def has_prefix_Cons)
next
  case (Cons c k)
  then show ?case by (cases k') (auto simp: brace_free_def has_prefix_Cons)
qed

lemma replace_all_hole:
  assumes "brace_free k" and "brace_free k'" and "k \<noteq> k'"
  shows "replace_all (placeholder k) v (placeholder k' @ s) = placeholder k' @ replace_all (placeholder k) v s"
proof -
  let ?p = "placeholder k"
  have p: "?p = CHR ''{'' # CHR ''{'' # k @ ''}}''" by (simp add: placeholder_def)
  have tail: "replace_all ?p v (k' @ ''}}'' @ s) = (k' @ ''}}'') @ replace_all ?p v s"
    using replace_all_skip [OF p, of "k' @ ''}}''" v s] assms(2) by (simp add: brace_free_def)
  have n1: "\<not> has_prefix ?p (CHR ''{'' # k' @ ''}}'' @ s)"
    using assms(2) by (cases k') (auto simp: p has_prefix_Cons brace_free_def)
  have n0: "\<not> has_prefix ?p (CHR ''{'' # CHR ''{'' # k' @ ''}}'' @ s)"
    using brace_free_close [OF assms(1,2), of "CHR ''}'' # s"] assms(3)
    by (auto simp: p has_prefix_Cons)
  show ?thesis using tail n0 n1 by (simp add: placeholder_def [of k'])
qed

lemma replace_all_template:
  assumes "brace_free k" and "\<forall>tok \<in> set toks. token_ok tok"
  shows "replace_all (placeholder k) v (template_text toks) = template_text (map (fill k v) toks)"
  using assms(2)
proof (induction toks)
  case Nil
  then show ?case by simp
next
  case (Cons tok toks)
  have IH: "replace_all (placeholder k) v (template_text toks) = template_text (map (fill k v) toks)"
    using Cons by simp
  show ?case
  proof (cases tok)
    case (Text t)
    then have "CHR ''{'' \<notin> set t" using Cons.prems by (simp add: brace_free_def)
    then show ?thesis
      using replace_all_skip [of "placeholder k" "CHR ''{''" _ t] IH Text by (simp add: placeholder_def)
  next
    case (Hole k')
    then have "brace_free k'" using Cons.prems by simp
    show ?thesis
    proof (cases "k' = k")
      case True
      then show ?thesis using IH Hole by (simp add: replace_all_match)
    next
      case False
      then show ?thesis using IH Hole replace_all_hole [OF assms(1) \<open>brace_free k'\<close>, of v] by simp
    qed
  qed
qed

definition vars_ok :: "variables \<Rightarrow> bool" where
  "vars_ok vars \<longleftrightarrow> distinct (map fst vars) \<and> list_all (\<lambda>(k, v). brace_free k \<and> brace_free v) vars"

lemma substitute_fill:
  "k \<notin> dom m \<Longrightarrow> substitute m (fill k v tok) = substitute (m(k \<mapsto> v)) tok"
  by (cases tok) (auto split: option.splits)

lemma render_substitute:
  "vars_ok vars \<Longrightarrow> \<forall>tok \<in> set toks. token_ok tok \<Longrightarrow>
   render vars (template_text toks) = template_text (map (substitute (map_of vars)) toks)"
proof (induction vars arbitrary: toks)
  case Nil
  have "substitute Map.empty tok = tok" for tok by (cases tok) auto
  then show ?case by simp
next
  case (Cons kv vars)
  obtain k v where kv: "kv = (k, v)" by (cases kv)
  have k: "brace_free k" "brace_free v" "k \<notin> dom (map_of vars)" and vars: "vars_ok vars"
    using Cons.prems(1) by (auto simp: kv vars_ok_def dom_map_of_conv_image_fst)
  have "token_ok (fill k v tok)" if "tok \<in> set toks" for tok
  proof -
    have "token_ok tok" using that Cons.prems(2) by blast
    then show ?thesis using k by (cases tok) simp_all
  qed
  then have "render vars (template_text (map (fill k v) toks)) =
      template_text (map (substitute (map_of vars)) (map (fill k v) toks))"
    using vars by (intro Cons.IH) auto
  then show ?case
    using replace_all_template [OF k(1) Cons.prems(2)] k(3) by (simp add: kv comp_def substitute_fill fun_upd_def)
qed

text \<open>
  C38. Rendering a well-formed template is a simultaneous substitution: when the keys and the values of
  the variables hold no braces, every placeholder with a variable becomes its value, placeholders
  without one stay, the text between them is untouched, and the order in which Go's \<open>range\<close> visits the
  map makes no difference.
\<close>

theorem render_is_substitution:
  assumes "vars_ok vars" and "\<forall>tok \<in> set toks. token_ok tok"
    and "set vars' = set vars" and "distinct (map fst vars')"
  shows "render vars (template_text toks) = template_text (map (substitute (map_of vars)) toks)
     \<and> render vars' (template_text toks) = render vars (template_text toks)"
proof -
  have "vars_ok vars'" using assms(1,3,4) by (auto simp: vars_ok_def list_all_iff)
  moreover have "map_of vars' = map_of vars"
    using assms(1,3,4) by (simp add: vars_ok_def map_of_inject_set)
  ultimately show ?thesis using assms(1,2) by (simp add: render_substitute)
qed

theorem render_is_substitution_witness:
  "render [(''code'', ''12''), (''name'', ''Al'')]
     (template_text [Text ''Hi '', Hole ''name'', Text '': '', Hole ''code'', Hole ''x'']) = ''Hi Al: 12{{x}}''"
  using render_is_substitution [of "[(''code'', ''12''), (''name'', ''Al'')]"
      "[Text ''Hi '', Hole ''name'', Text '': '', Hole ''code'', Hole ''x'']"
      "[(''name'', ''Al''), (''code'', ''12'')]"]
  by (simp add: vars_ok_def brace_free_def placeholder_def insert_commute del: render.simps template_text_simps)
     (simp add: placeholder_def)

text \<open>
  Without the condition on the values the e-mail body depends on the iteration order of the map: a
  value that holds a placeholder is substituted in one order and left in the other.
\<close>

lemma render_order_dependent:
  "render [(''a'', ''{{b}}''), (''b'', ''x'')] ''{{a}}'' = ''x''
   \<and> render [(''b'', ''x''), (''a'', ''{{b}}'')] ''{{a}}'' = ''{{b}}''"
  by (simp add: placeholder_def has_prefix_def)

end
