(* ===== verification/NotificationSystem.thy ===== *)
theory NotificationSystem
  imports Senders
begin

text \<open>
  The core of the notification service, \<open>internal/service/system.go\<close>: \<open>Process\<close> and \<open>Job\<close>, the
  workers, \<open>CreateNotification\<close>, the retry scheduler, the delegation of scheduled notifications and
  \<open>Shutdown\<close>; and the system that \<open>cmd/notification-service/main.go\<close> wires up.

  The fields of the Go struct that never change are the record \<open>NotificationSystem\<close>; the store, the
  channel, the flags and the wait group are the record \<open>runtime\<close>. A \<open>select\<close> with several ready
  cases picks one at random: the choice is an argument. Other goroutines may run between two steps
  of one call; where it matters, their effect is an arbitrary function \<open>intr\<close> on the runtime.
\<close>

section \<open>State\<close>

record 's NotificationSystem =
  ns_WorkerCount :: int
  ns_MaxRetryCount :: int
  ns_NotificationRepo :: "'s NotificationRepo"
  ns_TemplateRepo :: "'s TemplateRepo"
  ns_DLQRepo :: "'s DLQRepo"
  ns_NotificationStrategy :: "NotificationType \<Rightarrow> 's NotificationSender option"
  ns_SchedulerURL :: string
  ns_SchedulerAPIKey :: string

record 's runtime =
  store :: 's
  channel :: "Notification list"
  capacity :: nat
  ch_closed :: bool
  shutting_down :: bool
  ctx_done :: bool
  live_workers :: nat

section \<open>Process and Job\<close>

definition Job :: "'s NotificationSystem \<Rightarrow> send_env \<Rightarrow> Notification \<Rightarrow> 's \<Rightarrow> (string + unit) \<times> 's" where
  "Job n env notification s =
     (case ns_NotificationStrategy n (n_Type notification) of
        None \<Rightarrow> (Inl (''strategy sender not found for type: '' @ string_of_type (n_Type notification)), s)
      | Some sender \<Rightarrow> sender env notification s)"

text \<open>\<open>time.Duration(1<<retry) * time.Second\<close>; \<open>None\<close> is the panic of a negative shift count.\<close>

definition retry_delay :: "int \<Rightarrow> duration option" where
  "retry_delay k = (case shl1 k of None \<Rightarrow> None | Some b \<Rightarrow> Some (wrap64 (b * second)))"

definition Process ::
  "'s NotificationSystem \<Rightarrow> gotime \<Rightarrow> send_env \<Rightarrow> Notification \<Rightarrow> 's \<Rightarrow> unit outcome \<times> 's" where
  "Process n now env notification s =
     (let notification = notification\<lparr>n_Status := Processing\<rparr>;
          (_, s) = nr_Update (ns_NotificationRepo n) notification s;
          (err, s) = Job n env notification s
      in case err of
           Inl e \<Rightarrow>
             (let notification = notification\<lparr>n_RetryCount := wrap64 (n_RetryCount notification + 1),
                                              n_ErrorMessage := e\<rparr>
              in if n_RetryCount notification > ns_MaxRetryCount n
                 then (let notification = notification\<lparr>n_Status := DLQ\<rparr>;
                           (_, s) = nr_Update (ns_NotificationRepo n) notification s;
                           (_, s) = dr_Save (ns_DLQRepo n) notification s
                       in (Return (), s))
                 else (case retry_delay (n_RetryCount notification) of
                         None \<Rightarrow> (Panic ''negative shift amount'', s)
                       | Some delay \<Rightarrow>
                           (let notification = notification\<lparr>n_NextRetryAt := time_add now delay,
                                                            n_Status := Pending\<rparr>;
                                (_, s) = nr_Update (ns_NotificationRepo n) notification s
                            in (Return (), s))))
         | Inr _ \<Rightarrow>
             (let notification = notification\<lparr>n_Status := Sent, n_ErrorMessage := ''''\<rparr>;
                  (_, s) = nr_Update (ns_NotificationRepo n) notification s
              in (Return (), s)))"

section \<open>Channel operations\<close>

text \<open>\<open>select { case ch <- x: ... case <-ctx.Done(): ... }\<close>; a closed channel makes the send ready, and it panics.\<close>

datatype select_send = SendChosen | DoneChosen | WouldBlock | SendOnClosed

definition select_send_or_done :: "bool \<Rightarrow> 's runtime \<Rightarrow> select_send" where
  "select_send_or_done pick rt =
     (let send_ready = ch_closed rt \<or> length (channel rt) < capacity rt
      in if send_ready \<and> (\<not> ctx_done rt \<or> pick)
         then (if ch_closed rt then SendOnClosed else SendChosen)
         else if ctx_done rt then DoneChosen else WouldBlock)"

definition push :: "Notification \<Rightarrow> 's runtime \<Rightarrow> 's runtime" where
  "push x rt = rt\<lparr>channel := channel rt @ [x]\<rparr>"

definition closed_panic :: string where
  "closed_panic = ''send on closed channel''"

section \<open>Workers\<close>

datatype worker_step = WorkerExit | WorkerIdle | WorkerProcessed

definition Worker_step ::
  "'s NotificationSystem \<Rightarrow> bool \<Rightarrow> gotime \<Rightarrow> send_env \<Rightarrow> 's runtime \<Rightarrow> worker_step \<times> 's runtime" where
  "Worker_step n pick now env rt =
     (let recv_ready = channel rt \<noteq> [] \<or> ch_closed rt;
          leave = rt\<lparr>live_workers := live_workers rt - 1\<rparr>
      in if ctx_done rt \<and> (\<not> recv_ready \<or> \<not> pick) then (WorkerExit, leave)
         else if \<not> recv_ready then (WorkerIdle, rt)
         else (case channel rt of
                 [] \<Rightarrow> (WorkerExit, leave)
               | notification # rest \<Rightarrow>
                   \<comment> \<open>a panic of \<open>Process\<close> is recovered\<close>
                   (WorkerProcessed, rt\<lparr>channel := rest, store := snd (Process n now env notification (store rt))\<rparr>)))"

text \<open>The loop of one worker over the choices and the environment of its iterations, until it leaves.\<close>

fun Worker :: "'s NotificationSystem \<Rightarrow> (bool \<times> gotime \<times> send_env) list \<Rightarrow> 's runtime \<Rightarrow> worker_step \<times> 's runtime" where
  "Worker n [] rt = (WorkerIdle, rt)"
| "Worker n ((pick, now, env) # evs) rt =
     (case Worker_step n pick now env rt of
        (WorkerExit, rt') \<Rightarrow> (WorkerExit, rt')
      | (_, rt') \<Rightarrow> Worker n evs rt')"

definition Start :: "'s NotificationSystem \<Rightarrow> 's runtime \<Rightarrow> 's runtime" where
  "Start n rt = rt\<lparr>live_workers := live_workers rt + nat (ns_WorkerCount n)\<rparr>"

section \<open>CreateNotification\<close>

definition max_total :: int where
  "max_total = 100"

text \<open>The checks up to the template lookup, and the part from there on.\<close>

definition create_checks ::
  "'s NotificationSystem \<Rightarrow> string \<Rightarrow> string \<Rightarrow> 's runtime \<Rightarrow> (string + unit) \<times> 's runtime" where
  "create_checks n templateName userID rt =
     (if shutting_down rt then (Inl ''notification system is shutting down'', rt)
      else case nr_GetTotalCount (ns_NotificationRepo n) (store rt) of
        (Inl err, s) \<Rightarrow> (Inl (''failed to check system threshold: '' @ err), rt\<lparr>store := s\<rparr>)
      | (Inr totalCount, s) \<Rightarrow>
          if totalCount \<ge> max_total
          then (Inl ''system threshold exceeded: maximum limit of 100 total notifications reached'', rt\<lparr>store := s\<rparr>)
          else case tr_Get (ns_TemplateRepo n) templateName userID s of
            (Inl err, s) \<Rightarrow> (Inl (''invalid template name: '' @ err), rt\<lparr>store := s\<rparr>)
          | (Inr _, s) \<Rightarrow> (Inr (), rt\<lparr>store := s\<rparr>))"

record create_args =
  ca_template :: string
  ca_variable :: variables
  ca_type :: NotificationType
  ca_recipient :: string
  ca_userID :: string
  ca_executeAt :: gotime

text \<open>\<open>now1\<close> and \<open>now2\<close> are the two calls of \<open>time.Now()\<close>, \<open>uuid\<close> the fresh id.\<close>

definition new_notification :: "gotime \<Rightarrow> gotime \<Rightarrow> string \<Rightarrow> create_args \<Rightarrow> Notification" where
  "new_notification now1 now2 uuid a =
     (let (status, nextRetry) = (if \<not> is_zero (ca_executeAt a) then (Scheduled, ca_executeAt a) else (Pending, now1))
      in \<lparr>n_ID = uuid, n_Recipient = ca_recipient a, n_Template = ca_template a, n_Variable = ca_variable a,
          n_RetryCount = 0, n_CreatedAt = now2, n_Type = ca_type a, n_Status = status,
          n_NextRetryAt = nextRetry, n_UserID = ca_userID a, n_ErrorMessage = ''''\<rparr>)"

definition create_commit ::
  "'s NotificationSystem \<Rightarrow> ('s runtime \<Rightarrow> 's runtime) \<Rightarrow> bool \<Rightarrow> Notification \<Rightarrow> create_args \<Rightarrow> 's runtime
     \<Rightarrow> (string + Notification) outcome \<times> 's runtime" where
  "create_commit n intr pick notification a rt =
     (case nr_Save (ns_NotificationRepo n) notification (store rt) of
        (Inl err, s) \<Rightarrow> (Return (Inl err), rt\<lparr>store := s\<rparr>)
      | (Inr _, s) \<Rightarrow>
          (if is_zero (ca_executeAt a)
           then (let rt = intr (rt\<lparr>store := s\<rparr>)
                 in case select_send_or_done pick rt of
                      SendChosen \<Rightarrow> (Return (Inr notification), push notification rt)
                    | DoneChosen \<Rightarrow> (Return (Inl ''notification system stopped''), rt)
                    | WouldBlock \<Rightarrow> (Block, rt)
                    | SendOnClosed \<Rightarrow> (Panic closed_panic, rt))
           else (Return (Inr notification), rt\<lparr>store := s\<rparr>)))"

definition CreateNotification ::
  "'s NotificationSystem \<Rightarrow> ('s runtime \<Rightarrow> 's runtime) \<Rightarrow> bool \<Rightarrow> gotime \<Rightarrow> gotime \<Rightarrow> string \<Rightarrow> create_args
     \<Rightarrow> 's runtime \<Rightarrow> (string + Notification) outcome \<times> 's runtime" where
  "CreateNotification n intr pick now1 now2 uuid a rt =
     (case create_checks n (ca_template a) (ca_userID a) rt of
        (Inl err, rt) \<Rightarrow> (Return (Inl err), rt)
      | (Inr _, rt) \<Rightarrow> create_commit n intr pick (new_notification now1 now2 uuid a) a rt)"

section \<open>Shutdown\<close>

definition Shutdown :: "'s runtime \<Rightarrow> unit outcome \<times> 's runtime" where
  "Shutdown rt =
     (let rt = rt\<lparr>shutting_down := True, ctx_done := True\<rparr>
      in if live_workers rt > 0 then (Block, rt)
         else if ch_closed rt then (Panic ''close of closed channel'', rt)
         else (Return (), rt\<lparr>ch_closed := True\<rparr>))"

section \<open>The retry scheduler\<close>

datatype loop_result = LoopContinue | LoopReturn | LoopBlocked | LoopPanic string

text \<open>
  The inner loop over the claimed jobs. Before job \<open>i\<close> is looked at, other goroutines act on the
  runtime by \<open>intr (2 * i)\<close>; between the check of \<open>ShuttingDown\<close> and the \<open>select\<close>, by \<open>intr (2 * i + 1)\<close>.
\<close>

fun enqueue_jobs ::
  "(nat \<Rightarrow> 's runtime \<Rightarrow> 's runtime) \<Rightarrow> (nat \<Rightarrow> bool) \<Rightarrow> nat \<Rightarrow> Notification list \<Rightarrow> 's runtime
     \<Rightarrow> loop_result \<times> 's runtime" where
  "enqueue_jobs intr picks i [] rt = (LoopContinue, rt)"
| "enqueue_jobs intr picks i (job # jobs) rt =
     (let rt = intr (2 * i) rt
      in if shutting_down rt then (LoopReturn, rt)
         else (let rt = intr (2 * i + 1) rt
               in case select_send_or_done (picks i) rt of
                    SendChosen \<Rightarrow> enqueue_jobs intr picks (Suc i) jobs (push job rt)
                  | DoneChosen \<Rightarrow> (LoopReturn, rt)
                  | WouldBlock \<Rightarrow> (LoopBlocked, rt)
                  | SendOnClosed \<Rightarrow> (LoopPanic closed_panic, rt)))"

text \<open>One iteration of the outer loop; \<open>done_first\<close> is the choice when the context is done and the ticker has fired.\<close>

definition RetryScheduler_tick ::
  "'s NotificationSystem \<Rightarrow> (nat \<Rightarrow> 's runtime \<Rightarrow> 's runtime) \<Rightarrow> (nat \<Rightarrow> bool) \<Rightarrow> bool \<Rightarrow> 's runtime
     \<Rightarrow> loop_result \<times> 's runtime" where
  "RetryScheduler_tick n intr picks done_first rt =
     (if ctx_done rt \<and> done_first then (LoopReturn, rt)
      else case nr_GetReadyJobs (ns_NotificationRepo n) (store rt) of
        (Inl err, s) \<Rightarrow> (LoopContinue, rt\<lparr>store := s\<rparr>)
      | (Inr jobs, s) \<Rightarrow> enqueue_jobs intr picks 0 jobs (rt\<lparr>store := s\<rparr>))"

section \<open>Delegation to the task scheduler\<close>

record task_request =
  tq_url :: string
  tq_authorization :: string   \<comment> \<open>empty: no header\<close>
  tq_id :: string
  tq_title :: string
  tq_description :: string
  tq_callback_url :: string
  tq_payload :: string
  tq_execute_at :: string
  tq_max_retries :: int

definition callback_url :: "string \<Rightarrow> string" where
  "callback_url ident = ''http://notification-service:8080/api/v1/internal/notifications/'' @ ident @ ''/dispatch''"

text \<open>\<open>format\<close> is \<open>Time.Format(time.RFC3339)\<close>.\<close>

definition task_payload :: "'s NotificationSystem \<Rightarrow> (gotime \<Rightarrow> string) \<Rightarrow> Notification \<Rightarrow> gotime \<Rightarrow> task_request" where
  "task_payload n format notification executeAt =
     \<lparr>tq_url = ns_SchedulerURL n @ ''/tasks'',
      tq_authorization = (if ns_SchedulerAPIKey n \<noteq> '''' then ''Bearer '' @ ns_SchedulerAPIKey n else ''''),
      tq_id = ''task_notif_'' @ n_ID notification,
      tq_title = ''Trigger Notification Dispatch: '' @ n_ID notification,
      tq_description = ''Callback trigger enqueuing notification for '' @ n_Recipient notification,
      tq_callback_url = callback_url (n_ID notification),
      tq_payload = ''{}'',
      tq_execute_at = format executeAt,
      tq_max_retries = 3\<rparr>"

definition ScheduleNotification ::
  "'s NotificationSystem \<Rightarrow> (gotime \<Rightarrow> string) \<Rightarrow> (task_request \<Rightarrow> http_reply) \<Rightarrow> Notification \<Rightarrow> gotime
     \<Rightarrow> string + unit" where
  "ScheduleNotification n format http_do notification executeAt =
     (case http_do (task_payload n format notification executeAt) of
        InvalidRequest err \<Rightarrow> Inl (''create scheduler HTTP request: '' @ err)
      | TransportError err \<Rightarrow> Inl (''execute scheduler HTTP request: '' @ err)
      | Reply code errMap \<Rightarrow>
          if code \<noteq> StatusOK \<and> code \<noteq> StatusCreated
          then Inl (''scheduler returned non-2xx status code '' @ decimal code @ '': '' @ errMap)
          else Inr ())"

section \<open>The system of the binary\<close>

text \<open>The constant \<open>0.3\<close> as the \<open>float64\<close> it is.\<close>

definition fail_rate :: rat where
  "fail_rate = 5404319552844595 / 18014398509481984"

definition main_system :: "int \<Rightarrow> string \<Rightarrow> string \<Rightarrow> string \<Rightarrow> string \<Rightarrow> ndb NotificationSystem" where
  "main_system workerCount resendKey emailFrom schedulerURL schedulerKey =
     \<lparr>ns_WorkerCount = workerCount, ns_MaxRetryCount = 3,
      ns_NotificationRepo = NotificationRepository, ns_TemplateRepo = TemplateRepository,
      ns_DLQRepo = DLQRepository,
      ns_NotificationStrategy = (\<lambda>ty. case ty of
          Email \<Rightarrow> Some (EmailSender_Send \<lparr>es_TemplateRepo = TemplateRepository, es_ResendAPIKey = resendKey,
                                          es_EmailFrom = emailFrom, es_FailRate = fail_rate\<rparr>)
        | Sms \<Rightarrow> Some (SmsSender_Send fail_rate)
        | Push \<Rightarrow> Some (PushSender_Send fail_rate)),
      ns_SchedulerURL = schedulerURL, ns_SchedulerAPIKey = schedulerKey\<rparr>"

definition main_runtime :: "ndb \<Rightarrow> ndb runtime" where
  "main_runtime d = \<lparr>store = d, channel = [], capacity = 256, ch_closed = False, shutting_down = False,
     ctx_done = False, live_workers = 0\<rparr>"

end
