(* ===== verification/Retry.thy ===== *)
theory Retry
  imports Prelude
begin

text \<open>
  The retry contract that both services promise for an item: it waits, every failed attempt adds one to
  its retry count, a success ends it, and one failure beyond the limit makes it a dead letter. The
  notification workers and the task workers are both interpretations of \<open>retry_machine\<close>.
\<close>

datatype phase = Waiting | Done | Dead

text \<open>A sequence of attempts, and that each of them fails.\<close>

fun run_steps :: "('e \<Rightarrow> 's \<Rightarrow> 's) \<Rightarrow> 'e list \<Rightarrow> 's \<Rightarrow> 's" where
  "run_steps step [] s = s"
| "run_steps step (e # es) s = run_steps step es (step e s)"

fun fail_steps :: "('e \<Rightarrow> 's \<Rightarrow> 's) \<Rightarrow> ('e \<Rightarrow> 's \<Rightarrow> bool) \<Rightarrow> 'e list \<Rightarrow> 's \<Rightarrow> bool" where
  "fail_steps step fails [] s \<longleftrightarrow> True"
| "fail_steps step fails (e # es) s \<longleftrightarrow> fails e s \<and> fail_steps step fails es (step e s)"

lemma run_steps_append: "run_steps step (es @ fs) s = run_steps step fs (run_steps step es s)"
  by (induction es arbitrary: s) auto

locale retry_machine =
  fixes step :: "'e \<Rightarrow> 's \<Rightarrow> 's"
    and fails :: "'e \<Rightarrow> 's \<Rightarrow> bool"
    and phase :: "'s \<Rightarrow> phase"
    and retries :: "'s \<Rightarrow> int"
    and good :: "'s \<Rightarrow> bool"
    and limit :: int
  assumes good_step: "good s \<Longrightarrow> good (step e s)"
    and retries_bounded: "good s \<Longrightarrow> phase s = Waiting \<Longrightarrow> retries s \<le> limit"
    and final_step: "good s \<Longrightarrow> phase s \<noteq> Waiting \<Longrightarrow> phase (step e s) = phase s"
    and success_step: "good s \<Longrightarrow> phase s = Waiting \<Longrightarrow> \<not> fails e s \<Longrightarrow> phase (step e s) = Done"
    and retry_step: "good s \<Longrightarrow> phase s = Waiting \<Longrightarrow> fails e s \<Longrightarrow> retries s < limit \<Longrightarrow>
          phase (step e s) = Waiting \<and> retries (step e s) = retries s + 1"
    and exhausted_step: "good s \<Longrightarrow> phase s = Waiting \<Longrightarrow> fails e s \<Longrightarrow> retries s \<ge> limit \<Longrightarrow>
          phase (step e s) = Dead"
begin

abbreviation run :: "'e list \<Rightarrow> 's \<Rightarrow> 's" where
  "run \<equiv> run_steps step"

abbreviation all_fail :: "'e list \<Rightarrow> 's \<Rightarrow> bool" where
  "all_fail \<equiv> fail_steps step fails"

lemma good_run: "good s \<Longrightarrow> good (run es s)"
  by (induction es arbitrary: s) (auto simp: good_step)

lemma final_run: "good s \<Longrightarrow> phase s \<noteq> Waiting \<Longrightarrow> phase (run es s) = phase s"
  by (induction es arbitrary: s) (auto simp: good_step final_step)

text \<open>Where an item that waits stands after any sequence of attempts.\<close>

lemma waiting_iff:
  "good s \<Longrightarrow> phase s = Waiting \<Longrightarrow>
   phase (run es s) = Waiting \<longleftrightarrow> all_fail es s \<and> int (length es) \<le> limit - retries s"
proof (induction es arbitrary: s)
  case Nil
  then show ?case using retries_bounded by simp
next
  case (Cons e es)
  consider (success) "\<not> fails e s" | (again) "fails e s" "retries s < limit" | (out) "fails e s" "retries s \<ge> limit"
    by linarith
  then show ?case
  proof cases
    case again
    with Cons show ?thesis using retry_step [of s e] good_step [of s e] by (auto simp: algebra_simps)
  next
    case success
    with Cons.prems have "phase (run es (step e s)) = Done"
      using success_step final_run good_step by (metis phase.distinct(1))
    with success show ?thesis by simp
  next
    case out
    with Cons.prems have "phase (run es (step e s)) = Dead"
      using exhausted_step final_run good_step by (metis phase.distinct(3))
    with out show ?thesis by simp
  qed
qed

lemma waiting_retries:
  "good s \<Longrightarrow> phase s = Waiting \<Longrightarrow> all_fail es s \<Longrightarrow> int (length es) \<le> limit - retries s \<Longrightarrow>
   retries (run es s) = retries s + int (length es)"
proof (induction es arbitrary: s)
  case Nil
  then show ?case by simp
next
  case (Cons e es)
  then have "fails e s" "retries s < limit" by auto
  with Cons show ?case using retry_step [of s e] good_step [of s e] by auto
qed

text \<open>A dead letter has failed one time more than the limit allows, without a success before.\<close>

lemma dead_iff:
  assumes "good s" and "phase s = Waiting"
  shows "phase (run es s) = Dead \<longleftrightarrow>
     (\<exists>n. n \<le> length es \<and> int n = limit - retries s + 1 \<and> all_fail (take n es) s)"
  using assms
proof (induction es arbitrary: s)
  case Nil
  then show ?case using retries_bounded [of s] by auto
next
  case (Cons e es)
  note g = good_step [OF Cons.prems(1), of e]
  consider (success) "\<not> fails e s" | (again) "fails e s" "retries s < limit" | (out) "fails e s" "retries s \<ge> limit"
    by linarith
  then show ?case
  proof cases
    case success
    then have "phase (run es (step e s)) = Done"
      using Cons.prems success_step final_run g by (metis phase.distinct(1))
    moreover have "\<not> all_fail (take n (e # es)) s" if "int n = limit - retries s + 1" for n
      using success that retries_bounded [OF Cons.prems] by (cases n) auto
    ultimately show ?thesis by auto
  next
    case again
    then have r: "phase (step e s) = Waiting" "retries (step e s) = retries s + 1"
      using retry_step [OF Cons.prems] by auto
    have "(\<exists>n \<le> length (e # es). int n = limit - retries s + 1 \<and> all_fail (take n (e # es)) s) \<longleftrightarrow>
          (\<exists>n \<le> length es. int n = limit - retries s \<and> all_fail (take n es) (step e s))" (is "?l \<longleftrightarrow> ?r")
    proof
      assume ?l
      then obtain n where n: "n \<le> length (e # es)" "int n = limit - retries s + 1" "all_fail (take n (e # es)) s" by blast
      then obtain m where "n = Suc m" using again by (cases n) auto
      with n show ?r by (intro exI [of _ m]) auto
    next
      assume ?r
      then obtain m where "m \<le> length es" "int m = limit - retries s" "all_fail (take m es) (step e s)" by blast
      then show ?l using again by (intro exI [of _ "Suc m"]) auto
    qed
    then show ?thesis using Cons.IH [OF g r(1)] r(2) by (simp add: algebra_simps)
  next
    case out
    then have "phase (run es (step e s)) = Dead"
      using Cons.prems exhausted_step final_run g by (metis phase.distinct(3))
    moreover have "retries s = limit" using out(2) retries_bounded [OF Cons.prems] by simp
    ultimately show ?thesis using out(1) by (auto intro!: exI [of _ "Suc 0"])
  qed
qed

lemma done_after:
  "good s \<Longrightarrow> phase s = Waiting \<Longrightarrow> all_fail es s \<Longrightarrow> int (length es) \<le> limit - retries s \<Longrightarrow>
   \<not> fails e (run es s) \<Longrightarrow> phase (run (es @ e # fs) s) = Done"
  using waiting_iff [of s es] success_step [of "run es s" e] good_run [of s es]
    final_run [of "step e (run es s)" fs] good_step [of "run es s" e]
  by (simp add: run_steps_append)

lemma attempts_bounded:
  "good s \<Longrightarrow> phase s = Waiting \<Longrightarrow> int (length es) > limit - retries s \<Longrightarrow> phase (run es s) \<noteq> Waiting"
  using waiting_iff [of s es] by auto

end

end
