(* ===== verification/Delivery.thy ===== *)
theory Delivery
  imports NotificationSystem Retry
begin

text \<open>
  What \<open>Process\<close> does to a notification, proved for any back end that meets the contracts of the
  repositories and of the senders, and the life of a notification under repeated deliveries: the
  notification side of \<open>retry_machine\<close>.
\<close>

section \<open>The delay before the next attempt\<close>

lemma retry_delay_exact:
  assumes "0 \<le> k" and "k \<le> 33"
  shows "retry_delay k = Some (2 ^ nat k * second)"
proof -
  have "(2::int) ^ nat k \<le> 2 ^ 33" using assms by (intro power_increasing) auto
  then have "wrap64 (2 ^ nat k * second) = 2 ^ nat k * second"
    by (intro wrap64_id order_trans [OF _ mult_nonneg_nonneg])
       (simp_all add: min_int64_def max_int64_def second_def)
  then show ?thesis using assms by (simp add: retry_delay_def shl1_exact)
qed

lemma retry_delay_total: "0 \<le> k \<Longrightarrow> retry_delay k \<noteq> None"
  by (simp add: retry_delay_def shl1_def)

section \<open>The specification of one delivery\<close>

text \<open>\<open>x\<close> is the notification taken from the channel, \<open>ok\<close> whether its sender succeeded at the clock reading \<open>now\<close>.\<close>

definition delivered_view :: "int \<Rightarrow> (gotime \<Rightarrow> gotime) \<Rightarrow> gotime \<Rightarrow> Notification \<Rightarrow> bool \<Rightarrow> job_view" where
  "delivered_view max_retries st now x ok =
     (if ok then \<lparr>v_status = Sent, v_retries = n_RetryCount x, v_next = st (n_NextRetryAt x)\<rparr>
      else if n_RetryCount x + 1 > max_retries
      then \<lparr>v_status = DLQ, v_retries = n_RetryCount x + 1, v_next = st (n_NextRetryAt x)\<rparr>
      else \<lparr>v_status = Pending, v_retries = n_RetryCount x + 1,
            v_next = st (now + 2 ^ nat (n_RetryCount x + 1) * second)\<rparr>)"

text \<open>Does the sender refuse \<open>x\<close>, in the store that \<open>Process\<close> gives it?\<close>

definition delivery_fails :: "'s NotificationSystem \<Rightarrow> send_env \<Rightarrow> Notification \<Rightarrow> 's \<Rightarrow> bool" where
  "delivery_fails n env x s =
     (let x = x\<lparr>n_Status := Processing\<rparr>; (_, s) = nr_Update (ns_NotificationRepo n) x s
      in case fst (Job n env x s) of Inl _ \<Rightarrow> True | Inr _ \<Rightarrow> False)"

section \<open>Process over any back end\<close>

locale notification_backend =
  notification_repo R D view dead st reliable
  for R :: "'s NotificationRepo" and D view dead st reliable +
  fixes n :: "'s NotificationSystem"
  assumes repo: "ns_NotificationRepo n = R" and dlq: "ns_DLQRepo n = D"
    and job_keeps: "Job n env x s = (r, s') \<Longrightarrow> view s' = view s \<and> dead s' = dead s \<and> st s' = st s"
    and job_reliable: "Job n env x s = (r, s') \<Longrightarrow> reliable s \<Longrightarrow> reliable s'"
begin

text \<open>Whatever fails on the way, the store differs at the id of the notification only, and no id appears or disappears.\<close>

lemma update_frame:
  "nr_Update R x s = (r, s') \<Longrightarrow>
   dom (view s') = dom (view s) \<and> (\<forall>k. k \<noteq> n_ID x \<longrightarrow> view s' k = view s k) \<and> dead s' = dead s \<and> st s' = st s"
  using update_same_dom [of x s] update_other [of _ x s] update_dead [of x s] update_st [of x s] by simp

lemma dlq_frame:
  "dr_Save D x s = (r, s') \<Longrightarrow> view s' = view s \<and> dead s \<subseteq> dead s' \<and> dead s' \<subseteq> insert (n_ID x) (dead s)"
  using dlq_save_view [of x s] dlq_save_dead [of x s r s'] by auto

definition frame :: "string \<Rightarrow> 's \<Rightarrow> 's \<Rightarrow> bool" where
  "frame k s s' \<longleftrightarrow> dom (view s') = dom (view s) \<and> (\<forall>j. j \<noteq> k \<longrightarrow> view s' j = view s j)
     \<and> dead s \<subseteq> dead s' \<and> dead s' \<subseteq> insert k (dead s)"

lemma frame_trans: "frame k s s' \<Longrightarrow> frame k s' s'' \<Longrightarrow> frame k s s''"
  by (auto simp: frame_def)

lemma frame_steps:
  "nr_Update R x s = (r, s') \<Longrightarrow> frame (n_ID x) s s'"
  "dr_Save D x s = (r, s') \<Longrightarrow> frame (n_ID x) s s'"
  "Job n env x s = (r2, s') \<Longrightarrow> frame k s s'"
  using update_frame [of x s r s'] dlq_frame [of x s r s'] job_keeps [of env x s r2 s'] by (auto simp: frame_def)

lemma process_dead: "Process n now env x s = (r, s') \<Longrightarrow> dead s' \<noteq> dead s \<Longrightarrow> wrap64 (n_RetryCount x + 1) > ns_MaxRetryCount n"
  by (auto simp: Process_def Let_def repo dlq split: prod.splits sum.splits if_splits option.splits
      dest!: update_frame job_keeps)

lemma process_frame: "Process n now env x s = (r, s') \<Longrightarrow> frame (n_ID x) s s'"
  by (auto simp: Process_def Let_def repo dlq split: prod.splits sum.splits if_splits option.splits
      dest!: frame_steps(1,2) frame_steps(3) [where k = "n_ID x"])
     (meson frame_trans)+

text \<open>Without faults the stored view is exactly the specified one.\<close>

lemma update_step:
  assumes "reliable s" and "view s (n_ID y) \<noteq> None"
  obtains s' where "nr_Update R y s = (Inr (), s')" "reliable s'" "dead s' = dead s" "st s' = st s"
    "view s' = (view s)(n_ID y \<mapsto> written (st s) y)"
  using assms update_known [of s y] update_reliable [of s y] update_dead [of y s] update_st [of y s]
  by (metis prod.collapse)

lemma process_known:
  assumes rel: "reliable s" and known: "view s (n_ID x) \<noteq> None"
    and k: "0 \<le> n_RetryCount x" "n_RetryCount x < max_int64" and max: "ns_MaxRetryCount n \<le> 33"
    and run: "Process n now env x s = (r, s')"
    and ok: "ok \<longleftrightarrow> \<not> delivery_fails n env x s"
  shows "r = Return () \<and> reliable s' \<and>
     view s' = (view s)(n_ID x \<mapsto> delivered_view (ns_MaxRetryCount n) (st s) now x ok) \<and>
     dead s' = (if ok \<or> n_RetryCount x + 1 \<le> ns_MaxRetryCount n then dead s else insert (n_ID x) (dead s))"
proof -
  let ?x1 = "x\<lparr>n_Status := Processing\<rparr>"
  obtain s1 where s1: "nr_Update R ?x1 s = (Inr (), s1)" "reliable s1" "dead s1 = dead s" "st s1 = st s"
      "view s1 = (view s)(n_ID x \<mapsto> written (st s) ?x1)"
    using update_step [of s ?x1] rel known by auto
  obtain err s2 where job: "Job n env ?x1 s1 = (err, s2)" by fastforce
  note s2 = job_keeps [OF job] job_reliable [OF job s1(2)]
  have ok': "ok \<longleftrightarrow> (\<exists>u. err = Inr u)"
    by (cases err) (simp_all add: ok delivery_fails_def repo s1(1) job)
  have w: "wrap64 (n_RetryCount x + 1) = n_RetryCount x + 1"
    using k by (intro wrap64_id) (simp_all add: min_int64_def)
  have upd: thesis if "n_ID y = n_ID x"
      "\<And>s'. nr_Update R y s2 = (Inr (), s') \<Longrightarrow> reliable s' \<Longrightarrow> dead s' = dead s \<Longrightarrow> st s' = st s \<Longrightarrow>
         view s' = (view s)(n_ID x \<mapsto> written (st s) y) \<Longrightarrow> thesis" for y thesis
    using update_step [of s2 y] s2 s1 that by auto
  consider (sent) u where "err = Inr u" | (dead) e where "err = Inl e" "n_RetryCount x + 1 > ns_MaxRetryCount n"
    | (again) e where "err = Inl e" "n_RetryCount x + 1 \<le> ns_MaxRetryCount n" by (metis linorder_not_less old.sum.exhaust)
  then show ?thesis
  proof cases
    case sent
    let ?y = "?x1\<lparr>n_Status := Sent, n_ErrorMessage := ''''\<rparr>"
    show ?thesis
      by (rule upd [of ?y], insert run ok' sent)
         (auto simp: Process_def Let_def repo s1(1) job written_def delivered_view_def)
  next
    case dead
    let ?y = "?x1\<lparr>n_RetryCount := n_RetryCount x + 1, n_ErrorMessage := e, n_Status := DLQ\<rparr>"
    obtain s3 where s3: "nr_Update R ?y s2 = (Inr (), s3)" "reliable s3" "dead s3 = dead s" "st s3 = st s"
        "view s3 = (view s)(n_ID x \<mapsto> written (st s) ?y)" by (rule upd [of ?y]) auto
    have s3': "nr_Update R (x\<lparr>n_RetryCount := n_RetryCount x + 1, n_ErrorMessage := e, n_Status := DLQ\<rparr>) s2 = (Inr (), s3)"
      using s3(1) by simp
    have "Process n now env x s = (Return (), snd (dr_Save D ?y s3))"
      using dead by (simp add: Process_def Let_def repo dlq s1(1) job w s3' case_prod_beta)
    then have "s' = snd (dr_Save D ?y s3)" "r = Return ()" using run by simp_all
    then show ?thesis using s3 dlq_save_view [of ?y s3] dlq_save_reliable [of s3 ?y] dead ok'
      by (simp add: written_def delivered_view_def)
  next
    case again
    let ?y = "?x1\<lparr>n_RetryCount := n_RetryCount x + 1, n_ErrorMessage := e,
        n_NextRetryAt := now + 2 ^ nat (n_RetryCount x + 1) * second, n_Status := Pending\<rparr>"
    have delay: "retry_delay (n_RetryCount x + 1) = Some (2 ^ nat (n_RetryCount x + 1) * second)"
      using k again max by (intro retry_delay_exact) auto
    obtain s3 where s3: "nr_Update R ?y s2 = (Inr (), s3)" "reliable s3" "dead s3 = dead s" "st s3 = st s"
        "view s3 = (view s)(n_ID x \<mapsto> written (st s) ?y)" by (rule upd [of ?y]) auto
    have "Process n now env x s = (Return (), snd (nr_Update R ?y s2))"
      using again by (simp add: Process_def Let_def repo s1(1) job w delay time_add_def case_prod_beta)
    then have "s' = s3" "r = Return ()" using run s3(1) by simp_all
    then show ?thesis using s3 again ok' by (simp add: written_def delivered_view_def)
  qed
qed

text \<open>A property of the store that the repositories and the senders keep is kept by \<open>Process\<close>.\<close>

lemma process_keeps:
  assumes "P s" and "Process n now env x s = (r, s')"
    and "\<And>y s. P s \<Longrightarrow> P (snd (nr_Update R y s))" and "\<And>y s. P s \<Longrightarrow> P (snd (dr_Save D y s))"
    and "\<And>y s. P s \<Longrightarrow> P (snd (Job n env y s))"
  shows "P s'"
  using assms(1,2)
  by (auto simp: Process_def Let_def repo dlq split: prod.splits sum.splits if_splits option.splits)
     (metis assms(3-5) snd_conv)+

end

section \<open>The system of the binary\<close>

lemma main_system_sel [simp]:
  "ns_WorkerCount (main_system w key sender u a) = w" "ns_MaxRetryCount (main_system w key sender u a) = 3"
  "ns_NotificationRepo (main_system w key sender u a) = NotificationRepository"
  "ns_TemplateRepo (main_system w key sender u a) = TemplateRepository"
  "ns_DLQRepo (main_system w key sender u a) = DLQRepository"
  "ns_SchedulerURL (main_system w key sender u a) = u" "ns_SchedulerAPIKey (main_system w key sender u a) = a"
  by (simp_all add: main_system_def)

lemma main_job_keeps:
  "pg_obs (snd (Job (main_system w key sender u a) env x d)) = pg_obs d"
  "no_faults d \<Longrightarrow> no_faults (snd (Job (main_system w key sender u a) env x d))"
  by (cases "n_Type x"; simp add: Job_def main_system_def email.send_obs push.send_obs sms.send_obs
      email.send_reliable push.send_reliable sms.send_reliable)+

lemma pg_obs_D: "pg_obs d' = pg_obs d \<Longrightarrow> pg_view d' = pg_view d \<and> pg_dead d' = pg_dead d \<and> stamp d' = stamp d"
  by (simp add: pg_obs_def pg_view_def [abs_def] pg_dead_def)

interpretation pg_backend: notification_backend NotificationRepository DLQRepository pg_view pg_dead stamp no_faults
    "main_system w key sender u a" for w key sender u a
proof (unfold_locales, goal_cases)
  case (3 env x s r s')
  then show ?case using pg_obs_D [of s' s] main_job_keeps(1) [of w key sender u a env x s] by simp
next
  case (4 env x s r s')
  then show ?case using main_job_keeps(2) [of s w key sender u a env x] by simp
qed simp_all

section \<open>The life of a notification\<close>

text \<open>
  One delivery of the notification \<open>k\<close> at the clock reading \<open>fst e\<close>: if its row is PENDING, the value that
  \<open>GetReadyJobs\<close> makes of it goes through \<open>Process\<close>.
\<close>

definition handed_out :: "string \<Rightarrow> ndb \<Rightarrow> Notification option" where
  "handed_out k d =
     (case row_of id_col k (notifications (tables d)) of
        Some r \<Rightarrow> (if status_col r = Pending
                  then (case scan_row (mark_processing r) of Inr x \<Rightarrow> Some x | Inl _ \<Rightarrow> None) else None)
      | None \<Rightarrow> None)"

definition deliver :: "ndb NotificationSystem \<Rightarrow> string \<Rightarrow> gotime \<times> send_env \<Rightarrow> ndb \<Rightarrow> ndb" where
  "deliver n k e d =
     (case handed_out k d of Some x \<Rightarrow> snd (Process n (fst e) (snd e) x d) | None \<Rightarrow> d)"

definition deliver_fails :: "ndb NotificationSystem \<Rightarrow> string \<Rightarrow> gotime \<times> send_env \<Rightarrow> ndb \<Rightarrow> bool" where
  "deliver_fails n k e d =
     (case handed_out k d of Some x \<Rightarrow> delivery_fails n (snd e) x d | None \<Rightarrow> False)"

definition status_of :: "string \<Rightarrow> ndb \<Rightarrow> NotificationStatus option" where
  "status_of k d = map_option v_status (pg_view d k)"

definition retries_of :: "string \<Rightarrow> ndb \<Rightarrow> int" where
  "retries_of k d = (case pg_view d k of Some v \<Rightarrow> v_retries v | None \<Rightarrow> 0)"

definition phase_of :: "string \<Rightarrow> ndb \<Rightarrow> phase" where
  "phase_of k d = (if status_of k d = Some Sent then Done else if status_of k d = Some DLQ then Dead else Waiting)"

text \<open>Every row scans and decodes: no row is left from before migrations 3 and 4.\<close>

definition scannable :: "ndb \<Rightarrow> bool" where
  "scannable d \<longleftrightarrow> (\<forall>r \<in> set (notifications (tables d)). \<exists>x. scan_row r = Inr x)"

lemma scan_row_ok: "(\<exists>x. scan_row r = Inr x) \<longleftrightarrow>
    user_id_col r \<noteq> None \<and> error_message_col r \<noteq> None \<and> variable_col r \<noteq> JsonOther"
  by (cases "variable_col r") (auto simp: scan_row_def split: option.splits)

lemma scannable_Update: "scannable d \<Longrightarrow> scannable (snd (NotificationRepository_Update y d))"
  by (auto simp: scannable_def scan_row_ok Update_exec update_key_def update_where_def overwrite_row_def
      split: prod.splits dest!: exec_sql_tables)

lemma scannable_DLQSave: "scannable d \<Longrightarrow> scannable (snd (DLQRepository_Save y d))"
  by (auto simp: scannable_def DLQSave_exec Let_def split: prod.splits dest!: exec_sql_tables)

lemma scannable_Process:
  assumes "scannable d"
  shows "scannable (snd (Process (main_system w key sender u a) now env x d))"
proof -
  have "scannable (snd (Job (main_system w key sender u a) env y s))" if "scannable s" for y s
    using that main_job_keeps(1) [of w key sender u a env y s] by (simp add: scannable_def pg_obs_def)
  then show ?thesis
    using pg_backend.process_keeps [of scannable, OF assms, where now = now and env = env and x = x]
      scannable_Update scannable_DLQSave by (metis notification_repo_ops prod.collapse)
qed

lemma handed_out_Some:
  assumes "handed_out k d = Some x"
  shows "n_ID x = k" and "pg_view d k = Some \<lparr>v_status = Pending, v_retries = n_RetryCount x, v_next = n_NextRetryAt x\<rparr>"
  using assms
  by (auto simp: handed_out_def pg_view_def row_view_def mark_processing_def dest!: scan_row_Inr row_of_Some_D
      split: option.splits sum.splits if_splits)

lemma handed_out_iff: "scannable d \<Longrightarrow> (\<exists>x. handed_out k d = Some x) \<longleftrightarrow> status_of k d = Some Pending"
proof (cases "row_of id_col k (notifications (tables d))")
  case (Some r)
  assume "scannable d"
  then have "\<exists>x. scan_row r = Inr x" using Some by (auto simp: scannable_def dest!: row_of_Some_D)
  then have "\<exists>x. scan_row (mark_processing r) = Inr x" by (simp add: scan_row_ok mark_processing_def)
  then show ?thesis using Some by (auto simp: handed_out_def status_of_def pg_view_def row_view_def)
qed (simp add: handed_out_def status_of_def pg_view_def)

lemma deliver_final: "phase_of k d \<noteq> Waiting \<Longrightarrow> deliver n k e d = d"
  by (cases "handed_out k d") (auto simp: deliver_def phase_of_def status_of_def dest!: handed_out_Some(2) split: if_splits)

text \<open>The store the retry machine runs on.\<close>

definition life_ok :: "string \<Rightarrow> ndb \<Rightarrow> bool" where
  "life_ok k d \<longleftrightarrow> no_faults d \<and> scannable d
     \<and> (status_of k d = Some Pending \<and> 0 \<le> retries_of k d \<and> retries_of k d \<le> 3
        \<or> status_of k d = Some Sent \<or> status_of k d = Some DLQ \<and> k \<in> pg_dead d)"

lemma deliver_cases:
  assumes "life_ok k d" and "phase_of k d = Waiting"
  obtains x d' where "handed_out k d = Some x" "n_ID x = k" "n_RetryCount x = retries_of k d"
    "deliver (main_system w key sender u a) k e d = d'" "no_faults d'" "scannable d'"
    "pg_view d' = (pg_view d)(k \<mapsto> delivered_view 3 (stamp d) (fst e) x
        (\<not> deliver_fails (main_system w key sender u a) k e d))"
    "pg_dead d' = (if \<not> deliver_fails (main_system w key sender u a) k e d \<or> retries_of k d + 1 \<le> 3
        then pg_dead d else insert k (pg_dead d))"
proof -
  let ?n = "main_system w key sender u a"
  have p: "status_of k d = Some Pending" "0 \<le> retries_of k d" "retries_of k d \<le> 3" "no_faults d" "scannable d"
    using assms by (auto simp: life_ok_def phase_of_def split: if_splits)
  then obtain x where x: "handed_out k d = Some x" using handed_out_iff by blast
  note xs = handed_out_Some [OF x]
  have r: "n_RetryCount x = retries_of k d" using xs(2) by (simp add: retries_of_def)
  obtain r' d' where run: "Process ?n (fst e) (snd e) x d = (r', d')" by fastforce
  have f: "delivery_fails ?n (snd e) x d = deliver_fails ?n k e d" by (simp add: deliver_fails_def x)
  have "scannable d'" using scannable_Process [OF p(5), of w key sender u a "fst e" "snd e" x] run by simp
  moreover have "no_faults d' \<and>
     pg_view d' = (pg_view d)(k \<mapsto> delivered_view 3 (stamp d) (fst e) x (\<not> deliver_fails ?n k e d)) \<and>
     pg_dead d' = (if \<not> deliver_fails ?n k e d \<or> retries_of k d + 1 \<le> 3 then pg_dead d else insert k (pg_dead d))"
    using pg_backend.process_known [OF p(4) _ _ _ _ run refl] p xs r f by (simp add: max_int64_def)
  moreover have "deliver ?n k e d = d'" by (simp add: deliver_def x run)
  ultimately show ?thesis using that x xs(1) r by blast
qed

interpretation life: retry_machine "deliver (main_system w key sender u a) k" "deliver_fails (main_system w key sender u a) k"
    "phase_of k" "retries_of k" "life_ok k" 3
  for w key sender u a k
proof (unfold_locales, goal_cases)
  case (1 s e)
  show ?case
  proof (cases "phase_of k s = Waiting")
    case True
    have r: "0 \<le> retries_of k s" "retries_of k s \<le> 3" using 1 True by (auto simp: life_ok_def phase_of_def)
    show ?thesis
      by (rule deliver_cases [OF 1 True, where w = w and key = key and sender = sender and u = u and a = a and e = e])
         (use r in \<open>simp add: life_ok_def status_of_def retries_of_def delivered_view_def\<close>)
  next
    case False
    then show ?thesis using 1 by (simp add: deliver_final)
  qed
next
  case (2 s)
  then show ?case by (auto simp: life_ok_def phase_of_def split: if_splits)
next
  case (3 s e)
  then show ?case by (simp add: deliver_final)
next
  case (4 s e)
  then show ?case
    by (elim deliver_cases [where w = w and key = key and sender = sender and u = u and a = a and e = e])
       (simp_all add: phase_of_def status_of_def delivered_view_def)
next
  case (5 s e)
  then show ?case
    by (elim deliver_cases [where w = w and key = key and sender = sender and u = u and a = a and e = e])
       (simp_all add: phase_of_def status_of_def delivered_view_def retries_of_def)
next
  case (6 s e)
  then show ?case
    by (elim deliver_cases [where w = w and key = key and sender = sender and u = u and a = a and e = e])
       (simp_all add: phase_of_def status_of_def delivered_view_def retries_of_def)
qed

lemma life_status:
  assumes "life_ok k d"
  shows "phase_of k d = Waiting \<longleftrightarrow> status_of k d = Some Pending" and "phase_of k d = Dead \<longleftrightarrow> status_of k d = Some DLQ"
    and "status_of k d = Some DLQ \<Longrightarrow> k \<in> pg_dead d"
    and "status_of k d = Some Pending \<or> status_of k d = Some DLQ \<or> status_of k d = Some Sent"
  using assms by (auto simp: life_ok_def phase_of_def)

text \<open>
  C8. The life of a notification: on a fault-free store, with the system of the binary, a fresh
  notification that is delivered again and again is still PENDING exactly after at most three failures
  in a row, and becomes a dead letter exactly when its first four deliveries fail; then it is in the
  dead-letter table too. Otherwise it is SENT, and nothing leaves SENT or DLQ.
\<close>

theorem notification_retry_life:
  assumes "no_faults d" and "scannable d" and "status_of k d = Some Pending" and "retries_of k d = 0"
    and n: "n = main_system w key sender u a" and d': "d' = run_steps (deliver n k) es d"
  shows "(status_of k d' = Some Pending \<longleftrightarrow> length es \<le> 3 \<and> fail_steps (deliver n k) (deliver_fails n k) es d)
     \<and> (status_of k d' = Some DLQ \<longleftrightarrow> 4 \<le> length es \<and> fail_steps (deliver n k) (deliver_fails n k) (take 4 es) d)
     \<and> (status_of k d' = Some DLQ \<longrightarrow> k \<in> pg_dead d')
     \<and> (status_of k d' = Some Pending \<or> status_of k d' = Some DLQ \<or> status_of k d' = Some Sent)
     \<and> (status_of k d' = Some Pending \<longrightarrow> retries_of k d' = int (length es))"
proof -
  have ok: "life_ok k d" "phase_of k d = Waiting" using assms(1-4) by (simp_all add: life_ok_def phase_of_def)
  note life = life_status [OF life.good_run [OF ok(1), of w key sender u a es]]
  have "4 = limit - 0 + 1 \<longleftrightarrow> limit = (3::int)" for limit by auto
  moreover have "(\<exists>m. m \<le> length es \<and> int m = 3 - 0 + 1 \<and> P m) \<longleftrightarrow> 4 \<le> length es \<and> P 4" for P
    by (auto intro!: exI [of _ 4])
  ultimately show ?thesis
    using life life.waiting_iff [OF ok, of w key sender u a es] life.dead_iff [OF ok, of w key sender u a es]
      life.waiting_retries [OF ok, of w key sender u a es]
    unfolding n d' assms(4) by auto
qed

definition push_row :: notif_row where
  "push_row = (job_row ''p'' 1 Pending (Some []))\<lparr>type_col := Push\<rparr>"

definition unlucky :: send_env where
  "unlucky = \<lparr>rand_float = 0, resend_do = (\<lambda>_. TransportError [])\<rparr>"

definition demo_system :: "ndb NotificationSystem" where
  "demo_system = main_system 5 [] [] ''http://task-scheduler:8081'' ''k''"

theorem notification_retry_life_witness:
  "status_of ''p'' (run_steps (deliver demo_system ''p'') [(10, unlucky), (20, unlucky), (30, unlucky), (40, unlucky)]
     (jobs_db 9 [push_row])) = Some DLQ"
proof -
  let ?d = "jobs_db 9 [push_row]"
  let ?es = "[(10, unlucky), (20, unlucky), (30, unlucky), (40, unlucky)]"
  have "no_faults ?d" "scannable ?d" "status_of ''p'' ?d = Some Pending" "retries_of ''p'' ?d = 0"
    by (simp_all add: jobs_db_def push_row_def job_row_def no_faults_def scannable_def scan_row_ok status_of_def
        retries_of_def pg_view_def row_of_def row_view_def)
  note life = notification_retry_life [OF this, where es = ?es, OF demo_system_def refl]
  have "fail_steps (deliver demo_system ''p'') (deliver_fails demo_system ''p'') ?es ?d"
    by (simp add: jobs_db_def push_row_def job_row_def deliver_def deliver_fails_def handed_out_def row_of_def
        mark_processing_def scan_row_def delivery_fails_def Job_def demo_system_def main_system_def
        PushSender_Send_def unlucky_def fail_rate_def Process_def Update_exec exec_sql_no_faults
        update_key_def update_where_def overwrite_row_def retry_delay_def shl1_def wrap64_def second_def time_add_def)
  then show ?thesis using life by simp
qed

text \<open>
  C19. What one delivery leaves in a fault-free store: SENT with the retry count unchanged, or PENDING with
  one retry more and due \<open>2 ^ retries\<close> seconds after the failure, or - on the failure after the third
  retry - DLQ and a dead letter. No other notification is touched, and \<open>Process\<close> does not panic.
\<close>

theorem process_outcome:
  assumes "no_faults d" and "pg_view d (n_ID x) \<noteq> None" and "0 \<le> n_RetryCount x" and "n_RetryCount x < max_int64"
    and n: "n = main_system w key sender u a" and "Process n now env x d = (r, d')"
  shows "r = Return () \<and> no_faults d' \<and>
     pg_view d' = (pg_view d)(n_ID x \<mapsto>
       (if \<not> delivery_fails n env x d
        then \<lparr>v_status = Sent, v_retries = n_RetryCount x, v_next = stamp d (n_NextRetryAt x)\<rparr>
        else if n_RetryCount x \<ge> 3
        then \<lparr>v_status = DLQ, v_retries = n_RetryCount x + 1, v_next = stamp d (n_NextRetryAt x)\<rparr>
        else \<lparr>v_status = Pending, v_retries = n_RetryCount x + 1,
              v_next = stamp d (now + 2 ^ nat (n_RetryCount x + 1) * second)\<rparr>)) \<and>
     pg_dead d' = (if delivery_fails n env x d \<and> n_RetryCount x \<ge> 3 then insert (n_ID x) (pg_dead d) else pg_dead d)"
proof -
  have "ns_MaxRetryCount (main_system w key sender u a) \<le> 33" by simp
  from pg_backend.process_known [OF assms(1-4) this assms(6) [unfolded n] refl]
  show ?thesis by (cases "delivery_fails n env x d"; cases "n_RetryCount x \<ge> 3") (simp_all add: n delivered_view_def)
qed

definition push_job :: "int \<Rightarrow> Notification" where
  "push_job k = \<lparr>n_ID = ''p'', n_Recipient = ''device'', n_Template = ''MFA'', n_Variable = [], n_RetryCount = k,
     n_CreatedAt = 1, n_Type = Push, n_Status = Processing, n_NextRetryAt = 1, n_UserID = ''u1'', n_ErrorMessage = []\<rparr>"

lemma push_fails: "n_Type x = Push \<Longrightarrow> delivery_fails (main_system w key sender u a) env x d \<longleftrightarrow> rand_float env < fail_rate"
  by (simp add: delivery_fails_def Job_def main_system_def PushSender_Send_def fail_rate_def split: prod.split)

theorem process_outcome_witness:
  "map_option v_next (pg_view (snd (Process demo_system 10 unlucky (push_job 2) (jobs_db 9 [push_row]))) ''p'')
     = Some (10 + 8 * second)
   \<and> pg_dead (snd (Process demo_system 10 unlucky (push_job 3) (jobs_db 9 [push_row]))) = {''p''}"
proof -
  let ?d = "jobs_db 9 [push_row]"
  have "no_faults ?d" "pg_view ?d (n_ID (push_job k)) \<noteq> None" "pg_dead ?d = {}" "stamp ?d = id" for k
    by (simp_all add: jobs_db_def push_row_def job_row_def no_faults_def pg_view_def row_of_def push_job_def pg_dead_def)
  note d = this
  have f: "delivery_fails demo_system unlucky (push_job k) ?d" for k
    unfolding demo_system_def by (subst push_fails) (simp_all add: push_job_def unlucky_def fail_rate_def)
  show ?thesis
    using process_outcome [OF d(1,2) _ _ demo_system_def prod.collapse [symmetric], of 2 10 unlucky]
      process_outcome [OF d(1,2) _ _ demo_system_def prod.collapse [symmetric], of 3 10 unlucky] f d(3,4)
    by (simp add: push_job_def max_int64_def)
qed

text \<open>
  Whatever statements fail while \<open>Process\<close> runs, it changes at most the notification it was given:
  no notification appears or disappears, all others keep their state, the only dead letter it may add
  is this one, and only when its retries are used up.
\<close>

lemma process_contained:
  assumes "Process (main_system w key sender u a) now env x d = (r, d')"
  shows "dom (pg_view d') = dom (pg_view d) \<and> (\<forall>k. k \<noteq> n_ID x \<longrightarrow> pg_view d' k = pg_view d k)
     \<and> pg_dead d \<subseteq> pg_dead d' \<and> pg_dead d' \<subseteq> insert (n_ID x) (pg_dead d)
     \<and> (pg_dead d' \<noteq> pg_dead d \<longrightarrow> wrap64 (n_RetryCount x + 1) > 3)"
  using pg_backend.process_frame [OF assms] pg_backend.process_dead [OF assms]
  by (simp add: pg_backend.frame_def)

lemma process_contained_witness:
  "\<exists>d'. d' = snd (Process demo_system 10 unlucky (push_job 0) ((jobs_db 9 [push_row])\<lparr>faults := [FailAfter ErrNoRows]\<rparr>))
     \<and> pg_view d' ''other'' = None \<and> pg_dead d' = {}"
proof -
  let ?d = "(jobs_db 9 [push_row])\<lparr>faults := [FailAfter ErrNoRows]\<rparr>"
  have "pg_view ?d ''other'' = None" "pg_dead ?d = {}" "wrap64 (n_RetryCount (push_job 0) + 1) = 1"
    by (simp_all add: jobs_db_def push_row_def job_row_def pg_view_def row_of_def pg_dead_def push_job_def wrap64_def)
  with process_contained [of 5 "[]" "[]" "''http://task-scheduler:8081''" "''k''" 10 unlucky "push_job 0" ?d,
      OF prod.collapse [symmetric]]
  show ?thesis by (auto simp: demo_system_def push_job_def)
qed

text \<open>
  The back-off is exactly \<open>2 ^ k\<close> seconds for every retry count up to 33; the multiplication by a
  second overflows at 34, where the delay becomes negative (the binary stops at 3).
\<close>

lemma retry_delay_bounds:
  "(\<forall>k \<in> {0..33}. retry_delay k = Some (2 ^ nat k * second)) \<and> retry_delay 34 = Some (- 1266874889709551616)
   \<and> retry_delay (- 1) = None"
  using retry_delay_exact by (auto simp: retry_delay_def shl1_def wrap64_def second_def)

lemma retry_delay_bounds_witness: "retry_delay 3 = Some (8 * second)"
  using retry_delay_bounds by simp

section \<open>Workers\<close>

fun process_all :: "'s NotificationSystem \<Rightarrow> (Notification \<times> gotime \<times> send_env) list \<Rightarrow> 's \<Rightarrow> 's" where
  "process_all n [] s = s"
| "process_all n ((x, now, env) # xs) s = process_all n xs (snd (Process n now env x s))"

lemma Worker_queue:
  "length evs = length q \<Longrightarrow> \<not> ctx_done rt \<Longrightarrow> channel rt = q @ rest \<Longrightarrow>
   Worker n evs rt = (WorkerIdle, rt\<lparr>channel := rest, store := process_all n (zip q (map snd evs)) (store rt)\<rparr>)"
proof (induction evs q arbitrary: rt rule: list_induct2)
  case Nil
  then show ?case by simp
next
  case (Cons ev evs x q)
  obtain pick now env where ev: "ev = (pick, now, env)" by (cases ev)
  have "Worker_step n pick now env rt =
      (WorkerProcessed, rt\<lparr>channel := q @ rest, store := snd (Process n now env x (store rt))\<rparr>)"
    using Cons.prems by (simp add: Worker_step_def)
  then show ?case using Cons.IH [of "rt\<lparr>channel := q @ rest, store := snd (Process n now env x (store rt))\<rparr>"] Cons.prems
    by (simp add: ev)
qed

text \<open>
  A worker processes what is in the channel in order and exactly once: with the context alive, its
  first \<open>m\<close> iterations consume the first \<open>m\<close> entries, run \<open>Process\<close> on each, and leave the rest; it goes on
  waiting when the channel is empty. Once the channel is closed and empty, it leaves and is counted out.
\<close>

lemma worker_fifo:
  assumes "\<not> ctx_done rt" and "channel rt = q @ rest" and "length evs = length q"
  shows "Worker n evs rt = (WorkerIdle, rt\<lparr>channel := rest, store := process_all n (zip q (map snd evs)) (store rt)\<rparr>)
     \<and> (rest = [] \<longrightarrow> Worker n (evs @ [ev]) rt =
          (let rt' = rt\<lparr>channel := [], store := process_all n (zip q (map snd evs)) (store rt)\<rparr>
           in if ch_closed rt then (WorkerExit, rt'\<lparr>live_workers := live_workers rt - 1\<rparr>) else (WorkerIdle, rt')))"
proof -
  have app: "Worker n (evs @ [ev]) rt = (case Worker n evs rt of
      (WorkerExit, rt') \<Rightarrow> (WorkerExit, rt') | (_, rt') \<Rightarrow> Worker n [ev] rt')" for evs and rt :: "'a runtime"
    by (induction n evs rt rule: Worker.induct) (auto split: prod.splits worker_step.splits)
  note w = Worker_queue [OF assms(3,1,2), of n]
  show ?thesis using w app [of evs rt] assms(1)
    by (cases ev) (auto simp: Let_def Worker_step_def)
qed

lemma worker_fifo_witness:
  "fst (Worker demo_system [(True, 10, unlucky), (False, 11, unlucky)]
     ((main_runtime (jobs_db 9 [push_row]))\<lparr>channel := [push_job 0, push_job 1]\<rparr>)) = WorkerIdle"
  using worker_fifo [of "(main_runtime (jobs_db 9 [push_row]))\<lparr>channel := [push_job 0, push_job 1]\<rparr>"
      "[push_job 0, push_job 1]" "[]" "[(True, 10, unlucky), (False, 11, unlucky)]" demo_system]
  by (simp add: main_runtime_def)

end
