(* ===== verification/Lifecycle.thy ===== *)
theory Lifecycle
  imports Delivery
begin

text \<open>
  From \<open>CreateNotification\<close> to \<open>Shutdown\<close>: acceptance and its limit of 100 notifications, the hand-over to
  the channel by the creator and by the retry scheduler, and what a shutdown leaves behind.
\<close>

section \<open>Frames\<close>

definition row_count :: "ndb \<Rightarrow> nat" where
  "row_count d = length (notifications (tables d))"

lemma GetTotalCount_cases:
  assumes "NotificationRepository_GetTotalCount d = (r, d')"
  shows "pg_obs d' = pg_obs d \<and> (r = Inr (int (row_count d)) \<or> (\<exists>e. r = Inl e)) \<and> (no_faults d \<longrightarrow> no_faults d')"
proof -
  obtain c d1 where c: "exec_sql (\<lambda>t. (Inr (int (length (notifications t))), t)) d = (c, d1)" by fastforce
  have "d' = d1" "r = Inr (int (row_count d)) \<or> (\<exists>e. r = Inl e)"
    using assms c exec_sql_ok [of "\<lambda>t. (Inr (int (length (notifications t))), t)" d _ d1]
    by (auto simp: NotificationRepository_GetTotalCount_def row_count_def split: sum.splits)
  then show ?thesis
    using frame_of_read [OF c] exec_sql_frameD [OF c]
      no_faults_exec [of d "\<lambda>t. (Inr (int (length (notifications t))), t)"] c by (simp add: pg_obs_def)
qed

lemma GetTotalCount_reliable:
  "no_faults d \<Longrightarrow> NotificationRepository_GetTotalCount d = (Inr (int (row_count d)), d)"
  by (simp add: NotificationRepository_GetTotalCount_def row_count_def exec_sql_no_faults no_faults_def)

lemma Save_rows:
  "NotificationRepository_Save x d = (r, d') \<Longrightarrow> row_count d' \<le> row_count d + 1"
  by (cases rule: insert_row_cases [of id_col
        "row_of_notification (stamp d) (JsonVars (n_Variable x)) (norm_user (n_UserID x)) x" "notifications (tables d)"])
     (auto simp: Save_exec row_count_def split: prod.splits dest!: exec_sql_tables)

lemma Save_rows_ok:
  assumes "no_faults d" and "pg_view d (n_ID x) = None"
  shows "row_count (snd (NotificationRepository_Save x d)) = row_count d + 1"
proof (cases rule: insert_row_cases [of id_col
        "row_of_notification (stamp d) (JsonVars (n_Variable x)) (norm_user (n_UserID x)) x" "notifications (tables d)"])
  case inserted
  then show ?thesis using assms(1) by (simp add: Save_exec row_count_def no_faults_def exec_sql_no_faults)
next
  case duplicate
  then show ?thesis using assms(2) by (simp add: pg_view_def)
qed

lemma create_checks_frame:
  assumes "create_checks (main_system w key sender u a) name user rt = (r, rt')"
  shows "rt' = rt\<lparr>store := store rt'\<rparr>" and "pg_obs (store rt') = pg_obs (store rt)"
    and "no_faults (store rt) \<Longrightarrow> no_faults (store rt')"
    and "r = Inr () \<Longrightarrow> \<not> shutting_down rt \<and> row_count (store rt) < 100"
proof -
  obtain c d1 where c: "NotificationRepository_GetTotalCount (store rt) = (c, d1)" by fastforce
  obtain t d2 where t: "TemplateRepository_Get name user d1 = (t, d2)" by fastforce
  have "pg_obs d2 = pg_obs d1" using Template_Get_obs [of name user d1] t by simp
  moreover have "no_faults d1 \<longrightarrow> no_faults d2" using pg_templates.reliable_get [of d1 name user] t by simp
  moreover have "pg_obs d1 = pg_obs (store rt)" using GetTotalCount_cases [OF c] by simp
  ultimately show "rt' = rt\<lparr>store := store rt'\<rparr>" "pg_obs (store rt') = pg_obs (store rt)"
      "no_faults (store rt) \<Longrightarrow> no_faults (store rt')" "r = Inr () \<Longrightarrow> \<not> shutting_down rt \<and> row_count (store rt) < 100"
    using assms GetTotalCount_cases [OF c]
    by (auto simp: create_checks_def max_total_def c t split: if_splits sum.splits)
qed

text \<open>On a fault-free store the checks read only.\<close>

lemma create_checks_result:
  assumes "no_faults (store rt)"
  shows "fst (create_checks (main_system w key sender u a) name user rt) =
     (if shutting_down rt then Inl ''notification system is shutting down''
      else if row_count (store rt) \<ge> 100
      then Inl ''system threshold exceeded: maximum limit of 100 total notifications reached''
      else if resolve (pg_template_view (store rt)) user name = None
      then Inl (''invalid template name: template not found: '' @ name) else Inr ())"
  using GetTotalCount_reliable [OF assms] pg_templates.reliable_get [OF assms, of name user] assms
  by (auto simp: create_checks_def max_total_def split: prod.splits sum.splits option.splits)

section \<open>Acceptance\<close>

lemma new_notification_sel [simp]:
  "n_ID (new_notification now1 now2 uuid a) = uuid" "n_UserID (new_notification now1 now2 uuid a) = ca_userID a"
  "n_Type (new_notification now1 now2 uuid a) = ca_type a"
  "n_CreatedAt (new_notification now1 now2 uuid a) = now2"
  "written st (new_notification now1 now2 uuid a) =
     (if is_zero (ca_executeAt a) then \<lparr>v_status = Pending, v_retries = 0, v_next = st now1\<rparr>
      else \<lparr>v_status = Scheduled, v_retries = 0, v_next = st (ca_executeAt a)\<rparr>)"
  by (simp_all add: new_notification_def written_def)

text \<open>
  \<open>CreateNotification\<close> refuses, on a fault-free store, exactly when the system is shutting down, the
  table holds 100 notifications, or the template does not resolve for the user - with the message of
  the first of these that applies, and without changing a table or the channel.
\<close>

lemma create_rejects:
  assumes "no_faults (store rt)" and "pg_view (store rt) uuid = None"
    and run: "CreateNotification (main_system w key sender u a) intr pick now1 now2 uuid arg rt = (r, rt')"
    and bad: "shutting_down rt \<or> row_count (store rt) \<ge> 100
        \<or> resolve (pg_template_view (store rt)) (ca_userID arg) (ca_template arg) = None"
  shows "r = Return (Inl
       (if shutting_down rt then ''notification system is shutting down''
        else if row_count (store rt) \<ge> 100
        then ''system threshold exceeded: maximum limit of 100 total notifications reached''
        else ''invalid template name: template not found: '' @ ca_template arg))
     \<and> tables (store rt') = tables (store rt) \<and> rt' = rt\<lparr>store := store rt'\<rparr>"
proof -
  obtain c rt1 where c: "create_checks (main_system w key sender u a) (ca_template arg) (ca_userID arg) rt = (c, rt1)"
    by fastforce
  note res = create_checks_result [OF assms(1), of w key sender u a "ca_template arg" "ca_userID arg", unfolded c fst_conv]
  then obtain e where e: "c = Inl e" using bad by (auto split: if_splits)
  then have "r = Return (Inl e)" "rt' = rt1" using run by (simp_all add: CreateNotification_def c)
  then show ?thesis using res bad e create_checks_frame(1,2) [OF c] by (auto simp: pg_obs_def)
qed

definition demo_args :: "gotime \<Rightarrow> create_args" where
  "demo_args execute_at = \<lparr>ca_template = ''MFA'', ca_variable = [], ca_type = Push, ca_recipient = ''device'',
     ca_userID = ''u1'', ca_executeAt = execute_at\<rparr>"

text \<open>A store with \<open>m\<close> old notifications and one template.\<close>

definition full_db :: "nat \<Rightarrow> ndb" where
  "full_db m = \<lparr>tables = \<lparr>notifications = map (\<lambda>i. job_row (replicate i CHR ''x'') 1 Sent (Some [])) [0..<m],
     dlq_notifications = [], templates = [\<lparr>tname_col = ''MFA'', tbody_col = ''code'', tuser_col = ''u1''\<rparr>]\<rparr>,
     faults = [], db_now = 0, row_locked = (\<lambda>_. False), ret_rank = (\<lambda>_. 0), stamp = id\<rparr>"

lemma full_db_facts:
  "no_faults (full_db m)" "row_count (full_db m) = m" "scannable (full_db m)"
  "keyed id_col (notifications (tables (full_db m)))"
  "CHR ''a'' \<in> set k \<Longrightarrow> pg_view (full_db m) k = None"
  "resolve (pg_template_view (full_db m)) ''u1'' ''MFA'' = Some ''code''"
  "stamp (full_db m) = id"
proof -
  let ?rows = "notifications (tables (full_db m))"
  have ids: "map id_col ?rows = map (\<lambda>i. replicate i CHR ''x'') [0..<m]"
    by (simp add: full_db_def job_row_def comp_def)
  have "inj (\<lambda>i. replicate i CHR ''x'')" by (rule inj_on_inverseI [of _ length]) simp
  then show "keyed id_col ?rows" unfolding keyed_def ids distinct_map
    using inj_on_subset [OF _ subset_UNIV] by auto
  have "id_col ` set ?rows = (\<lambda>i. replicate i CHR ''x'') ` {0..<m}"
    using arg_cong [OF ids, of set] by simp
  then show "CHR ''a'' \<in> set k \<Longrightarrow> pg_view (full_db m) k = None" by (auto simp: pg_view_def row_of_None_iff)
  show "scannable (full_db m)" by (auto simp: full_db_def scannable_def scan_row_ok job_row_def)
qed (simp_all add: full_db_def no_faults_def row_count_def resolve_def pg_template_view_def norm_user_def row_of_def template_key_def)

lemma main_runtime_sel [simp]:
  "store (main_runtime d) = d" "channel (main_runtime d) = []" "capacity (main_runtime d) = 256"
  "\<not> ch_closed (main_runtime d)" "\<not> shutting_down (main_runtime d)" "\<not> ctx_done (main_runtime d)"
  "live_workers (main_runtime d) = 0"
  by (simp_all add: main_runtime_def)

lemma create_rejects_witness:
  "fst (CreateNotification demo_system id True 5 5 ''a'' (demo_args 0) (main_runtime (full_db 100))) =
     Return (Inl ''system threshold exceeded: maximum limit of 100 total notifications reached'')"
proof -
  have "no_faults (store (main_runtime (full_db 100)))" "pg_view (store (main_runtime (full_db 100))) ''a'' = None"
    by (simp_all add: full_db_facts)
  from create_rejects [OF this prod.collapse [symmetric], where w = 5 and key = "[]" and sender = "[]" and u = "''http://task-scheduler:8081''" and a = "''k''"
      and intr = id and pick = True and ?now1.0 = 5 and ?now2.0 = 5 and arg = "demo_args 0"]
  show ?thesis by (simp add: demo_system_def full_db_facts)
qed

text \<open>
  Otherwise it stores the notification under its fresh id: SCHEDULED and due at the requested time,
  outside the channel - or PENDING, due at once and appended to the channel when that has room.
\<close>

lemma create_accepts:
  assumes "no_faults (store rt)" and "pg_view (store rt) uuid = None" and "\<not> shutting_down rt"
    and "row_count (store rt) < 100" and "resolve (pg_template_view (store rt)) (ca_userID arg) (ca_template arg) \<noteq> None"
    and "\<not> ctx_done rt" and "\<not> ch_closed rt" and "length (channel rt) < capacity rt"
  shows "\<exists>rt'. CreateNotification (main_system w key sender u a) id pick now1 now2 uuid arg rt =
       (Return (Inr (new_notification now1 now2 uuid arg)), rt')
     \<and> no_faults (store rt') \<and> row_count (store rt') = row_count (store rt) + 1
     \<and> pg_view (store rt') = (pg_view (store rt))(uuid \<mapsto>
          (if is_zero (ca_executeAt arg) then \<lparr>v_status = Pending, v_retries = 0, v_next = stamp (store rt) now1\<rparr>
           else \<lparr>v_status = Scheduled, v_retries = 0, v_next = stamp (store rt) (ca_executeAt arg)\<rparr>))
     \<and> channel rt' = channel rt @ (if is_zero (ca_executeAt arg) then [new_notification now1 now2 uuid arg] else [])"
proof -
  let ?x = "new_notification now1 now2 uuid arg"
  obtain c rt1 where c: "create_checks (main_system w key sender u a) (ca_template arg) (ca_userID arg) rt = (c, rt1)"
    by fastforce
  have c1: "c = Inr ()"
    using create_checks_result [OF assms(1), of w key sender u a "ca_template arg" "ca_userID arg", unfolded c fst_conv]
      assms(3-5) by simp
  note f = create_checks_frame [OF c]
  have v: "pg_view (store rt1) = pg_view (store rt)" "stamp (store rt1) = stamp (store rt)"
      "row_count (store rt1) = row_count (store rt)"
    using f(2) by (simp_all add: pg_obs_def pg_view_def [abs_def] row_count_def)
  obtain s d2 where s: "NotificationRepository_Save ?x (store rt1) = (s, d2)" by fastforce
  have s1: "s = Inr ()" "no_faults d2"
    using pg_notifications.save_reliable [OF f(3) [OF assms(1)], of ?x] s v assms(2) by simp_all
  then have d2: "pg_view d2 = (pg_view (store rt))(uuid \<mapsto> written (stamp (store rt)) ?x)"
    using pg_notifications.save_view [of ?x "store rt1" s d2] s v by simp
  have "row_count d2 = row_count (store rt) + 1"
    using Save_rows_ok [OF f(3) [OF assms(1)], of ?x] s v assms(2) by simp
  moreover have "rt1 = rt\<lparr>store := store rt1\<rparr>" by (rule f(1))
  then have "channel rt1 = channel rt" "capacity rt1 = capacity rt" "ctx_done rt1 = ctx_done rt" "ch_closed rt1 = ch_closed rt"
    by (metis runtime.select_convs runtime.update_convs runtime.surjective)+
  ultimately show ?thesis
    using d2 s1 s assms(6-8)
    by (simp add: CreateNotification_def c c1 create_commit_def select_send_or_done_def push_def Let_def)
qed

lemma create_accepts_witness:
  "\<exists>rt'. CreateNotification demo_system id True 5 5 ''a'' (demo_args 0) (main_runtime (full_db 2)) =
       (Return (Inr (new_notification 5 5 ''a'' (demo_args 0))), rt')
     \<and> row_count (store rt') = 3 \<and> channel rt' = [new_notification 5 5 ''a'' (demo_args 0)]"
  using create_accepts [where rt = "main_runtime (full_db 2)" and uuid = "''a''" and arg = "demo_args 0" and pick = True
      and ?now1.0 = 5 and ?now2.0 = 5, where w = 5 and key = "[]" and sender = "[]" and u = "''http://task-scheduler:8081''" and a = "''k''"]
  by (fastforce simp: demo_system_def full_db_facts demo_args_def is_zero_def zero_time_def)

lemma create_commit_rows:
  assumes "create_commit (main_system w key sender u a) id pick x arg rt = (r, rt')"
  shows "row_count (store rt') \<le> row_count (store rt) + 1"
proof -
  obtain c d where c: "NotificationRepository_Save x (store rt) = (c, d)" by fastforce
  have "store rt' = d"
    using assms c by (auto simp: create_commit_def Let_def push_def split: sum.splits if_splits select_send.splits)
  then show ?thesis using Save_rows [OF c] by simp
qed

text \<open>
  The limit holds when creations do not overlap: whatever statements fail, a creation that runs
  alone never takes the table beyond 100 rows.
\<close>

lemma threshold_sequential:
  assumes "row_count (store rt) \<le> 100"
    and "CreateNotification (main_system w key sender u a) id pick now1 now2 uuid arg rt = (r, rt')"
  shows "row_count (store rt') \<le> 100"
proof -
  obtain c rt1 where c: "create_checks (main_system w key sender u a) (ca_template arg) (ca_userID arg) rt = (c, rt1)"
    by fastforce
  note f = create_checks_frame(2,4) [OF c]
  have same: "row_count (store rt1) = row_count (store rt)" using f(1) by (simp add: row_count_def pg_obs_def)
  show ?thesis
  proof (cases c)
    case (Inl e)
    then show ?thesis using assms same by (simp add: CreateNotification_def c)
  next
    case (Inr v)
    then have "create_commit (main_system w key sender u a) id pick (new_notification now1 now2 uuid arg) arg rt1 = (r, rt')"
      using assms(2) by (simp add: CreateNotification_def c)
    from create_commit_rows [OF this] show ?thesis using f(2) Inr same by simp
  qed
qed

lemma threshold_sequential_witness:
  "row_count (store (snd (CreateNotification demo_system id True 5 5 ''a'' (demo_args 0) (main_runtime (full_db 100))))) \<le> 100"
  using threshold_sequential [OF _ prod.collapse [symmetric], where rt = "main_runtime (full_db 100)" and pick = True
      and ?now1.0 = 5 and ?now2.0 = 5 and uuid = "''a''" and arg = "demo_args 0", where w = 5 and key = "[]" and sender = "[]" and u = "''http://task-scheduler:8081''" and a = "''k''"]
  by (simp add: demo_system_def full_db_facts)

text \<open>
  It does not hold for requests that overlap: the count is read before the insert, so two creators
  that both pass the checks at 99 rows leave 101.
\<close>

lemma threshold_race:
  assumes "no_faults (store rt)" and "row_count (store rt) = 99" and "\<not> shutting_down rt"
    and "resolve (pg_template_view (store rt)) (ca_userID arg) (ca_template arg) \<noteq> None"
    and "\<not> is_zero (ca_executeAt arg)" and "u1 \<noteq> u2"
    and "pg_view (store rt) u1 = None" and "pg_view (store rt) u2 = None"
    and n: "n = main_system w key sender u a"
  shows "\<exists>rt1 rt2 rt3 rt4 x1 x2.
       create_checks n (ca_template arg) (ca_userID arg) rt = (Inr (), rt1)
     \<and> create_checks n (ca_template arg) (ca_userID arg) rt1 = (Inr (), rt2)
     \<and> create_commit n id True (new_notification t1 t1 u1 arg) arg rt2 = (Return (Inr x1), rt3)
     \<and> create_commit n id True (new_notification t2 t2 u2 arg) arg rt3 = (Return (Inr x2), rt4)
     \<and> row_count (store rt4) = 101"
proof -
  obtain c1 rt1 where c1: "create_checks n (ca_template arg) (ca_userID arg) rt = (c1, rt1)" by fastforce
  note f1 = create_checks_frame [OF c1 [unfolded n]]
  note r1 = create_checks_result [OF assms(1), of w key sender u a "ca_template arg" "ca_userID arg"]
  have "c1 = Inr ()" using r1 c1 assms(2-4) by (simp add: n)
  have o1: "tables (store rt1) = tables (store rt)" "\<not> shutting_down rt1"
    using f1(2) assms(3) by (simp add: pg_obs_def, subst f1(1)) simp
  obtain c2 rt2 where c2: "create_checks n (ca_template arg) (ca_userID arg) rt1 = (c2, rt2)" by fastforce
  note f2 = create_checks_frame [OF c2 [unfolded n]]
  have "c2 = Inr ()"
    using create_checks_result [OF f1(3) [OF assms(1)], of w key sender u a "ca_template arg" "ca_userID arg"] c2 o1 assms(2-4)
    by (simp add: n row_count_def pg_template_view_def [abs_def])
  have t2: "tables (store rt2) = tables (store rt)" using f2(2) o1 by (simp add: pg_obs_def)
  then have v2: "pg_view (store rt2) = pg_view (store rt)" "row_count (store rt2) = 99"
    using assms(2) by (simp_all add: pg_view_def [abs_def] row_count_def)
  have nf: "no_faults (store rt2)" using f1(3) f2(3) assms(1) by simp
  let ?x1 = "new_notification t1 t1 u1 arg" and ?x2 = "new_notification t2 t2 u2 arg"
  obtain s1 d1 where s1: "NotificationRepository_Save ?x1 (store rt2) = (s1, d1)" by fastforce
  have p1: "s1 = Inr ()" "no_faults d1" "row_count d1 = 100"
    using pg_notifications.save_reliable [OF nf, of ?x1] Save_rows_ok [OF nf, of ?x1] s1 v2 assms(7) by simp_all
  have v3: "pg_view d1 u2 = None"
    using pg_notifications.save_view [of ?x1 "store rt2" s1 d1] s1 p1 v2 assms(6,8) by auto
  obtain s2 d2 where s2: "NotificationRepository_Save ?x2 d1 = (s2, d2)" by fastforce
  have p2: "s2 = Inr ()" "row_count d2 = 101"
    using pg_notifications.save_reliable [OF p1(2), of ?x2] Save_rows_ok [OF p1(2), of ?x2] s2 v3 p1(3) by simp_all
  show ?thesis
    using c1 c2 \<open>c1 = Inr ()\<close> \<open>c2 = Inr ()\<close> s1 s2 p1 p2 assms(5)
    by (intro exI [of _ rt1] exI [of _ rt2] exI [of _ "rt2\<lparr>store := d1\<rparr>"] exI [of _ "rt2\<lparr>store := d2\<rparr>"] exI [of _ ?x1] exI [of _ ?x2])
       (simp add: create_commit_def n)
qed

lemma threshold_race_witness:
  "\<exists>rt1 rt2. create_checks demo_system ''MFA'' ''u1'' (main_runtime (full_db 99)) = (Inr (), rt1)
     \<and> create_checks demo_system ''MFA'' ''u1'' rt1 = (Inr (), rt2)"
  using threshold_race [where rt = "main_runtime (full_db 99)" and arg = "demo_args 7" and ?u1.0 = "''a''" and ?u2.0 = "''aa''"
      and n = demo_system, where w = 5 and key = "[]" and sender = "[]" and u = "''http://task-scheduler:8081''" and a = "''k''"]
  by (fastforce simp: demo_system_def full_db_facts demo_args_def is_zero_def zero_time_def)

section \<open>The channel\<close>

text \<open>What one poll hands over: a prefix of the claimed jobs, all of them when the loop goes on.\<close>

definition quiet :: "('s runtime \<Rightarrow> 's runtime) \<Rightarrow> bool" where
  "quiet f \<longleftrightarrow> (\<forall>rt. channel (f rt) = channel rt \<and> store (f rt) = store rt)"

lemma enqueue_prefix:
  "enqueue_jobs intr picks i jobs rt = (r, rt') \<Longrightarrow> (\<And>j. quiet (intr j)) \<Longrightarrow>
   store rt' = store rt \<and> (\<exists>m. channel rt' = channel rt @ take m jobs \<and> (r = LoopContinue \<longrightarrow> take m jobs = jobs))"
proof (induction jobs arbitrary: i rt)
  case Nil
  then show ?case by auto
next
  case (Cons job jobs)
  let ?rt1 = "intr (2 * i) rt" let ?rt2 = "intr (2 * i + 1) ?rt1"
  have same: "channel ?rt1 = channel rt" "store ?rt1 = store rt" "channel ?rt2 = channel rt" "store ?rt2 = store rt"
    using Cons.prems(2) [of "2 * i"] Cons.prems(2) [of "2 * i + 1"] by (auto simp: quiet_def)
  have stop: ?case if "store rt' = store rt" "channel rt' = channel rt" "r \<noteq> LoopContinue"
    using that by (intro conjI exI [of _ 0]) auto
  show ?case
  proof (cases "shutting_down ?rt1")
    case True
    then show ?thesis using Cons.prems(1) same by (intro stop) (auto simp: Let_def)
  next
    case False
    show ?thesis
    proof (cases "select_send_or_done (picks i) ?rt2")
      case SendChosen
      then have "enqueue_jobs intr picks (Suc i) jobs (push job ?rt2) = (r, rt')"
        using Cons.prems(1) False by (simp add: Let_def)
      from Cons.IH [OF this Cons.prems(2)] obtain m where
        "store rt' = store rt" "channel rt' = (channel rt @ [job]) @ take m jobs" "r = LoopContinue \<longrightarrow> take m jobs = jobs"
        using same by (auto simp: push_def)
      then show ?thesis by (intro conjI exI [of _ "Suc m"]) auto
    qed (use Cons.prems(1) same False in \<open>auto simp: Let_def intro!: stop\<close>)
  qed
qed

lemma scannable_Save: "scannable d \<Longrightarrow> scannable (snd (NotificationRepository_Save y d))"
  by (cases rule: insert_row_cases [of id_col
        "row_of_notification (stamp d) (JsonVars (n_Variable y)) (norm_user (n_UserID y)) y" "notifications (tables d)"])
     (auto simp: scannable_def scan_row_ok Save_exec row_of_notification_def split: prod.splits dest!: exec_sql_tables)

lemma scan_jobs_total: "(\<forall>r \<in> set rows. \<exists>x. scan_row r = Inr x) \<Longrightarrow> \<exists>ns. scan_jobs rows = Inr ns"
  by (induction rows) auto

lemma GetReadyJobs_reliable:
  assumes "no_faults d" and "scannable d"
  obtains ns d' where "NotificationRepository_GetReadyJobs d = (Inr ns, d')"
proof -
  have "set (fst (claim_ready_jobs d (notifications (tables d)))) \<subseteq> (\<lambda>r. r) ` set (notifications (tables d))
      \<union> mark_processing ` set (notifications (tables d))"
    by (auto simp: claim_ready_jobs_def claim_rows_def Let_def update_where_def)
  moreover have "\<exists>x. scan_row r = Inr x"
    if "r \<in> (\<lambda>r. r) ` set (notifications (tables d)) \<union> mark_processing ` set (notifications (tables d))" for r
    using that assms(2) by (auto simp: scannable_def scan_row_ok mark_processing_def)
  ultimately have "\<forall>r \<in> set (fst (claim_ready_jobs d (notifications (tables d)))). \<exists>x. scan_row r = Inr x" by blast
  then obtain ns where "scan_jobs (fst (claim_ready_jobs d (notifications (tables d)))) = Inr ns"
    using scan_jobs_total by blast
  then show thesis
    using that assms(1)
    by (cases "claim_ready_jobs d (notifications (tables d))")
       (auto simp: NotificationRepository_GetReadyJobs_def exec_sql_no_faults no_faults_def rows_err_def)
qed

lemma tick_cases:
  assumes "RetryScheduler_tick (main_system w key sender u a) intr picks False rt = (r, rt')" and "\<And>j. quiet (intr j)"
  obtains (error) e where "r = LoopContinue" "NotificationRepository_GetReadyJobs (store rt) = (Inl e, store rt')"
      "channel rt' = channel rt"
    | (claimed) ns m where "NotificationRepository_GetReadyJobs (store rt) = (Inr ns, store rt')"
      "channel rt' = channel rt @ take m ns" "r = LoopContinue \<longrightarrow> take m ns = ns"
proof -
  obtain g d where g: "NotificationRepository_GetReadyJobs (store rt) = (g, d)" by fastforce
  show thesis
  proof (cases g)
    case (Inl e)
    then show thesis using assms(1) error g by (auto simp: RetryScheduler_tick_def)
  next
    case (Inr ns)
    then have "enqueue_jobs intr picks 0 ns (rt\<lparr>store := d\<rparr>) = (r, rt')"
      using assms(1) g by (simp add: RetryScheduler_tick_def)
    from enqueue_prefix [OF this assms(2)] claimed g Inr show thesis by auto
  qed
qed

text \<open>
  C33. An immediate notification is handed to the workers twice: it is stored as PENDING and due, and
  it is pushed to the channel too. A poll before a worker takes it from the channel claims the row and
  pushes it once more.
\<close>

theorem immediate_handed_over_twice:
  assumes "no_faults (store rt)" and "scannable (store rt)" and "keyed id_col (notifications (tables (store rt)))"
    and "is_zero (ca_executeAt arg)"
    and created: "CreateNotification (main_system w key sender u a) id pick now1 now2 uuid arg rt = (Return (Inr x), rt1)"
    and later: "rt1' = rt1\<lparr>store := (store rt1)\<lparr>db_now := later\<rparr>\<rparr>" "stamp (store rt) now1 \<le> later"
    and room: "length (filter (\<lambda>r. job_ready later r \<and> \<not> row_locked (store rt1) (id_col r))
        (notifications (tables (store rt1)))) \<le> 50" and "\<not> row_locked (store rt1) uuid"
    and tick: "RetryScheduler_tick (main_system w key sender u a) (\<lambda>_. id) picks False rt1' = (LoopContinue, rt2)"
  shows "2 \<le> length (filter (\<lambda>y. n_ID y = uuid) (channel rt2))"
proof -
  let ?x = "new_notification now1 now2 uuid arg"
  obtain c rt0 where c: "create_checks (main_system w key sender u a) (ca_template arg) (ca_userID arg) rt = (c, rt0)"
    by fastforce
  note f = create_checks_frame [OF c]
  obtain s d where s: "NotificationRepository_Save ?x (store rt0) = (s, d)" by fastforce
  have ok: "c = Inr ()" "s = Inr ()" "rt1 = push ?x (rt0\<lparr>store := d\<rparr>)"
    using created assms(4) c s
    by (auto simp: CreateNotification_def create_commit_def Let_def split: sum.splits select_send.splits)
  have d1: "store rt1 = d" "channel rt1 = channel rt0 @ [?x]" using ok(3) by (simp_all add: push_def)
  have obs: "tables (store rt0) = tables (store rt)" "stamp (store rt0) = stamp (store rt)"
    using f(2) by (simp_all add: pg_obs_def)
  have nf: "no_faults d" using pg_notifications.save_reliable [OF f(3) [OF assms(1)], of ?x] s by simp
  have sc: "scannable d" using scannable_Save [of "store rt0" ?x] assms(2) s obs by (simp add: scannable_def)
  have "pg_view d uuid = Some (written (stamp (store rt)) ?x)"
    using pg_notifications.save_view [of ?x "store rt0" s d] s ok(2) obs by auto
  then obtain r where r: "r \<in> set (notifications (tables d))" "id_col r = uuid" "status_col r = Pending"
      "next_retry_at_col r = stamp (store rt) now1"
    using assms(4) by (auto simp: pg_view_def row_view_def written_def new_notification_def dest!: row_of_Some_D)
  have k: "keyed id_col (notifications (tables d))"
    using Save_keyed [of "store rt0" ?x] assms(3) s obs by simp
  let ?d = "d\<lparr>db_now := later\<rparr>"
  have "uuid \<in> set (claimed_by ?d)"
    using jobs.claim_all [of later "row_locked d" "notifications (tables d)" ready_jobs_limit r] room r d1 later(2) assms(9)
    by (simp add: job_ready_def ready_jobs_limit_def)
  moreover obtain ns d2 where g: "NotificationRepository_GetReadyJobs ?d = (Inr ns, d2)"
    by (rule GetReadyJobs_reliable [of ?d]) (use nf sc in \<open>simp_all add: no_faults_def scannable_def\<close>)
  ultimately have "uuid \<in> n_ID ` set ns"
    using GetReadyJobs_ids(1) [of ?d ns d2] k by simp
  then have "1 \<le> length (filter (\<lambda>y. n_ID y = uuid) ns)"
    by (auto simp: Suc_le_eq filter_empty_conv)
  moreover have "channel rt2 = channel rt0 @ [?x] @ ns"
  proof (cases rule: tick_cases [OF tick])
    case (2 e)
    then show ?thesis using g d1 later(1) by simp
  next
    case (3 ns' m)
    then show ?thesis using g d1 later(1) by simp
  qed (simp add: quiet_def)
  ultimately show ?thesis by simp
qed

theorem immediate_handed_over_twice_witness:
  "\<exists>x rt1 rt2. CreateNotification demo_system id True 5 5 ''a'' (demo_args 0) (main_runtime (full_db 0)) = (Return (Inr x), rt1)
     \<and> RetryScheduler_tick demo_system (\<lambda>_. id) (\<lambda>_. True) False (rt1\<lparr>store := (store rt1)\<lparr>db_now := 9\<rparr>\<rparr>) = (LoopContinue, rt2)
     \<and> 2 \<le> length (filter (\<lambda>y. n_ID y = ''a'') (channel rt2))"
proof -
  note create_exec = CreateNotification_def create_checks_def create_commit_def select_send_or_done_def push_def
    NotificationRepository_GetTotalCount_def TemplateRepository_Get_def Save_exec new_notification_def insert_row_def has_key_def
  note facts = full_db_def main_runtime_def demo_system_def demo_args_def is_zero_def zero_time_def max_total_def
    template_rows_def norm_user_def row_of_notification_def
  obtain x rt1 where c: "CreateNotification demo_system id True 5 5 ''a'' (demo_args 0) (main_runtime (full_db 0)) = (Return (Inr x), rt1)"
    and r1: "rt1 = (main_runtime ((full_db 0)\<lparr>tables := (tables (full_db 0))\<lparr>notifications :=
         [row_of_notification id (JsonVars []) ''u1'' x]\<rparr>\<rparr>))\<lparr>channel := [x]\<rparr>" and x: "x = new_notification 5 5 ''a'' (demo_args 0)"
    by (simp add: create_exec facts exec_sql_no_faults Let_def)
  obtain rt2 where t: "RetryScheduler_tick demo_system (\<lambda>_. id) (\<lambda>_. True) False (rt1\<lparr>store := (store rt1)\<lparr>db_now := 9\<rparr>\<rparr>) = (LoopContinue, rt2)"
    by (simp add: r1 x facts new_notification_def RetryScheduler_tick_def jobs_exec push_def select_send_or_done_def)
  have "2 \<le> length (filter (\<lambda>y. n_ID y = ''a'') (channel rt2))"
    by (rule immediate_handed_over_twice [OF _ _ _ _ c [unfolded demo_system_def] refl _ _ _ t [unfolded demo_system_def]])
       (simp_all add: full_db_facts r1 x, simp_all add: facts)
  with c t show ?thesis by blast
qed

text \<open>
  A shutdown can lose claimed jobs: when the loop of a poll leaves early, it has pushed only a prefix
  of what it claimed, and every claimed notification - the rest included - stays PROCESSING and is
  returned by no later poll.
\<close>

lemma shutdown_strands_claims:
  assumes "keyed id_col (notifications (tables (store rt)))" and "\<And>j. quiet (intr j)"
    and "RetryScheduler_tick (main_system w key sender u a) intr picks False rt = (LoopReturn, rt')"
  shows "\<exists>ns m. channel rt' = channel rt @ take m ns \<and> set (map n_ID ns) = set (claimed_by (store rt)) \<and>
     (\<forall>k \<in> set (map n_ID ns). status_of k (store rt') = Some Processing \<and>
       (\<forall>d1 ns1 d2. notifications (tables d1) = notifications (tables (store rt')) \<longrightarrow>
          NotificationRepository_GetReadyJobs d1 = (Inr ns1, d2) \<longrightarrow> k \<notin> set (map n_ID ns1)))"
proof (cases rule: tick_cases [OF assms(3)])
  case (3 ns m)
  have ids: "set (map n_ID ns) = set (claimed_by (store rt))" using assms(1) 3(1) by (rule GetReadyJobs_ids(1))
  show ?thesis
    using claim_leaves_processing [OF assms(1), of "store rt'"] GetReadyJobs_Inr [OF 3(1)] 3(2) ids
    by (intro exI [of _ ns] exI [of _ m]) (simp add: status_of_def)
qed (use assms(2) in simp_all)

lemma shutdown_strands_claims_witness:
  "\<exists>rt'. RetryScheduler_tick demo_system (\<lambda>j rt. if j = 0 then rt\<lparr>shutting_down := True\<rparr> else rt) (\<lambda>_. True) False
       (main_runtime two_jobs) = (LoopReturn, rt') \<and> status_of ''a'' (store rt') = Some Processing"
proof -
  let ?intr = "\<lambda>j rt. if j = (0::nat) then rt\<lparr>shutting_down := True\<rparr> else (rt :: ndb runtime)"
  have k: "keyed id_col (notifications (tables (store (main_runtime two_jobs))))"
    and c: "''a'' \<in> set (claimed_by (store (main_runtime two_jobs)))"
    by (simp_all add: two_jobs_def jobs_exec keyed_def)
  obtain ns d where "NotificationRepository_GetReadyJobs two_jobs = (Inr ns, d)" "ns \<noteq> []"
    by (simp add: two_jobs_def jobs_exec)
  then obtain rt' where t: "RetryScheduler_tick demo_system ?intr (\<lambda>_. True) False (main_runtime two_jobs) = (LoopReturn, rt')"
    by (cases ns) (auto simp: RetryScheduler_tick_def demo_system_def)
  have q: "quiet (?intr j)" for j by (simp add: quiet_def)
  show ?thesis using shutdown_strands_claims [OF k q t [unfolded demo_system_def]] c t by fastforce
qed

section \<open>Shutdown\<close>

definition keeps_open :: "('s runtime \<Rightarrow> 's runtime) \<Rightarrow> bool" where
  "keeps_open f \<longleftrightarrow> (\<forall>rt. \<not> ch_closed rt \<longrightarrow> \<not> ch_closed (f rt))"

lemma enqueue_open:
  "(\<And>j. keeps_open (intr j)) \<Longrightarrow> \<not> ch_closed rt \<Longrightarrow> enqueue_jobs intr picks i jobs rt = (r, rt') \<Longrightarrow> r \<noteq> LoopPanic m"
  by (induction intr picks i jobs rt rule: enqueue_jobs.induct)
     (auto simp: Let_def keeps_open_def select_send_or_done_def push_def split: if_splits select_send.splits)

text \<open>
  C31. As long as nobody closes the channel neither a creation nor a poll panics. But \<open>Shutdown\<close> does not
  wait for the retry scheduler: when it runs between the scheduler's check of \<open>ShuttingDown\<close> and its
  send, the \<open>select\<close> may pick the send on the closed channel, and the service panics.
\<close>

theorem send_on_closed_channel:
  "(keeps_open intr \<longrightarrow> \<not> ch_closed rt \<longrightarrow> fst (CreateNotification n intr pick now1 now2 uuid arg rt) \<noteq> Panic m)
   \<and> ((\<forall>j. keeps_open (intrs j)) \<longrightarrow> \<not> ch_closed rt \<longrightarrow> fst (RetryScheduler_tick n intrs picks first rt) \<noteq> LoopPanic m)
   \<and> (\<not> shutting_down rt \<longrightarrow> \<not> ch_closed rt \<longrightarrow> live_workers rt = 0 \<longrightarrow>
      fst (enqueue_jobs (\<lambda>j rt. if j = 1 then snd (Shutdown rt) else rt) (\<lambda>_. True) 0 (job # jobs) rt) = LoopPanic closed_panic)"
proof (intro conjI impI)
  assume k: "keeps_open intr" and o: "\<not> ch_closed rt"
  have c: "\<not> ch_closed (snd (create_checks n t u rt))" for t u
    using o by (auto simp: create_checks_def split: prod.splits sum.splits)
  have "fst (create_commit n intr pick x arg rt1) \<noteq> Panic m" if "\<not> ch_closed rt1" for x rt1
  proof -
    have "\<not> ch_closed (intr (rt1\<lparr>store := s\<rparr>))" for s using k that by (simp add: keeps_open_def)
    then show ?thesis
      by (auto simp: create_commit_def select_send_or_done_def Let_def split: prod.splits sum.splits if_splits select_send.splits)
  qed
  then show "fst (CreateNotification n intr pick now1 now2 uuid arg rt) \<noteq> Panic m"
    using c [of "ca_template arg" "ca_userID arg"] by (auto simp: CreateNotification_def split: prod.splits sum.splits)
next
  assume "\<forall>j. keeps_open (intrs j)" and "\<not> ch_closed rt"
  moreover have "fst (enqueue_jobs intrs picks 0 jobs (rt\<lparr>store := s\<rparr>)) \<noteq> LoopPanic m" for jobs s
    using calculation enqueue_open [of intrs "rt\<lparr>store := s\<rparr>" picks 0 jobs] by (metis prod.collapse runtime.ext_inject runtime.surjective runtime.update_convs(1))
  ultimately show "fst (RetryScheduler_tick n intrs picks first rt) \<noteq> LoopPanic m"
    by (auto simp: RetryScheduler_tick_def split: prod.splits sum.splits)
next
  assume "\<not> shutting_down rt" "\<not> ch_closed rt" "live_workers rt = 0"
  then show "fst (enqueue_jobs (\<lambda>j rt. if j = 1 then snd (Shutdown rt) else rt) (\<lambda>_. True) 0 (job # jobs) rt) = LoopPanic closed_panic"
    by (simp add: Let_def Shutdown_def select_send_or_done_def)
qed

theorem send_on_closed_channel_witness:
  "fst (enqueue_jobs (\<lambda>j rt. if j = 1 then snd (Shutdown rt) else rt) (\<lambda>_. True) 0 [push_job 0] (main_runtime two_jobs))
     = LoopPanic closed_panic"
  using send_on_closed_channel [where rt = "main_runtime two_jobs" and job = "push_job 0" and jobs = "[]"] by simp

lemma Worker_leaves:
  "ctx_done rt \<Longrightarrow> length (channel rt) < length evs \<Longrightarrow>
   \<exists>rt'. Worker n evs rt = (WorkerExit, rt') \<and> live_workers rt' = live_workers rt - 1 \<and> ctx_done rt'
     \<and> ch_closed rt' = ch_closed rt \<and> shutting_down rt' = shutting_down rt \<and> length (channel rt') \<le> length (channel rt)"
proof (induction n evs rt rule: Worker.induct)
  case (1 n rt)
  then show ?case by simp
next
  case (2 n pick now env evs rt)
  show ?case
  proof (cases "pick \<and> channel rt \<noteq> []")
    case True
    then obtain x rest where ch: "channel rt = x # rest" by (cases "channel rt") auto
    let ?rt = "rt\<lparr>channel := rest, store := snd (Process n now env x (store rt))\<rparr>"
    have step: "Worker_step n pick now env rt = (WorkerProcessed, ?rt)"
      using True ch by (simp add: Worker_step_def)
    have "\<exists>rt'. Worker n evs ?rt = (WorkerExit, rt') \<and> live_workers rt' = live_workers ?rt - 1 \<and> ctx_done rt'
       \<and> ch_closed rt' = ch_closed ?rt \<and> shutting_down rt' = shutting_down ?rt \<and> length (channel rt') \<le> length (channel ?rt)"
      using 2 step ch by (intro "2.IH"(2) [OF step [symmetric] refl]) auto
    then show ?thesis using step ch by auto
  next
    case False
    then have "Worker_step n pick now env rt = (WorkerExit, rt\<lparr>live_workers := live_workers rt - 1\<rparr>)"
      using 2 by (auto simp: Worker_step_def Let_def split: list.split)
    then show ?thesis using 2 by simp
  qed
qed

fun run_workers :: "'s NotificationSystem \<Rightarrow> (bool \<times> gotime \<times> send_env) list list \<Rightarrow> 's runtime \<Rightarrow> 's runtime" where
  "run_workers n [] rt = rt"
| "run_workers n (evs # evss) rt = run_workers n evss (snd (Worker n evs rt))"

lemma run_workers_leave:
  "ctx_done rt \<Longrightarrow> \<forall>evs \<in> set evss. length (channel rt) < length evs \<Longrightarrow>
   live_workers (run_workers n evss rt) = live_workers rt - length evss \<and> ch_closed (run_workers n evss rt) = ch_closed rt
   \<and> shutting_down (run_workers n evss rt) = shutting_down rt"
proof (induction evss arbitrary: rt)
  case Nil
  then show ?case by simp
next
  case (Cons evs evss)
  then obtain rt' where w: "Worker n evs rt = (WorkerExit, rt')" "live_workers rt' = live_workers rt - 1" "ctx_done rt'"
      "ch_closed rt' = ch_closed rt" "shutting_down rt' = shutting_down rt" "length (channel rt') \<le> length (channel rt)"
    using Worker_leaves [of rt evs n] by auto
  then have "\<forall>evs \<in> set evss. length (channel rt') < length evs" using Cons.prems(2) by fastforce
  with Cons.IH [OF w(3)] w show ?case by simp
qed

text \<open>
  A shutdown terminates: it waits exactly for the workers; each of them leaves after at most one
  iteration more than the channel has entries, however its \<open>select\<close> chooses; then \<open>Shutdown\<close> closes the
  channel and returns, and from then on \<open>CreateNotification\<close> is refused without touching the store.
\<close>

lemma shutdown_terminates:
  assumes "\<not> ch_closed rt" and "length evss = live_workers rt" and "0 < live_workers rt"
    and "\<forall>evs \<in> set evss. length (channel rt) < length evs"
  shows "fst (Shutdown rt) = Block \<and>
     (let rt1 = run_workers n evss (snd (Shutdown rt)); (r, rt2) = Shutdown rt1
      in live_workers rt1 = 0 \<and> r = Return () \<and> ch_closed rt2 \<and>
         CreateNotification n intr pick now1 now2 uuid arg rt2 =
           (Return (Inl ''notification system is shutting down''), rt2))"
proof -
  let ?rt0 = "snd (Shutdown rt)"
  have s0: "fst (Shutdown rt) = Block" "ctx_done ?rt0" "channel ?rt0 = channel rt" "live_workers ?rt0 = live_workers rt"
      "\<not> ch_closed ?rt0"
    using assms(1,3) by (simp_all add: Shutdown_def Let_def)
  then have "live_workers (run_workers n evss ?rt0) = 0" "\<not> ch_closed (run_workers n evss ?rt0)"
    using run_workers_leave [OF s0(2), of evss n] assms(2,4) by simp_all
  then show ?thesis using s0(1) by (simp add: Shutdown_def Let_def CreateNotification_def create_checks_def)
qed

lemma shutdown_terminates_witness:
  "fst (Shutdown ((main_runtime two_jobs)\<lparr>live_workers := 1, channel := [push_job 0]\<rparr>)) = Block"
  using shutdown_terminates [where rt = "(main_runtime two_jobs)\<lparr>live_workers := 1, channel := [push_job 0]\<rparr>"
      and evss = "[[(True, 5, unlucky), (True, 6, unlucky)]]"]
  by simp

end
