(* ===== verification/Auth.thy ===== *)
theory Auth
  imports GoStrings Http
begin

text \<open>
  The two authentication middlewares: \<open>internal/middleware/auth.go\<close> (Auth0 tokens with a cache of five
  minutes) and \<open>internal/scheduler/middleware/auth.go\<close> (a static API key).

  The answer of Auth0's \<open>/userinfo\<close> to a URL and an \<open>Authorization\<close> header is a parameter; it may
  change from request to request. \<open>now1\<close> and \<open>now2\<close> are the two calls of \<open>time.Now()\<close> of one request. The
  cache is a \<open>sync.Map\<close>: a request that runs alone sees it as a map from tokens to entries.
\<close>

section \<open>Bearer headers\<close>

text \<open>The second part of a header of two parts whose first is \<open>bearer\<close> in any case.\<close>

definition bearer_token :: "unicode \<Rightarrow> string \<Rightarrow> string option" where
  "bearer_token U authHeader =
     (let parts = split_on (CHR '' '') authHeader
      in if length parts \<noteq> 2 \<or> ToLower U (parts ! 0) \<noteq> ''bearer'' then None else Some (parts ! 1))"

lemma bearer_token_Some:
  "bearer_token U h = Some t \<longleftrightarrow>
     (\<exists>scheme. h = scheme @ CHR '' '' # t \<and> CHR '' '' \<notin> set scheme \<and> CHR '' '' \<notin> set t \<and> ToLower U scheme = ''bearer'')"
proof
  assume "bearer_token U h = Some t"
  then have len: "length (split_on (CHR '' '') h) = 2" and parts: "ToLower U (split_on (CHR '' '') h ! 0) = ''bearer''"
      "t = split_on (CHR '' '') h ! 1"
    by (auto simp: bearer_token_def Let_def split: if_splits)
  have "count_list h (CHR '' '') = 1" using len by (simp add: length_split_on)
  then have "CHR '' '' \<in> set h" by (metis count_notin zero_neq_one)
  then obtain a b where h: "h = a @ CHR '' '' # b" "CHR '' '' \<notin> set a" by (meson split_list_first)
  then have "count_list b (CHR '' '') = 0" using \<open>count_list h (CHR '' '') = 1\<close> by (simp add: count_notin)
  then have b: "CHR '' '' \<notin> set b" by (simp add: count_list_0_iff)
  have "split_on (CHR '' '') h = [a, b]" using h b by (simp add: split_on_append split_on_free)
  with h b parts show "\<exists>scheme. h = scheme @ CHR '' '' # t \<and> CHR '' '' \<notin> set scheme \<and> CHR '' '' \<notin> set t \<and> ToLower U scheme = ''bearer''"
    by auto
next
  assume "\<exists>scheme. h = scheme @ CHR '' '' # t \<and> CHR '' '' \<notin> set scheme \<and> CHR '' '' \<notin> set t \<and> ToLower U scheme = ''bearer''"
  then obtain scheme where "split_on (CHR '' '') h = [scheme, t]" "ToLower U scheme = ''bearer''"
    by (auto simp: split_on_append split_on_free)
  then show "bearer_token U h = Some t" by (simp add: bearer_token_def)
qed

lemma bearer_token_empty [simp]: "bearer_token U '''' = None"
  by (simp add: bearer_token_def)

lemma bearer_token_built: "bearer_token U (''Bearer '' @ key) = (if CHR '' '' \<in> set key then None else Some key)"
proof -
  have "split_on (CHR '' '') (''Bearer '' @ key) = ''Bearer'' # split_on (CHR '' '') key"
    using split_on_append [of "CHR '' ''" "''Bearer''" key] by simp
  moreover have "length (split_on (CHR '' '') key) = 1 \<longleftrightarrow> CHR '' '' \<notin> set key"
    by (simp add: length_split_on count_list_0_iff)
  moreover have "CHR '' '' \<notin> set key \<Longrightarrow> split_on (CHR '' '') key = [key]" by (rule split_on_free)
  moreover have "ToLower U ''Bearer'' = ''bearer''" by code_simp
  ultimately show ?thesis by (auto simp: bearer_token_def Let_def)
qed

section \<open>Auth0Middleware\<close>

record cacheEntry =
  ce_userID :: string
  ce_expiresAt :: gotime

type_synonym token_cache = "string \<Rightarrow> cacheEntry option"

text \<open>
  The request cannot be built, no answer, or a status with the decoded body: the \<open>sub\<close> claim when it is
  a string.
\<close>

datatype userinfo_reply = BadRequest string | Unreachable string | UserInfo status_code "string + string option"

definition userinfo_url :: "string \<Rightarrow> string" where
  "userinfo_url auth0Domain = ''https://'' @ auth0Domain @ ''/userinfo''"

definition cache_ttl :: duration where
  "cache_ttl = 5 * minute"

definition Auth0_Handler ::
  "unicode \<Rightarrow> string \<Rightarrow> (string \<Rightarrow> string \<Rightarrow> userinfo_reply) \<Rightarrow> gotime \<Rightarrow> gotime \<Rightarrow> gin_context \<Rightarrow> token_cache
     \<Rightarrow> mw_result \<times> token_cache" where
  "Auth0_Handler U auth0Domain client_do now1 now2 c tokenCache =
     (let authHeader = c_header_authorization c
      in if authHeader = '''' then (Abort StatusUnauthorized ''Authorization header required'', tokenCache)
         else case bearer_token U authHeader of
           None \<Rightarrow> (Abort StatusUnauthorized ''Authorization header must be Bearer token'', tokenCache)
         | Some token \<Rightarrow>
             (let miss = (\<lambda>tokenCache.
                 case client_do (userinfo_url auth0Domain) (''Bearer '' @ token) of
                   BadRequest _ \<Rightarrow> (Abort StatusInternalServerError ''Internal auth configuration error'', tokenCache)
                 | Unreachable _ \<Rightarrow> (Abort StatusServiceUnavailable ''Authentication provider unreachable'', tokenCache)
                 | UserInfo code body \<Rightarrow>
                     if code \<noteq> StatusOK then (Abort StatusUnauthorized ''Invalid or expired session token'', tokenCache)
                     else (case body of
                         Inl _ \<Rightarrow> (Abort StatusInternalServerError ''Failed to parse user session info'', tokenCache)
                       | Inr sub \<Rightarrow>
                           (if sub = None \<or> sub = Some '''' then
                              (Abort StatusUnauthorized ''User identity key (sub) missing from session token'', tokenCache)
                            else (Next (c\<lparr>c_user_id := sub\<rparr>),
                                  tokenCache(token \<mapsto> \<lparr>ce_userID = the sub, ce_expiresAt = time_add now2 cache_ttl\<rparr>)))))
              in case tokenCache token of
                   Some entry \<Rightarrow>
                     (if now1 < ce_expiresAt entry then (Next (c\<lparr>c_user_id := Some (ce_userID entry)\<rparr>), tokenCache)
                      else miss (tokenCache(token := None)))
                 | None \<Rightarrow> miss tokenCache))"

section \<open>APIKeyAuth\<close>

definition APIKeyAuth :: "unicode \<Rightarrow> string \<Rightarrow> gin_context \<Rightarrow> mw_result" where
  "APIKeyAuth U apiKey c =
     (if apiKey = '''' then Next c
      else let authHeader = c_header_authorization c
           in if authHeader = '''' then Abort StatusUnauthorized ''Authorization header is required''
              else case bearer_token U authHeader of
                None \<Rightarrow> Abort StatusUnauthorized ''Authorization header must be Bearer token''
              | Some token \<Rightarrow>
                  if token \<noteq> apiKey then Abort StatusUnauthorized ''Invalid or unauthorized API key'' else Next c)"

section \<open>Runs of the Auth0 middleware\<close>

record auth_request =
  ar_context :: gin_context
  ar_now1 :: gotime
  ar_now2 :: gotime
  ar_do :: "string \<Rightarrow> string \<Rightarrow> userinfo_reply"

fun auth_run :: "unicode \<Rightarrow> string \<Rightarrow> auth_request list \<Rightarrow> token_cache \<Rightarrow> mw_result list \<times> token_cache" where
  "auth_run U dmn [] cache = ([], cache)"
| "auth_run U dmn (q # qs) cache =
     (let (r, cache1) = Auth0_Handler U dmn (ar_do q) (ar_now1 q) (ar_now2 q) (ar_context q) cache;
          (rs, cache2) = auth_run U dmn qs cache1
      in (r # rs, cache2))"

text \<open>Request \<open>q\<close> carried \<open>token\<close>, and Auth0 named \<open>user\<close> its owner.\<close>

definition vouched :: "unicode \<Rightarrow> string \<Rightarrow> string \<Rightarrow> string \<Rightarrow> auth_request \<Rightarrow> bool" where
  "vouched U dmn token user q \<longleftrightarrow>
     bearer_token U (c_header_authorization (ar_context q)) = Some token \<and>
     ar_do q (userinfo_url dmn) (''Bearer '' @ token) = UserInfo StatusOK (Inr (Some user)) \<and> user \<noteq> ''''"

definition cache_justified :: "unicode \<Rightarrow> string \<Rightarrow> auth_request list \<Rightarrow> token_cache \<Rightarrow> bool" where
  "cache_justified U dmn past cache \<longleftrightarrow>
     (\<forall>token e. cache token = Some e \<longrightarrow>
        (\<exists>q \<in> set past. vouched U dmn token (ce_userID e) q \<and> ce_expiresAt e = ar_now2 q + 5 * minute))"

lemma handler_cases:
  assumes "Auth0_Handler U dmn client_do now1 now2 c cache = (r, cache')"
  obtains (rejected) code msg where "r = Abort code msg" "\<And>t e. cache' t = Some e \<Longrightarrow> cache t = Some e"
    | (hit) token e where "bearer_token U (c_header_authorization c) = Some token" "cache token = Some e"
      "now1 < ce_expiresAt e" "r = Next (c\<lparr>c_user_id := Some (ce_userID e)\<rparr>)" "cache' = cache"
    | (asked) token user c' where "bearer_token U (c_header_authorization c) = Some token"
      "client_do (userinfo_url dmn) (''Bearer '' @ token) = UserInfo StatusOK (Inr (Some user))" "user \<noteq> ''''"
      "r = Next (c\<lparr>c_user_id := Some user\<rparr>)" "\<And>t e. c' t = Some e \<Longrightarrow> cache t = Some e"
      "cache' = c'(token \<mapsto> \<lparr>ce_userID = user, ce_expiresAt = now2 + 5 * minute\<rparr>)"
proof (cases "bearer_token U (c_header_authorization c)")
  case None
  then have "(\<exists>code msg. r = Abort code msg) \<and> cache' = cache"
    using assms by (auto simp: Auth0_Handler_def Let_def split: if_splits)
  then show thesis using rejected by blast
next
  case (Some token)
  let ?hit = "\<exists>e. cache token = Some e \<and> now1 < ce_expiresAt e"
  let ?c' = "if cache token = None then cache else cache(token := None)"
  have h: "c_header_authorization c \<noteq> ''''" using Some by auto
  have sub: "cache t = Some e" if "?c' t = Some e" for t e using that by (auto split: if_splits)
  show thesis
  proof (cases ?hit)
    case True
    then obtain e where e: "cache token = Some e" "now1 < ce_expiresAt e" by blast
    then have "r = Next (c\<lparr>c_user_id := Some (ce_userID e)\<rparr>)" "cache' = cache"
      using assms h Some by (simp_all add: Auth0_Handler_def)
    then show thesis by (rule hit [OF Some e])
  next
    case False
    show thesis
    proof (cases "\<exists>user. client_do (userinfo_url dmn) (''Bearer '' @ token) = UserInfo StatusOK (Inr (Some user)) \<and> user \<noteq> ''''")
      case True
      then obtain user where u: "client_do (userinfo_url dmn) (''Bearer '' @ token) = UserInfo StatusOK (Inr (Some user))" "user \<noteq> ''''"
        by blast
      have "r = Next (c\<lparr>c_user_id := Some user\<rparr>) \<and> cache' = ?c'(token \<mapsto> \<lparr>ce_userID = user, ce_expiresAt = now2 + 5 * minute\<rparr>)"
        using assms h Some False u
        by (auto simp: Auth0_Handler_def time_add_def cache_ttl_def simp del: append.simps split: option.splits)
      then show thesis using asked [OF Some u _ sub] by blast
    next
      case no: False
      have "(\<exists>code msg. r = Abort code msg) \<and> cache' = ?c'"
        using assms h Some False no
        by (auto simp: Auth0_Handler_def simp del: append.simps split: option.splits userinfo_reply.splits sum.splits if_splits)
      then show thesis using rejected sub by blast
    qed
  qed
qed

lemma handler_step:
  assumes inv: "cache_justified U dmn past cache"
    and step: "Auth0_Handler U dmn (ar_do q) (ar_now1 q) (ar_now2 q) (ar_context q) cache = (r, cache')"
  shows "cache_justified U dmn (q # past) cache'"
    and "r = Next c \<Longrightarrow> \<exists>token user. bearer_token U (c_header_authorization (ar_context q)) = Some token
        \<and> c = (ar_context q)\<lparr>c_user_id := Some user\<rparr>
        \<and> (vouched U dmn token user q \<or> (\<exists>p \<in> set past. vouched U dmn token user p \<and> ar_now1 q < ar_now2 p + 5 * minute))"
proof -
  have mono: "cache_justified U dmn (q # past) c'" if "\<And>t e. c' t = Some e \<Longrightarrow> cache t = Some e" for c'
    using inv that by (fastforce simp: cache_justified_def)
  show "cache_justified U dmn (q # past) cache'"
    using step
  proof (cases rule: handler_cases)
    case (asked token user c')
    have "vouched U dmn token user q" using asked(1-3) by (simp only: vouched_def simp_thms)
    then show ?thesis using mono [OF asked(5)] asked(6) by (auto simp: cache_justified_def)
  qed (auto intro: mono)
  assume n: "r = Next c"
  show "\<exists>token user. bearer_token U (c_header_authorization (ar_context q)) = Some token
        \<and> c = (ar_context q)\<lparr>c_user_id := Some user\<rparr>
        \<and> (vouched U dmn token user q \<or> (\<exists>p \<in> set past. vouched U dmn token user p \<and> ar_now1 q < ar_now2 p + 5 * minute))"
    using step
  proof (cases rule: handler_cases)
    case (hit token e)
    then show ?thesis using n inv by (fastforce simp: cache_justified_def)
  next
    case (asked token user c')
    have "vouched U dmn token user q" using asked(1-3) by (simp only: vouched_def simp_thms)
    then show ?thesis using n asked(1,4) by auto
  qed (use n in simp)
qed

lemma auth_run_length: "auth_run U dmn qs cache = (rs, cache') \<Longrightarrow> length rs = length qs"
  by (induction qs arbitrary: cache rs) (auto split: prod.splits)

lemma auth_run_justified:
  "cache_justified U dmn past cache \<Longrightarrow> auth_run U dmn qs cache = (rs, cache') \<Longrightarrow> i < length rs \<Longrightarrow> rs ! i = Next c \<Longrightarrow>
   length rs = length qs \<and> (\<exists>token user. bearer_token U (c_header_authorization (ar_context (qs ! i))) = Some token
      \<and> c = (ar_context (qs ! i))\<lparr>c_user_id := Some user\<rparr>
      \<and> (vouched U dmn token user (qs ! i) \<or>
         (\<exists>p \<in> set past \<union> set (take i qs). vouched U dmn token user p \<and> ar_now1 (qs ! i) < ar_now2 p + 5 * minute)))"
proof (induction qs arbitrary: past cache rs i)
  case Nil
  then show ?case by simp
next
  case (Cons q qs)
  obtain r c1 where step: "Auth0_Handler U dmn (ar_do q) (ar_now1 q) (ar_now2 q) (ar_context q) cache = (r, c1)" by fastforce
  obtain rs1 where rest: "auth_run U dmn qs c1 = (rs1, cache')" "rs = r # rs1"
    using Cons.prems(2) step by (auto split: prod.splits)
  have len: "length rs1 = length qs" using rest(1) by (rule auth_run_length)
  note inv = handler_step [OF Cons.prems(1) step]
  show ?case
  proof (cases i)
    case 0
    then show ?thesis using inv(2) Cons.prems(4) rest(2) len by fastforce
  next
    case (Suc j)
    then have "rs1 ! j = Next c" "j < length rs1" using Cons.prems(3,4) rest(2) by simp_all
    from Cons.IH [OF inv(1) rest(1) this(2,1)] show ?thesis using Suc rest(2) by auto
  qed
qed

text \<open>
  C23. Nobody gets in without Auth0's word: starting from an empty cache, a request that the middleware
  lets through runs with the non-empty user id that Auth0 gave for this very token - in answer to this
  request, or to an earlier one less than five minutes before. Nothing else of the request changes.
\<close>

theorem auth0_sound:
  assumes "auth_run U dmn qs (\<lambda>_. None) = (rs, cache)" and "i < length rs" and "rs ! i = Next c"
  shows "\<exists>token user. bearer_token U (c_header_authorization (ar_context (qs ! i))) = Some token
     \<and> c = (ar_context (qs ! i))\<lparr>c_user_id := Some user\<rparr> \<and> user \<noteq> ''''
     \<and> (vouched U dmn token user (qs ! i)
        \<or> (\<exists>j < i. vouched U dmn token user (qs ! j) \<and> ar_now1 (qs ! i) < ar_now2 (qs ! j) + 5 * minute))"
proof -
  have "cache_justified U dmn [] (\<lambda>_. None)" by (simp add: cache_justified_def)
  from auth_run_justified [OF this assms] obtain token user where t:
    "length rs = length qs" "bearer_token U (c_header_authorization (ar_context (qs ! i))) = Some token"
    "c = (ar_context (qs ! i))\<lparr>c_user_id := Some user\<rparr>"
    "vouched U dmn token user (qs ! i)
     \<or> (\<exists>p \<in> set (take i qs). vouched U dmn token user p \<and> ar_now1 (qs ! i) < ar_now2 p + 5 * minute)"
    by auto
  moreover have "\<exists>j < i. p = qs ! j" if "p \<in> set (take i qs)" for p
    using that by (auto simp: in_set_conv_nth)
  moreover have "user \<noteq> ''''" using t(4) by (auto simp only: vouched_def)
  ultimately show ?thesis by blast
qed

definition demo_request :: "gotime \<Rightarrow> userinfo_reply \<Rightarrow> auth_request" where
  "demo_request now reply = \<lparr>ar_context = \<lparr>c_header_authorization = ''Bearer tok'', c_param_id = [], c_client_ip = ''1.2.3.4'',
     c_user_id = None\<rparr>, ar_now1 = now, ar_now2 = now, ar_do = (\<lambda>_ _. reply)\<rparr>"

definition ascii_only :: unicode where
  "ascii_only = \<lparr>uni_upper = id, uni_lower = id, uni_trim = id\<rparr>"

lemma demo_token: "bearer_token U ''Bearer tok'' = Some ''tok''"
  using bearer_token_built [of U "''tok''"] by simp

theorem auth0_sound_witness:
  "fst (auth_run ascii_only ''d'' [demo_request 0 (UserInfo StatusOK (Inr (Some ''u1''))), demo_request 9 (Unreachable [])] (\<lambda>_. None)) ! 1
     = Next ((ar_context (demo_request 9 (Unreachable [])))\<lparr>c_user_id := Some ''u1''\<rparr>)
   \<and> vouched ascii_only ''d'' ''tok'' ''u1'' (demo_request 0 (UserInfo StatusOK (Inr (Some ''u1''))))"
proof -
  let ?qs = "[demo_request 0 (UserInfo StatusOK (Inr (Some ''u1''))), demo_request 9 (Unreachable [])]"
  obtain rs cache where run: "auth_run ascii_only ''d'' ?qs (\<lambda>_. None) = (rs, cache)" and "length rs = 2"
    and r: "rs ! 1 = Next ((ar_context (demo_request 9 (Unreachable [])))\<lparr>c_user_id := Some ''u1''\<rparr>)"
    by (simp add: demo_request_def Auth0_Handler_def demo_token Let_def time_add_def cache_ttl_def minute_def second_def)
  have no: "\<not> vouched ascii_only ''d'' token user (?qs ! 1)" for token user by (simp add: vouched_def demo_request_def)
  have "1 < length rs" using \<open>length rs = 2\<close> by simp
  from auth0_sound [OF run this r] obtain token user where
    t: "bearer_token ascii_only (c_header_authorization (ar_context (?qs ! 1))) = Some token"
    "(ar_context (demo_request 9 (Unreachable [])))\<lparr>c_user_id := Some ''u1''\<rparr> = (ar_context (?qs ! 1))\<lparr>c_user_id := Some user\<rparr>"
    and v: "vouched ascii_only ''d'' token user (?qs ! 1) \<or> (\<exists>j<1. vouched ascii_only ''d'' token user (?qs ! j)
      \<and> ar_now1 (?qs ! 1) < ar_now2 (?qs ! j) + 5 * minute)" by blast
  have "vouched ascii_only ''d'' token user (?qs ! 0)" using v no [of token user] by auto
  then have "vouched ascii_only ''d'' ''tok'' ''u1'' (?qs ! 0)" using t by (simp add: demo_token demo_request_def)
  then show ?thesis using run r by simp
qed

text \<open>
  What the notification service sends is what the task scheduler accepts: with a key set on the
  scheduler's side, \<open>APIKeyAuth\<close> passes exactly the requests whose header is the word bearer in some
  case, one space and the key, and no others; the header \<open>ScheduleNotification\<close> builds from the key is among
  them unless the key has a space in it, in which case every such request is refused.
\<close>

lemma api_key_exact:
  assumes "apiKey \<noteq> ''''"
  shows "(APIKeyAuth U apiKey c = Next c \<longleftrightarrow>
       (\<exists>scheme. c_header_authorization c = scheme @ CHR '' '' # apiKey \<and> CHR '' '' \<notin> set scheme \<and>
          ToLower U scheme = ''bearer'' \<and> CHR '' '' \<notin> set apiKey))
     \<and> (APIKeyAuth U apiKey c \<noteq> Next c \<longrightarrow> (\<exists>msg. APIKeyAuth U apiKey c = Abort StatusUnauthorized msg))
     \<and> (c_header_authorization c = ''Bearer '' @ apiKey \<longrightarrow> (APIKeyAuth U apiKey c = Next c \<longleftrightarrow> CHR '' '' \<notin> set apiKey))"
proof -
  have next_iff: "APIKeyAuth U apiKey c = Next c \<longleftrightarrow> bearer_token U (c_header_authorization c) = Some apiKey"
    using assms by (auto simp: APIKeyAuth_def Let_def split: option.splits)
  have abort: "APIKeyAuth U apiKey c \<noteq> Next c \<longrightarrow> (\<exists>msg. APIKeyAuth U apiKey c = Abort StatusUnauthorized msg)"
    using assms by (auto simp: APIKeyAuth_def Let_def split: option.splits)
  have built: "c_header_authorization c = ''Bearer '' @ apiKey \<longrightarrow>
      (bearer_token U (c_header_authorization c) = Some apiKey \<longleftrightarrow> CHR '' '' \<notin> set apiKey)"
    using bearer_token_built [of U apiKey] by auto
  show ?thesis unfolding next_iff using abort built bearer_token_Some [of U "c_header_authorization c" apiKey] next_iff by blast
qed

lemma api_key_exact_witness:
  "APIKeyAuth ascii_only ''k1'' \<lparr>c_header_authorization = ''Bearer k1'', c_param_id = [], c_client_ip = [], c_user_id = None\<rparr>
     = Next \<lparr>c_header_authorization = ''Bearer k1'', c_param_id = [], c_client_ip = [], c_user_id = None\<rparr>"
  using api_key_exact [of "''k1''" ascii_only "\<lparr>c_header_authorization = ''Bearer k1'', c_param_id = [], c_client_ip = [], c_user_id = None\<rparr>"]
  by simp

end
