(* ===== verification/NotificationHandlers.thy ===== *)
theory NotificationHandlers
  imports Lifecycle Auth
begin

text \<open>
  The HTTP handlers of the notification service: \<open>internal/handler/notification_handler.go\<close> and
  \<open>internal/handler/template_handler.go\<close>.

  Parameters stand for the libraries: the bound request (\<open>ShouldBindJSON\<close>), \<open>time.Parse\<close> and
  \<open>Time.Format\<close> for RFC 3339, the upper and lower case of non-ASCII text, and the task scheduler's HTTP
  answer.
\<close>

section \<open>Requests and responses\<close>

record createNotificationRequest =
  cr_Recipient :: string
  cr_Template :: string
  cr_Variable :: variables
  cr_Type :: string
  cr_ExecuteAt :: string

record notificationResponse =
  rs_ID :: string
  rs_Recipient :: string
  rs_Template :: string
  rs_Variable :: variables
  rs_RetryCount :: int
  rs_CreatedAt :: string
  rs_Type :: string
  rs_Status :: string
  rs_NextRetryAt :: string
  rs_ErrorMessage :: string

datatype body = ErrorBody string | NotificationBody notificationResponse | StatusBody string
  | TemplateBody string string | TemplatesBody "string \<Rightarrow> string option" | PageBody string

type_synonym response = "status_code \<times> body"

definition toResponse :: "(gotime \<Rightarrow> string) \<Rightarrow> Notification \<Rightarrow> notificationResponse" where
  "toResponse format n =
     \<lparr>rs_ID = n_ID n, rs_Recipient = n_Recipient n, rs_Template = n_Template n, rs_Variable = n_Variable n,
      rs_RetryCount = n_RetryCount n, rs_CreatedAt = format (n_CreatedAt n), rs_Type = string_of_type (n_Type n),
      rs_Status = string_of_status (n_Status n), rs_NextRetryAt = format (n_NextRetryAt n),
      rs_ErrorMessage = n_ErrorMessage n\<rparr>"

section \<open>Create\<close>

text \<open>\<open>tc\<close> is the clock reading of the check of \<open>execute_at\<close>.\<close>

definition parse_request ::
  "unicode \<Rightarrow> (string \<Rightarrow> gotime option) \<Rightarrow> gotime \<Rightarrow> string \<Rightarrow> string + createNotificationRequest \<Rightarrow> string + create_args" where
  "parse_request U parse_time tc userID bound =
     (case bound of
        Inl err \<Rightarrow> Inl err
      | Inr req \<Rightarrow>
          (case type_of_string (ToUpper U (TrimSpace U (cr_Type req))) of
             None \<Rightarrow> Inl ''invalid notification type: must be EMAIL, SMS, or PUSH''
           | Some nType \<Rightarrow>
               (let args = (\<lambda>executeTime.
                   \<lparr>ca_template = TrimSpace U (cr_Template req), ca_variable = cr_Variable req, ca_type = nType,
                    ca_recipient = TrimSpace U (cr_Recipient req), ca_userID = userID, ca_executeAt = executeTime\<rparr>)
                in if cr_ExecuteAt req \<noteq> ''''
                   then (case parse_time (cr_ExecuteAt req) of
                           None \<Rightarrow> Inl ''invalid execute_at timestamp: must be RFC3339 format''
                         | Some executeTime \<Rightarrow>
                             if executeTime < tc then Inl ''execute_at must be in the future''
                             else Inr (args executeTime))
                   else Inr (args zero_time))))"

record 's create_env =
  ce_U :: unicode
  ce_parse :: "string \<Rightarrow> gotime option"
  ce_format :: "gotime \<Rightarrow> string"
  ce_utc_format :: "gotime \<Rightarrow> string"
  ce_check :: gotime
  ce_now1 :: gotime
  ce_now2 :: gotime
  ce_uuid :: string
  ce_intr :: "'s runtime \<Rightarrow> 's runtime"
  ce_pick :: bool
  ce_http :: "task_request \<Rightarrow> http_reply"

definition Handler_Create ::
  "'s NotificationSystem \<Rightarrow> 's create_env \<Rightarrow> string + createNotificationRequest \<Rightarrow> gin_context \<Rightarrow> 's runtime
     \<Rightarrow> response outcome \<times> 's runtime" where
  "Handler_Create system env bound c rt =
     (case parse_request (ce_U env) (ce_parse env) (ce_check env) (user_id_str c) bound of
        Inl err \<Rightarrow> (Return (StatusBadRequest, ErrorBody err), rt)
      | Inr args \<Rightarrow>
          (case CreateNotification system (ce_intr env) (ce_pick env) (ce_now1 env) (ce_now2 env) (ce_uuid env) args rt of
             (Block, rt) \<Rightarrow> (Block, rt)
           | (Panic msg, rt) \<Rightarrow> (Panic msg, rt)
           | (Return (Inl err), rt) \<Rightarrow> (Return (StatusBadRequest, ErrorBody err), rt)
           | (Return (Inr notification), rt) \<Rightarrow>
               (let executeTime = ca_executeAt args;
                    accepted = (Return (StatusAccepted, NotificationBody (toResponse (ce_utc_format env) notification)), rt)
                in if \<not> is_zero executeTime
                   then (case ScheduleNotification system (ce_format env) (ce_http env) notification executeTime of
                           Inl err \<Rightarrow>
                             (let notification = notification\<lparr>n_Status := DLQ,
                                    n_ErrorMessage := ''failed to schedule task: '' @ err\<rparr>;
                                  (_, s) = nr_Update (ns_NotificationRepo system) notification (store rt)
                              in (Return (StatusInternalServerError, ErrorBody (''failed to delegate scheduled task: '' @ err)),
                                  rt\<lparr>store := s\<rparr>))
                         | Inr _ \<Rightarrow> accepted)
                   else accepted)))"

section \<open>GetByID\<close>

definition Handler_GetByID ::
  "'s NotificationSystem \<Rightarrow> (gotime \<Rightarrow> string) \<Rightarrow> gin_context \<Rightarrow> 's \<Rightarrow> response \<times> 's" where
  "Handler_GetByID system utc_format c s =
     (let ident = c_param_id c; userIDStr = user_id_str c
      in case nr_Get (ns_NotificationRepo system) ident userIDStr s of
           (Inr notification, s) \<Rightarrow> ((StatusOK, NotificationBody (toResponse utc_format notification)), s)
         | (Inl err, s) \<Rightarrow>
             (if contains err ''not found''
              then (case dr_Get (ns_DLQRepo system) ident userIDStr s of
                      (Inr dlqNotification, s) \<Rightarrow> ((StatusOK, NotificationBody (toResponse utc_format dlqNotification)), s)
                    | (Inl _, s) \<Rightarrow> ((StatusNotFound, ErrorBody ''notification not found''), s))
              else ((StatusInternalServerError, ErrorBody err), s)))"

section \<open>DispatchCallback\<close>

text \<open>The \<open>select\<close> with a \<open>default\<close>: it never blocks, and panics when the channel is closed.\<close>

definition Handler_DispatchCallback ::
  "unicode \<Rightarrow> 's NotificationSystem \<Rightarrow> gotime \<Rightarrow> gin_context \<Rightarrow> 's runtime \<Rightarrow> response outcome \<times> 's runtime" where
  "Handler_DispatchCallback U system now c rt =
     (case bearer_token U (c_header_authorization c) of
        None \<Rightarrow> (Return (StatusUnauthorized, ErrorBody ''unauthorized callback access''), rt)
      | Some token \<Rightarrow>
          if token \<noteq> ns_SchedulerAPIKey system
          then (Return (StatusUnauthorized, ErrorBody ''unauthorized callback access''), rt)
          else (case nr_Get (ns_NotificationRepo system) (c_param_id c) system_user (store rt) of
             (Inl _, s) \<Rightarrow> (Return (StatusNotFound, ErrorBody ''notification record not found''), rt\<lparr>store := s\<rparr>)
           | (Inr notification, s) \<Rightarrow>
               if n_Status notification \<noteq> Scheduled
               then (Return (StatusBadRequest, ErrorBody (''notification is in '' @
                       string_of_status (n_Status notification) @ '' state; must be SCHEDULED to trigger'')), rt\<lparr>store := s\<rparr>)
               else (let notification = notification\<lparr>n_Status := Pending, n_NextRetryAt := now\<rparr>
                     in case nr_Update (ns_NotificationRepo system) notification s of
                          (Inl err, s) \<Rightarrow> (Return (StatusInternalServerError,
                              ErrorBody (''failed to update notification: '' @ err)), rt\<lparr>store := s\<rparr>)
                        | (Inr _, s) \<Rightarrow>
                            (if ch_closed rt then (Panic closed_panic, rt\<lparr>store := s\<rparr>)
                             else if length (channel rt) < capacity rt
                             then (Return (StatusOK, StatusBody ''dispatched''), push notification (rt\<lparr>store := s\<rparr>))
                             else (Return (StatusServiceUnavailable,
                                 ErrorBody ''system channels saturated; dispatch deferred to poller''), rt\<lparr>store := s\<rparr>)))))"

section \<open>Templates\<close>

definition Handler_TemplateSave ::
  "unicode \<Rightarrow> 's TemplateRepo \<Rightarrow> string + (string \<times> string) \<Rightarrow> gin_context \<Rightarrow> 's \<Rightarrow> response \<times> 's" where
  "Handler_TemplateSave U repo bound c s =
     (case bound of
        Inl err \<Rightarrow> ((StatusBadRequest, ErrorBody err), s)
      | Inr (req_name, req_body) \<Rightarrow>
          (let name = ToUpper U (TrimSpace U req_name); body = TrimSpace U req_body
           in if name = '''' \<or> body = ''''
              then ((StatusBadRequest, ErrorBody ''name and body cannot be empty''), s)
              else (case tr_Save repo name body (user_id_str c) s of
                      (Inl err, s) \<Rightarrow> ((StatusInternalServerError, ErrorBody err), s)
                    | (Inr _, s) \<Rightarrow> ((StatusOK, TemplateBody name body), s))))"

definition Handler_TemplateGetAll :: "'s TemplateRepo \<Rightarrow> gin_context \<Rightarrow> 's \<Rightarrow> response \<times> 's" where
  "Handler_TemplateGetAll repo c s =
     (case tr_GetAll repo (user_id_str c) s of
        (Inl err, s) \<Rightarrow> ((StatusInternalServerError, ErrorBody err), s)
      | (Inr tmpls, s) \<Rightarrow> ((StatusOK, TemplatesBody tmpls), s))"

section \<open>Creation end to end\<close>

lemma create_commit_Inr:
  assumes "create_commit (main_system w key sender u a) id pick x arg rt = (Return (Inr y), rt')"
  shows "y = x \<and> pg_view (store rt') = (pg_view (store rt))(n_ID x \<mapsto> written (stamp (store rt)) x)
     \<and> pg_dead (store rt') = pg_dead (store rt) \<and> stamp (store rt') = stamp (store rt)
     \<and> channel rt' = channel rt @ (if is_zero (ca_executeAt arg) then [x] else [])
     \<and> (no_faults (store rt) \<longrightarrow> no_faults (store rt'))"
proof -
  obtain c d where c: "NotificationRepository_Save x (store rt) = (c, d)" by fastforce
  then have ok: "c = Inr ()" "y = x" "store rt' = d" "channel rt' = channel rt @ (if is_zero (ca_executeAt arg) then [x] else [])"
    using assms by (auto simp: create_commit_def Let_def push_def split: sum.splits if_splits select_send.splits)
  have "pg_view d = (pg_view (store rt))(n_ID x \<mapsto> written (stamp (store rt)) x)"
    using pg_notifications.save_view [of x "store rt" c d] c ok(1) by auto
  moreover have "pg_dead d = pg_dead (store rt)"
    using c by (auto simp: Save_exec pg_dead_def Let_def split: prod.splits dest!: exec_sql_tables)
  moreover have "stamp d = stamp (store rt)"
    using c by (auto simp: Save_exec split: prod.splits dest!: exec_sql_frameD)
  moreover have "no_faults (store rt) \<longrightarrow> no_faults d"
    using pg_notifications.save_reliable [of "store rt" x] c by auto
  ultimately show ?thesis using ok by simp
qed

lemma CreateNotification_Inr:
  assumes "CreateNotification (main_system w key sender u a) id pick now1 now2 uuid arg rt = (Return (Inr y), rt')"
  shows "y = new_notification now1 now2 uuid arg
     \<and> pg_view (store rt') = (pg_view (store rt))(uuid \<mapsto> written (stamp (store rt)) y)
     \<and> pg_dead (store rt') = pg_dead (store rt) \<and> stamp (store rt') = stamp (store rt)
     \<and> channel rt' = channel rt @ (if is_zero (ca_executeAt arg) then [y] else [])
     \<and> (no_faults (store rt) \<longrightarrow> no_faults (store rt'))"
proof -
  obtain c rt1 where c: "create_checks (main_system w key sender u a) (ca_template arg) (ca_userID arg) rt = (c, rt1)"
    by fastforce
  note f = create_checks_frame(1-3) [OF c]
  have commit: "create_commit (main_system w key sender u a) id pick (new_notification now1 now2 uuid arg) arg rt1 = (Return (Inr y), rt')"
    using assms by (auto simp: CreateNotification_def c split: sum.splits)
  moreover have "channel rt1 = channel rt" by (subst f(1)) simp
  ultimately show ?thesis using create_commit_Inr [OF commit] pg_obs_D [OF f(2)] f(3) by simp
qed

text \<open>The row a creation adds.\<close>

lemma Save_appends:
  assumes "NotificationRepository_Save x d = (Inr (), d')"
  shows "notifications (tables d') =
    notifications (tables d) @ [row_of_notification (stamp d) (JsonVars (n_Variable x)) (norm_user (n_UserID x)) x]"
  using assms
  by (cases rule: insert_row_cases [of id_col
        "row_of_notification (stamp d) (JsonVars (n_Variable x)) (norm_user (n_UserID x)) x" "notifications (tables d)"])
     (auto simp: Save_exec Let_def split: prod.splits sum.splits dest!: exec_sql_ok)

lemma CreateNotification_row:
  assumes "CreateNotification (main_system w key sender u a) id pick now1 now2 uuid arg rt = (Return (Inr y), rt')"
  shows "notifications (tables (store rt')) =
    notifications (tables (store rt)) @ [row_of_notification (stamp (store rt)) (JsonVars (n_Variable y)) (norm_user (n_UserID y)) y]"
proof -
  obtain c rt1 where c: "create_checks (main_system w key sender u a) (ca_template arg) (ca_userID arg) rt = (c, rt1)"
    by fastforce
  have o: "tables (store rt1) = tables (store rt)" "stamp (store rt1) = stamp (store rt)"
    using create_checks_frame(2) [OF c] by (simp_all add: pg_obs_def)
  have "\<exists>s. NotificationRepository_Save y (store rt1) = (Inr (), s) \<and> store rt' = s"
    using assms by (auto simp: CreateNotification_def c create_commit_def Let_def push_def
        split: sum.splits if_splits select_send.splits prod.splits)
  then show ?thesis using Save_appends o by metis
qed

lemma ScheduleNotification_Inr:
  "ScheduleNotification n format http x t = Inr () \<longleftrightarrow>
   (\<exists>code text. http (task_payload n format x t) = Reply code text \<and> code \<in> {StatusOK, StatusCreated})"
  by (auto simp: ScheduleNotification_def split: http_reply.splits)

text \<open>
  C18. What 202 means: whatever statements failed, the request was valid (a known type in any case, and
  an \<open>execute_at\<close> that parses and is not in the past, if there is one); exactly one row was added, it has the
  fresh id, the caller as its owner (\<open>global\<close> if there is none) and the recipient, template and variables of
  the request; the body shows this notification, which is PENDING and in the channel, or SCHEDULED at the
  requested time with the task scheduler's word that it has the task. No other notification changed.
\<close>

theorem create_accepted:
  assumes "Handler_Create (main_system w key sender u a) env (Inr req) c rt = (Return (StatusAccepted, b), rt')"
    and "ce_intr env = id"
  shows "\<exists>x. b = NotificationBody (toResponse (ce_utc_format env) x) \<and> n_ID x = ce_uuid env
     \<and> n_UserID x = user_id_str c \<and> n_RetryCount x = 0
     \<and> n_Recipient x = TrimSpace (ce_U env) (cr_Recipient req) \<and> n_Template x = TrimSpace (ce_U env) (cr_Template req)
     \<and> n_Variable x = cr_Variable req
     \<and> (\<exists>row. notifications (tables (store rt')) = notifications (tables (store rt)) @ [row]
          \<and> id_col row = ce_uuid env \<and> user_id_col row = Some (norm_user (user_id_str c))
          \<and> recipient_col row = n_Recipient x \<and> template_col row = n_Template x \<and> variable_col row = JsonVars (n_Variable x)
          \<and> type_col row = n_Type x \<and> status_col row = n_Status x)
     \<and> string_of_type (n_Type x) = ToUpper (ce_U env) (TrimSpace (ce_U env) (cr_Type req))
     \<and> pg_view (store rt') = (pg_view (store rt))(ce_uuid env \<mapsto> written (stamp (store rt)) x)
     \<and> (if cr_ExecuteAt req = '''' then n_Status x = Pending \<and> channel rt' = channel rt @ [x]
        else \<exists>t. ce_parse env (cr_ExecuteAt req) = Some t \<and> t \<ge> ce_check env \<and>
          (is_zero t \<or> n_Status x = Scheduled \<and> n_NextRetryAt x = t \<and> channel rt' = channel rt \<and>
             (\<exists>code text. ce_http env (task_payload (main_system w key sender u a) (ce_format env) x t) = Reply code text
                \<and> code \<in> {StatusOK, StatusCreated})))"
proof -
  let ?n = "main_system w key sender u a"
  obtain args where p: "parse_request (ce_U env) (ce_parse env) (ce_check env) (user_id_str c) (Inr req) = Inr args"
    using assms(1) by (auto simp: Handler_Create_def split: sum.splits)
  obtain x rt1 where cr: "CreateNotification ?n id (ce_pick env) (ce_now1 env) (ce_now2 env) (ce_uuid env) args rt = (Return (Inr x), rt1)"
    using assms by (auto simp: Handler_Create_def p split: sum.splits prod.splits outcome.splits)
  note x = CreateNotification_Inr [OF cr]
  have r: "rt' = rt1" "b = NotificationBody (toResponse (ce_utc_format env) x)"
      "\<not> is_zero (ca_executeAt args) \<longrightarrow> ScheduleNotification ?n (ce_format env) (ce_http env) x (ca_executeAt args) = Inr ()"
    using assms cr by (auto simp: Handler_Create_def p Let_def split: sum.splits prod.splits if_splits)
  have type: "string_of_type (ca_type args) = ToUpper (ce_U env) (TrimSpace (ce_U env) (cr_Type req))"
      and user: "ca_userID args = user_id_str c" "ca_recipient args = TrimSpace (ce_U env) (cr_Recipient req)"
         "ca_template args = TrimSpace (ce_U env) (cr_Template req)" "ca_variable args = cr_Variable req"
      and time: "if cr_ExecuteAt req = '''' then is_zero (ca_executeAt args)
         else ce_parse env (cr_ExecuteAt req) = Some (ca_executeAt args) \<and> ca_executeAt args \<ge> ce_check env"
    using p by (auto simp: parse_request_def Let_def type_of_string_Some is_zero_def split: option.splits if_splits)
  have fields: "n_ID x = ce_uuid env" "n_UserID x = user_id_str c" "n_Recipient x = TrimSpace (ce_U env) (cr_Recipient req)"
      "n_Template x = TrimSpace (ce_U env) (cr_Template req)" "n_Variable x = cr_Variable req"
    using x user by (simp_all add: new_notification_def)
  have row: "\<exists>row. notifications (tables (store rt')) = notifications (tables (store rt)) @ [row]
      \<and> id_col row = ce_uuid env \<and> user_id_col row = Some (norm_user (user_id_str c))
      \<and> recipient_col row = n_Recipient x \<and> template_col row = n_Template x \<and> variable_col row = JsonVars (n_Variable x)
      \<and> type_col row = n_Type x \<and> status_col row = n_Status x"
    unfolding r(1) CreateNotification_row [OF cr] by (rule exI, intro conjI, rule refl) (simp_all add: row_of_notification_def fields)
  have rest: "if cr_ExecuteAt req = '''' then n_Status x = Pending \<and> channel rt' = channel rt @ [x]
        else \<exists>t. ce_parse env (cr_ExecuteAt req) = Some t \<and> t \<ge> ce_check env \<and>
          (is_zero t \<or> n_Status x = Scheduled \<and> n_NextRetryAt x = t \<and> channel rt' = channel rt \<and>
             (\<exists>code text. ce_http env (task_payload ?n (ce_format env) x t) = Reply code text
                \<and> code \<in> {StatusOK, StatusCreated}))"
    using x r time ScheduleNotification_Inr [of ?n "ce_format env" "ce_http env" x "ca_executeAt args"]
    by (auto simp: new_notification_def split: if_splits)
  show ?thesis
    by (rule exI [of _ x], intro conjI) (use x r type row fields rest in \<open>simp_all add: new_notification_def\<close>)
qed

definition demo_env :: "http_reply \<Rightarrow> ndb create_env" where
  "demo_env reply = \<lparr>ce_U = ascii_only, ce_parse = (\<lambda>_. Some 7), ce_format = (\<lambda>_. ''t''), ce_utc_format = (\<lambda>_. ''t''),
     ce_check = 5, ce_now1 = 5, ce_now2 = 5, ce_uuid = ''a'', ce_intr = id, ce_pick = True, ce_http = (\<lambda>_. reply)\<rparr>"

definition demo_create :: "string \<Rightarrow> createNotificationRequest" where
  "demo_create when = \<lparr>cr_Recipient = ''device'', cr_Template = ''MFA'', cr_Variable = [], cr_Type = ''push'', cr_ExecuteAt = when\<rparr>"

definition demo_context :: "string \<Rightarrow> gin_context" where
  "demo_context ident = \<lparr>c_header_authorization = ''Bearer k'', c_param_id = ident, c_client_ip = [], c_user_id = Some ''u1''\<rparr>"

lemma demo_context_id [simp]: "c_param_id (demo_context i) = i"
  by (simp add: demo_context_def)

lemma demo_strings [simp]:
  "TrimSpace ascii_only ''push'' = ''push''" "ToUpper ascii_only ''push'' = ''PUSH''"
  "TrimSpace ascii_only ''MFA'' = ''MFA''" "TrimSpace ascii_only ''device'' = ''device''"
  "TrimSpace ascii_only ''mfa'' = ''mfa''" "ToUpper ascii_only ''mfa'' = ''MFA''" "TrimSpace ascii_only ''b'' = ''b''"
  by code_simp+

lemmas create_exec = parse_request_def type_of_string_def CreateNotification_def create_checks_def create_commit_def
  select_send_or_done_def push_def NotificationRepository_GetTotalCount_def TemplateRepository_Get_def Save_exec
  new_notification_def insert_row_def has_key_def full_db_def main_runtime_def is_zero_def
  zero_time_def max_total_def template_rows_def norm_user_def row_of_notification_def demo_env_def demo_create_def
  demo_context_def user_id_str_def exec_sql_no_faults ScheduleNotification_def

theorem create_accepted_witness:
  "\<exists>b rt'. Handler_Create demo_system (demo_env (Reply 201 [])) (Inr (demo_create ''soon'')) (demo_context [])
       (main_runtime (full_db 0)) = (Return (StatusAccepted, b), rt')
     \<and> status_of ''a'' (store rt') = Some Scheduled"
proof -
  obtain b rt' where r: "Handler_Create demo_system (demo_env (Reply 201 [])) (Inr (demo_create ''soon'')) (demo_context [])
       (main_runtime (full_db 0)) = (Return (StatusAccepted, b), rt')"
    by (simp add: Handler_Create_def create_exec demo_system_def Let_def)
  have "ce_intr (demo_env (Reply 201 [])) = id" by (simp add: demo_env_def)
  from create_accepted [OF r [unfolded demo_system_def] this] obtain x where
    "pg_view (store rt') = (pg_view (full_db 0))(''a'' \<mapsto> written id x)" "n_Status x = Scheduled"
    by (auto simp: demo_env_def demo_create_def is_zero_def zero_time_def full_db_facts)
  then show ?thesis using r by (auto simp: status_of_def written_def)
qed

text \<open>
  When the scheduler does not take the task, the client gets 500 and the stored notification ends in
  DLQ, so nothing will ever send it - but it is not put into the dead-letter table, and the record the
  client cannot name stays behind.
\<close>

lemma create_schedule_failure:
  assumes "no_faults (store rt)" and "ce_intr env = id"
    and "parse_request (ce_U env) (ce_parse env) (ce_check env) (user_id_str c) (Inr req) = Inr args"
    and "CreateNotification (main_system w key sender u a) id (ce_pick env) (ce_now1 env) (ce_now2 env) (ce_uuid env) args rt
           = (Return (Inr x), rt1)"
    and "\<not> is_zero (ca_executeAt args)"
    and "ScheduleNotification (main_system w key sender u a) (ce_format env) (ce_http env) x (ca_executeAt args) = Inl err"
  shows "\<exists>rt'. Handler_Create (main_system w key sender u a) env (Inr req) c rt =
       (Return (StatusInternalServerError, ErrorBody (''failed to delegate scheduled task: '' @ err)), rt')
     \<and> status_of (ce_uuid env) (store rt') = Some DLQ \<and> pg_dead (store rt') = pg_dead (store rt)
     \<and> (\<forall>k. k \<noteq> ce_uuid env \<longrightarrow> pg_view (store rt') k = pg_view (store rt) k)"
proof -
  note x = CreateNotification_Inr [OF assms(4)]
  let ?y = "x\<lparr>n_Status := DLQ, n_ErrorMessage := ''failed to schedule task: '' @ err\<rparr>"
  have id: "n_ID ?y = ce_uuid env" using x by simp
  have nf: "no_faults (store rt1)" using x assms(1) by simp
  have k: "pg_view (store rt1) (n_ID ?y) \<noteq> None" using x by simp
  obtain s where s: "NotificationRepository_Update ?y (store rt1) = (Inr (), s)"
      "pg_dead s = pg_dead (store rt1)" "pg_view s = (pg_view (store rt1))(n_ID ?y \<mapsto> written (stamp (store rt1)) ?y)"
    using pg_backend.update_step [OF nf k] by auto
  have "Handler_Create (main_system w key sender u a) env (Inr req) c rt =
       (Return (StatusInternalServerError, ErrorBody (''failed to delegate scheduled task: '' @ err)), rt1\<lparr>store := s\<rparr>)"
    using assms(2-6) s(1) by (simp add: Handler_Create_def)
  then show ?thesis using s x id by (auto simp: status_of_def written_def)
qed

lemma create_schedule_failure_witness:
  "\<exists>rt'. Handler_Create demo_system (demo_env (Reply 500 ''down'')) (Inr (demo_create ''soon'')) (demo_context [])
       (main_runtime (full_db 0)) = (Return (StatusInternalServerError, ErrorBody
          ''failed to delegate scheduled task: scheduler returned non-2xx status code 500: down''), rt')
     \<and> status_of ''a'' (store rt') = Some DLQ \<and> pg_dead (store rt') = {}"
proof -
  let ?env = "demo_env (Reply 500 ''down'')"
  obtain args where p: "parse_request (ce_U ?env) (ce_parse ?env) (ce_check ?env) (user_id_str (demo_context [])) (Inr (demo_create ''soon'')) = Inr args"
      "ca_executeAt args = 7" "ca_template args = ''MFA''" "ca_userID args = ''u1''"
    by (simp add: create_exec)
  obtain x rt1 where c: "CreateNotification demo_system id (ce_pick ?env) (ce_now1 ?env) (ce_now2 ?env) (ce_uuid ?env) args
      (main_runtime (full_db 0)) = (Return (Inr x), rt1)"
    using p(2-4) by (simp add: create_exec demo_system_def)
  have "decimal 500 = ''500''" by code_simp
  then have s: "ScheduleNotification demo_system (ce_format ?env) (ce_http ?env) x (ca_executeAt args) =
      Inl ''scheduler returned non-2xx status code 500: down''"
    by (simp add: ScheduleNotification_def demo_env_def)
  have "no_faults (store (main_runtime (full_db 0)))" "ce_intr ?env = id" "\<not> is_zero (ca_executeAt args)"
      "pg_dead (full_db 0) = {}"
    using p(2) by (simp_all add: full_db_facts is_zero_def zero_time_def demo_env_def) (simp add: pg_dead_def full_db_def)
  from create_schedule_failure [OF this(1,2) p(1) c [unfolded demo_system_def] this(3) s [unfolded demo_system_def]] this(4)
  show ?thesis by (simp add: demo_system_def demo_env_def) blast
qed

section \<open>Reading a notification\<close>

definition visible_to :: "string \<Rightarrow> string \<Rightarrow> notif_row \<Rightarrow> bool" where
  "visible_to u ident r \<longleftrightarrow> id_col r = ident \<and> (user_is r u \<or> user_is r global_user)"

lemma Get_no_faults:
  "no_faults d \<Longrightarrow> NotificationRepository_Get ident u d =
     (case find (\<lambda>r. id_col r = ident \<and> (u = system_user \<or> user_is r u \<or> user_is r global_user)) (notifications (tables d)) of
        None \<Rightarrow> Inl ''notification not found''
      | Some r \<Rightarrow> (case scan_row r of Inl (ScanFailed err) \<Rightarrow> Inl (''get notification: '' @ err_msg err)
          | Inl (UnmarshalFailed err) \<Rightarrow> Inl (''unmarshal variables: '' @ err) | Inr n \<Rightarrow> Inr n), d)"
  by (cases d) (auto simp: NotificationRepository_Get_def select_one_def no_faults_def exec_sql_no_faults
      split: option.split sum.split scan_error.split)

lemma DLQ_Get_no_faults:
  "no_faults d \<Longrightarrow> DLQRepository_Get ident u d =
     (case find (visible_to u ident) (dlq_notifications (tables d)) of
        None \<Rightarrow> Inl ''dlq notification not found''
      | Some r \<Rightarrow> (case scan_row r of Inl (ScanFailed err) \<Rightarrow> Inl (''get dlq notification: '' @ err_msg err)
          | Inl (UnmarshalFailed err) \<Rightarrow> Inl (''unmarshal variables: '' @ err) | Inr n \<Rightarrow> Inr n), d)"
  by (cases d) (auto simp: DLQRepository_Get_def select_one_def no_faults_def exec_sql_no_faults visible_to_def [abs_def]
      split: option.split sum.split scan_error.split)

lemma not_found_text: "contains ''notification not found'' ''not found''"
  unfolding contains_iff by (rule exI [of _ "''notification ''"], rule exI [of _ "[]"]) simp

text \<open>
  Reading by id, on a store whose rows all scan: the caller sees the live notification if it is his
  or global, else the dead letter under that id if it is his or global, else 404. The two tables are
  searched in this order, other users' rows look as if they did not exist, and nothing is changed.
\<close>

lemma get_by_id:
  assumes "no_faults d" and "scannable d" and "\<forall>r \<in> set (dlq_notifications (tables d)). \<exists>x. scan_row r = Inr x"
    and "user_id_str c \<noteq> system_user"
  shows "Handler_GetByID (main_system w key sender u a) format c d =
     ((case find (visible_to (user_id_str c) (c_param_id c)) (notifications (tables d) @ dlq_notifications (tables d)) of
         Some r \<Rightarrow> (StatusOK, NotificationBody (toResponse format (projr (scan_row r))))
       | None \<Rightarrow> (StatusNotFound, ErrorBody ''notification not found'')), d)"
proof -
  have live: "\<exists>x. scan_row r = Inr x" if "find P (notifications (tables d)) = Some r" for P r
    using that assms(2) by (auto simp: scannable_def dest: find_Some_D)
  have dead: "\<exists>x. scan_row r = Inr x" if "find P (dlq_notifications (tables d)) = Some r" for P r
    using that assms(3) by (auto dest: find_Some_D)
  have "(\<lambda>r. id_col r = c_param_id c \<and> (user_is r (user_id_str c) \<or> user_is r global_user)) = visible_to (user_id_str c) (c_param_id c)"
    by (simp add: visible_to_def [abs_def])
  then show ?thesis
    using live [of "visible_to (user_id_str c) (c_param_id c)"] dead [of "visible_to (user_id_str c) (c_param_id c)"] assms(4)
    by (auto simp: Handler_GetByID_def Let_def Get_no_faults [OF assms(1)] DLQ_Get_no_faults [OF assms(1)]
        not_found_text find_append_case simp del: contains.simps split: option.split)
qed

lemma get_by_id_witness:
  "fst (fst (Handler_GetByID demo_system (\<lambda>_. ''t'') (demo_context ''a'') two_jobs)) = StatusOK
   \<and> fst (fst (Handler_GetByID demo_system (\<lambda>_. ''t'') (demo_context ''z'') two_jobs)) = StatusNotFound"
proof -
  have d: "no_faults two_jobs" "scannable two_jobs" "\<forall>r \<in> set (dlq_notifications (tables two_jobs)). \<exists>x. scan_row r = Inr x"
    by (simp_all add: two_jobs_def jobs_db_def job_row_def no_faults_def scannable_def scan_row_ok)
  have u: "user_id_str (demo_context i) \<noteq> system_user" for i by (simp add: demo_context_def user_id_str_def system_user_def)
  show ?thesis
    unfolding demo_system_def get_by_id [OF d u]
    by (simp add: two_jobs_def jobs_db_def job_row_def visible_to_def user_is_def demo_context_def user_id_str_def)
qed

section \<open>The callback of the task scheduler\<close>

lemma Get_system_Inr:
  assumes "NotificationRepository_Get k system_user d = (Inr x, d')"
  shows "n_ID x = k \<and> pg_view d k = Some \<lparr>v_status = n_Status x, v_retries = n_RetryCount x, v_next = n_NextRetryAt x\<rparr>
     \<and> tables d' = tables d \<and> stamp d' = stamp d \<and> (no_faults d \<longrightarrow> no_faults d')"
proof -
  let ?q = "\<lambda>t. (select_one (\<lambda>r. id_col r = k \<and> (system_user = system_user \<or> user_is r system_user \<or> user_is r global_user))
      (notifications t), t)"
  obtain q d1 where q: "exec_sql ?q d = (q, d1)" by fastforce
  obtain r where r: "q = Inr r" "scan_row r = Inr x" "d1 = d'"
    using assms q by (auto simp: NotificationRepository_Get_def split: sum.splits if_splits scan_error.splits)
  have "row_of id_col k (notifications (tables d)) = Some r"
    using exec_sql_ok [OF q [unfolded r(1)]] by (auto simp: select_one_def row_of_def split: option.splits)
  then have "n_ID x = k" "pg_view d k = Some \<lparr>v_status = n_Status x, v_retries = n_RetryCount x, v_next = n_NextRetryAt x\<rparr>"
    using scan_row_Inr [OF r(2)] by (auto simp: pg_view_def row_view_def dest: row_of_Some_D)
  moreover have "tables d' = tables d" "stamp d' = stamp d" using frame_of_read [OF q] r(3) by simp_all
  moreover have "no_faults d \<longrightarrow> no_faults d'" using exec_sql_faults_suffix [OF q] r(3) by (simp add: no_faults_def)
  ultimately show ?thesis by blast
qed

lemma Get_system_reliable:
  assumes "no_faults d" and "scannable d"
  shows "NotificationRepository_Get k system_user d =
     (case row_of id_col k (notifications (tables d)) of None \<Rightarrow> Inl ''notification not found'' | Some r \<Rightarrow> Inr (projr (scan_row r)), d)"
proof -
  have "\<exists>x. scan_row r = Inr x" if "row_of id_col k (notifications (tables d)) = Some r" for r
    using that assms(2) by (auto simp: scannable_def dest!: row_of_Some_D)
  then show ?thesis by (auto simp: Get_no_faults [OF assms(1)] row_of_def split: option.split)
qed

definition authorized :: "unicode \<Rightarrow> 's NotificationSystem \<Rightarrow> gin_context \<Rightarrow> bool" where
  "authorized U system c \<longleftrightarrow> bearer_token U (c_header_authorization c) = Some (ns_SchedulerAPIKey system)"

lemma dispatch_unauthorized:
  "\<not> authorized U system c \<Longrightarrow> Handler_DispatchCallback U system now c rt =
     (Return (StatusUnauthorized, ErrorBody ''unauthorized callback access''), rt)"
  by (auto simp: Handler_DispatchCallback_def authorized_def split: option.split)

text \<open>
  C21. The callback moves exactly the SCHEDULED notifications, on a fault-free store and with an open
  channel: a caller without the key gets 401 and changes nothing; an unknown id is 404; any other status
  is 400 and changes nothing; a SCHEDULED notification becomes PENDING and due now, with its retries
  kept, and goes into the channel (200) or, when that is full, is left to the poller (503).
\<close>

theorem dispatch_callback:
  assumes "no_faults (store rt)" and "scannable (store rt)" and "\<not> ch_closed rt"
    and n: "n = main_system w key sender u a" and run: "Handler_DispatchCallback U n now c rt = (r, rt')"
  shows "if \<not> authorized U n c then r = Return (StatusUnauthorized, ErrorBody ''unauthorized callback access'') \<and> rt' = rt
     else case pg_view (store rt) (c_param_id c) of
       None \<Rightarrow> r = Return (StatusNotFound, ErrorBody ''notification record not found'') \<and> rt' = rt
     | Some v \<Rightarrow>
         if v_status v \<noteq> Scheduled then (\<exists>msg. r = Return (StatusBadRequest, ErrorBody msg)) \<and> rt' = rt
         else pg_view (store rt') = (pg_view (store rt))(c_param_id c \<mapsto> v\<lparr>v_status := Pending, v_next := stamp (store rt) now\<rparr>)
           \<and> (if length (channel rt) < capacity rt
              then r = Return (StatusOK, StatusBody ''dispatched'') \<and> (\<exists>x. n_ID x = c_param_id c \<and> channel rt' = channel rt @ [x])
              else (\<exists>msg. r = Return (StatusServiceUnavailable, ErrorBody msg)) \<and> channel rt' = channel rt)"
proof (cases "authorized U n c")
  case False
  then show ?thesis using run dispatch_unauthorized [OF False, of now rt] by simp
next
  case auth: True
  let ?k = "c_param_id c"
  note get = Get_system_reliable [OF assms(1,2), of ?k]
  show ?thesis
  proof (cases "row_of id_col ?k (notifications (tables (store rt)))")
    case None
    then show ?thesis using run auth get
      by (simp add: Handler_DispatchCallback_def authorized_def n pg_view_def)
  next
    case (Some row)
    then obtain x where x: "scan_row row = Inr x"
      using assms(2) by (auto simp: scannable_def dest!: row_of_Some_D)
    then have g: "NotificationRepository_Get ?k system_user (store rt) = (Inr x, store rt)" using get Some by simp
    note v = Get_system_Inr [OF g]
    show ?thesis
    proof (cases "n_Status x = Scheduled")
      case False
      then show ?thesis using run auth g v by (auto simp: Handler_DispatchCallback_def authorized_def n)
    next
      case True
      let ?y = "x\<lparr>n_Status := Pending, n_NextRetryAt := now\<rparr>"
      obtain s where s: "NotificationRepository_Update ?y (store rt) = (Inr (), s)"
          "pg_view s = (pg_view (store rt))(n_ID ?y \<mapsto> written (stamp (store rt)) ?y)"
        using pg_backend.update_step [of "store rt" ?y] assms(1) v by auto
      then show ?thesis using run auth g v True assms(3)
        by (auto simp: Handler_DispatchCallback_def authorized_def n written_def push_def)
    qed
  qed
qed

definition scheduled_db :: ndb where
  "scheduled_db = jobs_db 9 [job_row ''s'' 1 Scheduled (Some [])]"

lemma scheduled_db_facts:
  "no_faults scheduled_db" "scannable scheduled_db" "stamp scheduled_db = id"
  "pg_view scheduled_db ''s'' = Some \<lparr>v_status = Scheduled, v_retries = 0, v_next = 1\<rparr>"
  by (simp_all add: scheduled_db_def jobs_db_def job_row_def no_faults_def scannable_def scan_row_ok pg_view_def row_of_def row_view_def)

lemma demo_authorized: "authorized U demo_system (demo_context i)"
  using bearer_token_built [of U "''k''"] by (simp add: authorized_def demo_context_def demo_system_def)

theorem dispatch_callback_witness:
  "\<exists>rt'. Handler_DispatchCallback ascii_only demo_system 9 (demo_context ''s'') (main_runtime scheduled_db)
       = (Return (StatusOK, StatusBody ''dispatched''), rt') \<and> status_of ''s'' (store rt') = Some Pending"
proof -
  have "no_faults (store (main_runtime scheduled_db))" "scannable (store (main_runtime scheduled_db))"
      "\<not> ch_closed (main_runtime scheduled_db)" by (simp_all add: scheduled_db_facts)
  from dispatch_callback [OF this demo_system_def prod.collapse [symmetric], where U = ascii_only and now = 9
      and c = "demo_context ''s''"]
  show ?thesis
    by (intro exI [of _ "snd (Handler_DispatchCallback ascii_only demo_system 9 (demo_context ''s'') (main_runtime scheduled_db))"])
       (auto simp: demo_authorized scheduled_db_facts status_of_def prod_eq_iff)
qed

text \<open>
  A notification is dispatched once: after a callback that handed it over, or left it to the poller,
  a second callback for the same id is refused and puts nothing into the channel, whatever statements
  fail in either call. So a scheduler that retries after a 503 is told 400.
\<close>

lemma dispatch_once:
  assumes "Handler_DispatchCallback U n now c rt = (Return (code, b), rt1)" and "code \<in> {StatusOK, StatusServiceUnavailable}"
    and "Handler_DispatchCallback U n now2 c rt1 = (r2, rt2)" and n: "n = main_system w key sender u a"
  shows "channel rt2 = channel rt1 \<and> pg_view (store rt2) = pg_view (store rt1)
     \<and> (\<exists>code2 b2. r2 = Return (code2, b2) \<and> code2 \<in> {StatusBadRequest, StatusNotFound})"
proof -
  let ?k = "c_param_id c"
  have auth: "authorized U n c"
  proof (rule ccontr)
    assume "\<not> authorized U n c"
    from dispatch_unauthorized [OF this, of now rt] assms(1,2) show False by simp
  qed
  obtain g s where g: "NotificationRepository_Get ?k system_user (store rt) = (g, s)" by fastforce
  obtain x where x: "g = Inr x" "n_Status x = Scheduled"
    using assms(1,2) auth g by (auto simp: Handler_DispatchCallback_def authorized_def n split: sum.splits if_splits)
  let ?y = "x\<lparr>n_Status := Pending, n_NextRetryAt := now\<rparr>"
  obtain q s1 where q: "NotificationRepository_Update ?y s = (q, s1)" by fastforce
  have up: "q = Inr ()" "store rt1 = s1"
    using assms(1,2) auth g x q
    by (auto simp: Handler_DispatchCallback_def authorized_def n push_def split: sum.splits if_splits)
  have "pg_view s1 = set_view (stamp s) ?y (pg_view s)"
    using pg_notifications.update_view [of ?y s q s1] q up(1) by auto
  moreover have "n_ID x = ?k" using Get_system_Inr [OF g [unfolded x(1)]] by simp
  ultimately have st: "pg_view s1 ?k = Some v \<Longrightarrow> v_status v = Pending" for v
    by (auto simp: set_view_def written_def)
  obtain g2 s2 where g2: "NotificationRepository_Get ?k system_user s1 = (g2, s2)" by fastforce
  show ?thesis
  proof (cases g2)
    case (Inl err)
    have "tables s2 = tables s1"
      using g2 Inl by (auto simp: NotificationRepository_Get_def split: prod.splits sum.splits if_splits scan_error.splits
          dest!: view_of_read)
    then show ?thesis using assms(3) auth g2 Inl up(2)
      by (auto simp: Handler_DispatchCallback_def authorized_def n pg_view_def [abs_def])
  next
    case (Inr x2)
    note v2 = Get_system_Inr [OF g2 [unfolded Inr]]
    then have "n_Status x2 = Pending" using st by auto
    then show ?thesis using assms(3) auth g2 Inr up(2) v2
      by (auto simp: Handler_DispatchCallback_def authorized_def n pg_view_def [abs_def])
  qed
qed

lemma demo_dispatch:
  "\<exists>rt'. Handler_DispatchCallback ascii_only demo_system 9 (demo_context ''s'') (main_runtime scheduled_db)
       = (Return (StatusOK, StatusBody ''dispatched''), rt')"
proof -
  have "NotificationRepository_Get ''s'' system_user scheduled_db =
      (Inr \<lparr>n_ID = ''s'', n_Recipient = ''a@b.c'', n_Template = ''MFA'', n_Variable = [], n_RetryCount = 0, n_CreatedAt = 1,
         n_Type = Email, n_Status = Scheduled, n_NextRetryAt = 1, n_UserID = ''u1'', n_ErrorMessage = []\<rparr>, scheduled_db)"
    by (simp add: Get_system_reliable scheduled_db_facts)
       (simp add: scheduled_db_def jobs_db_def job_row_def row_of_def scan_row_def)
  then show ?thesis
    using demo_authorized [of ascii_only "''s''"]
    by (simp add: Handler_DispatchCallback_def authorized_def demo_context_def demo_system_def Update_exec
        scheduled_db_def jobs_db_def exec_sql_no_faults Let_def)
qed

lemma dispatch_once_witness:
  "\<exists>rt1 rt2 b. Handler_DispatchCallback ascii_only demo_system 9 (demo_context ''s'') (main_runtime scheduled_db)
       = (Return (StatusOK, StatusBody ''dispatched''), rt1)
     \<and> Handler_DispatchCallback ascii_only demo_system 9 (demo_context ''s'') rt1 = (Return b, rt2) \<and> channel rt2 = channel rt1"
proof -
  obtain rt1 where r: "Handler_DispatchCallback ascii_only demo_system 9 (demo_context ''s'') (main_runtime scheduled_db)
       = (Return (StatusOK, StatusBody ''dispatched''), rt1)" using demo_dispatch by blast
  from dispatch_once [OF r _ prod.collapse [symmetric] demo_system_def, where ?now2.0 = 9] r show ?thesis
    by (metis insertI1 prod.collapse)
qed

section \<open>Templates\<close>

text \<open>
  \<open>Save\<close> stores the upper-cased, trimmed name, so that is how \<open>Get\<close> and \<open>GetAll\<close> know the template.
\<close>

lemma template_save_handler:
  assumes "no_faults d" and "Handler_TemplateSave U TemplateRepository (Inr (nm, bd)) c d = (r, d')"
  shows "if ToUpper U (TrimSpace U nm) = '''' \<or> TrimSpace U bd = ''''
     then r = (StatusBadRequest, ErrorBody ''name and body cannot be empty'') \<and> d' = d
     else r = (StatusOK, TemplateBody (ToUpper U (TrimSpace U nm)) (TrimSpace U bd)) \<and> no_faults d'
       \<and> pg_template_view d' = save_view (pg_template_view d) (user_id_str c) (ToUpper U (TrimSpace U nm)) (TrimSpace U bd)
       \<and> (\<exists>m d2. Handler_TemplateGetAll TemplateRepository c d' = ((StatusOK, TemplatesBody m), d2)
            \<and> m (ToUpper U (TrimSpace U nm)) = Some (TrimSpace U bd))"
proof (cases "ToUpper U (TrimSpace U nm) = '''' \<or> TrimSpace U bd = ''''")
  case True
  then show ?thesis using assms(2) by (auto simp: Handler_TemplateSave_def Let_def)
next
  case False
  let ?name = "ToUpper U (TrimSpace U nm)" and ?body = "TrimSpace U bd" and ?u = "user_id_str c"
  obtain s where s: "TemplateRepository_Save ?name ?body ?u d = (Inr (), s)" "no_faults s"
    using pg_templates.reliable_save [OF assms(1), of ?name ?body ?u] by (auto simp: prod_eq_iff)
  then have r: "r = (StatusOK, TemplateBody ?name ?body)" "d' = s"
    using assms(2) False by (auto simp: Handler_TemplateSave_def Let_def)
  have v: "pg_template_view s = save_view (pg_template_view d) ?u ?name ?body"
    using pg_templates.save_ok [of ?name ?body ?u d s] s by simp
  obtain m d2 where m: "TemplateRepository_GetAll ?u s = (Inr m, d2)"
    by (cases "TemplateRepository_GetAll ?u s")
       (use s(2) in \<open>auto simp: TemplateRepository_GetAll_def rows_err_def exec_sql_no_faults no_faults_def Let_def
          split: prod.splits sum.splits\<close>)
  then have "m ?name = Some ?body"
    using pg_templates.get_all_ok [of ?u s m d2 ?name] v by (simp add: resolve_save_same)
  then show ?thesis using False r v s(2) m by (simp add: Handler_TemplateGetAll_def)
qed

lemma template_save_handler_witness:
  "\<exists>d'. Handler_TemplateSave ascii_only TemplateRepository (Inr (''mfa'', ''b'')) (demo_context []) (full_db 0)
     = ((StatusOK, TemplateBody ''MFA'' ''b''), d')"
proof -
  obtain r d' where r: "Handler_TemplateSave ascii_only TemplateRepository (Inr (''mfa'', ''b'')) (demo_context []) (full_db 0) = (r, d')"
    by fastforce
  have "no_faults (full_db 0)" by (simp add: full_db_facts)
  from template_save_handler [OF this r] r show ?thesis by simp
qed

text \<open>
  But \<open>Create\<close> looks a template up by its trimmed name as it is: a client that saves a template under
  a name with a lower-case letter and then creates a notification with that same name gets 400, unless
  some template of exactly that spelling existed before.
\<close>

lemma template_name_case_mismatch:
  assumes "no_faults (store rt)" and "Handler_TemplateSave U TemplateRepository (Inr (nm, bd)) c (store rt) = ((StatusOK, b), d')"
    and "ToUpper U (TrimSpace U nm) \<noteq> TrimSpace U nm"
    and "resolve (pg_template_view (store rt)) (user_id_str c) (TrimSpace U nm) = None"
    and "ce_U env = U" and "cr_Template req = nm"
    and "Handler_Create (main_system w key sender u a) env (Inr req) c (rt\<lparr>store := d'\<rparr>) = (r, rt')"
  shows "\<exists>msg. r = Return (StatusBadRequest, ErrorBody msg) \<and> tables (store rt') = tables d'"
proof -
  let ?name = "ToUpper U (TrimSpace U nm)"
  have saved: "TemplateRepository_Save ?name (TrimSpace U bd) (user_id_str c) (store rt) = (Inr (), d')"
    using assms(2) by (auto simp: Handler_TemplateSave_def Let_def split: if_splits prod.splits sum.splits)
  have nf: "no_faults d'"
    using pg_templates.reliable_save [OF assms(1), of ?name "TrimSpace U bd" "user_id_str c"] saved by simp
  have v: "pg_template_view d' = save_view (pg_template_view (store rt)) (user_id_str c) ?name (TrimSpace U bd)"
    using pg_templates.save_ok [of ?name "TrimSpace U bd" "user_id_str c" "store rt" d'] saved by simp
  have none: "resolve (pg_template_view d') (user_id_str c) (TrimSpace U nm) = None"
    unfolding v using assms(3,4) by (subst resolve_save_other_name) auto
  show ?thesis
  proof (cases "parse_request U (ce_parse env) (ce_check env) (user_id_str c) (Inr req)")
    case (Inl err)
    then show ?thesis using assms(5,7) by (auto simp: Handler_Create_def)
  next
    case (Inr args)
    have args: "ca_template args = TrimSpace U nm" "ca_userID args = user_id_str c"
      using Inr assms(6) by (auto simp: parse_request_def Let_def split: option.splits if_splits)
    let ?rt = "rt\<lparr>store := d'\<rparr>"
    obtain e rt1 where e: "create_checks (main_system w key sender u a) (ca_template args) (ca_userID args) ?rt = (Inl e, rt1)"
      using create_checks_result [of ?rt w key sender u a "ca_template args" "ca_userID args"] nf none args
      by (cases "create_checks (main_system w key sender u a) (ca_template args) (ca_userID args) ?rt") (auto split: if_splits)
    have "tables (store rt1) = tables d'" using create_checks_frame(2) [OF e] by (simp add: pg_obs_def)
    then show ?thesis using assms(5,7) Inr e by (auto simp: Handler_Create_def CreateNotification_def)
  qed
qed

lemma template_name_case_mismatch_witness:
  "\<exists>d' msg rt'. Handler_TemplateSave ascii_only TemplateRepository (Inr (''mfa'', ''b'')) (demo_context []) (full_db 0)
       = ((StatusOK, TemplateBody ''MFA'' ''b''), d')
     \<and> Handler_Create demo_system (demo_env (Reply 201 [])) (Inr ((demo_create [])\<lparr>cr_Template := ''mfa''\<rparr>)) (demo_context [])
         ((main_runtime (full_db 0))\<lparr>store := d'\<rparr>) = (Return (StatusBadRequest, ErrorBody msg), rt')"
proof -
  have nf: "no_faults (store (main_runtime (full_db 0)))" by (simp add: full_db_facts)
  obtain d' where s: "TemplateRepository_Save ''MFA'' ''b'' ''u1'' (full_db 0) = (Inr (), d')"
    using pg_templates.reliable_save [of "full_db 0" "''MFA''" "''b''" "''u1''"] nf by (auto simp: prod_eq_iff)
  then have r: "Handler_TemplateSave ascii_only TemplateRepository (Inr (''mfa'', ''b'')) (demo_context [])
      (store (main_runtime (full_db 0))) = ((StatusOK, TemplateBody ''MFA'' ''b''), d')"
    by (simp add: Handler_TemplateSave_def demo_context_def user_id_str_def)
  have none: "resolve (pg_template_view (store (main_runtime (full_db 0)))) (user_id_str (demo_context [])) ''mfa'' = None"
    by (simp add: resolve_def pg_template_view_def full_db_def row_of_def template_key_def norm_user_def demo_context_def user_id_str_def)
  have "ToUpper ascii_only (TrimSpace ascii_only ''mfa'') \<noteq> TrimSpace ascii_only ''mfa''"
       "ce_U (demo_env (Reply 201 [])) = ascii_only" "cr_Template ((demo_create [])\<lparr>cr_Template := ''mfa''\<rparr>) = ''mfa''"
    by (simp_all add: demo_env_def)
  from template_name_case_mismatch [OF nf r this(1) _ this(2,3) prod.collapse [symmetric], where w = 5 and key = "[]"
      and sender = "[]" and u = "''http://task-scheduler:8081''" and a = "''k''"] none r
  show ?thesis by (simp add: demo_system_def prod_eq_iff)
qed

end
