(* ===== verification/Router.thy ===== *)
theory Router
  imports RateLimit NotificationHandlers
begin

text \<open>
  The HTTP front of the notification service: \<open>internal/router/router.go\<close> - which endpoints exist, which
  middlewares each goes through, and a request's way through them into the handlers.

  Gin's matching of a path to a route and its recovery and logging middlewares are not modelled: a request
  names its endpoint. The routes are built by nested groups as in the code. The embedded pages are data: the
  text of the landing page, if it can be read, and the answers of the library's file server for the dashboard.
\<close>

section \<open>Routes\<close>

datatype http_method = GET | HEAD | POST

datatype middleware = AuthMiddleware | RateLimiter

datatype endpoint = Dashboard | Landing | HealthCheck | Dispatch | NotificationById | TemplateList
  | NotificationCreate | TemplateSave

record route =
  rt_method :: http_method
  rt_path :: string
  rt_chain :: "middleware list"
  rt_endpoint :: endpoint

definition handle_route :: "middleware list \<Rightarrow> string \<Rightarrow> http_method \<Rightarrow> string \<Rightarrow> endpoint \<Rightarrow> route" where
  "handle_route grp prefix m path e = \<lparr>rt_method = m, rt_path = prefix @ path, rt_chain = grp, rt_endpoint = e\<rparr>"

text \<open>\<open>web\<close> says whether the directory of the embedded pages could be opened.\<close>

definition New :: "bool \<Rightarrow> route list" where
  "New web =
     (let r = [];
          v1 = r @ [AuthMiddleware];
          mutations = v1 @ [RateLimiter];
          api = ''/api/v1''
      in (if web then [handle_route r [] GET ''/dashboard/*filepath'' Dashboard,
                       handle_route r [] HEAD ''/dashboard/*filepath'' Dashboard,
                       handle_route r [] GET ''/'' Landing] else [])
         @ [handle_route r [] GET ''/health'' HealthCheck,
            handle_route r [] POST ''/api/v1/internal/notifications/:id/dispatch'' Dispatch,
            handle_route v1 api GET ''/notifications/:id'' NotificationById,
            handle_route v1 api GET ''/templates'' TemplateList,
            handle_route mutations api POST ''/notifications'' NotificationCreate,
            handle_route mutations api POST ''/templates'' TemplateSave])"

section \<open>A request's way\<close>

text \<open>The embedded pages: \<open>landing.html\<close>, and what \<open>StaticFS\<close> answers for a path below \<open>/dashboard\<close>.\<close>

record web_assets =
  wa_landing :: "string option"
  wa_dashboard :: "string \<Rightarrow> response"

record engine =
  en_U :: unicode
  en_assets :: "web_assets option"
  en_domain :: string
  en_system :: "ndb NotificationSystem"
  en_templates :: "ndb TemplateRepo"

record web_env =
  wv_userinfo :: "string \<Rightarrow> string \<Rightarrow> userinfo_reply"
  wv_auth_now1 :: gotime
  wv_auth_now2 :: gotime
  wv_limit_now1 :: gotime
  wv_limit_now2 :: gotime
  wv_create :: "ndb create_env"
  wv_format :: "gotime \<Rightarrow> string"
  wv_dispatch_now :: gotime

record web =
  web_runtime :: "ndb runtime"
  web_tokens :: token_cache
  web_limits :: InMemoryRateLimitRepo

datatype web_request = AskLanding | AskDashboard string | AskHealth | AskDispatch | AskNotification | AskTemplates
  | AskCreate "string + createNotificationRequest" | AskSave "string + string \<times> string"

fun endpoint_of :: "web_request \<Rightarrow> endpoint" where
  "endpoint_of AskLanding = Landing"
| "endpoint_of (AskDashboard path) = Dashboard"
| "endpoint_of AskHealth = HealthCheck"
| "endpoint_of AskDispatch = Dispatch"
| "endpoint_of AskNotification = NotificationById"
| "endpoint_of AskTemplates = TemplateList"
| "endpoint_of (AskCreate b) = NotificationCreate"
| "endpoint_of (AskSave b) = TemplateSave"

definition chain_of :: "engine \<Rightarrow> web_request \<Rightarrow> middleware list" where
  "chain_of g q = (case find (\<lambda>r. rt_endpoint r = endpoint_of q) (New (en_assets g \<noteq> None)) of Some r \<Rightarrow> rt_chain r | None \<Rightarrow> [])"

definition authenticate :: "engine \<Rightarrow> web_env \<Rightarrow> gin_context \<Rightarrow> web \<Rightarrow> mw_result \<times> token_cache" where
  "authenticate g e c w =
     Auth0_Handler (en_U g) (en_domain g) (wv_userinfo e) (wv_auth_now1 e) (wv_auth_now2 e) c (web_tokens w)"

fun run_chain :: "engine \<Rightarrow> web_env \<Rightarrow> middleware list \<Rightarrow> gin_context \<Rightarrow> web \<Rightarrow> mw_result \<times> web" where
  "run_chain g e [] c w = (Next c, w)"
| "run_chain g e (AuthMiddleware # ms) c w =
     (case authenticate g e c w of
        (Abort code msg, tokens) \<Rightarrow> (Abort code msg, w\<lparr>web_tokens := tokens\<rparr>)
      | (Next c, tokens) \<Rightarrow> run_chain g e ms c (w\<lparr>web_tokens := tokens\<rparr>))"
| "run_chain g e (RateLimiter # ms) c w =
     (case RateLimitMiddleware (wv_limit_now1 e) (wv_limit_now2 e) c (web_limits w) of
        (Abort code msg, limits) \<Rightarrow> (Abort code msg, w\<lparr>web_limits := limits\<rparr>)
      | (Next c, limits) \<Rightarrow> run_chain g e ms c (w\<lparr>web_limits := limits\<rparr>))"

definition on_store :: "(ndb \<Rightarrow> response \<times> ndb) \<Rightarrow> web \<Rightarrow> response outcome \<times> web" where
  "on_store f w =
     (let (r, s) = f (store (web_runtime w)) in (Return r, w\<lparr>web_runtime := (web_runtime w)\<lparr>store := s\<rparr>\<rparr>))"

definition on_runtime :: "(ndb runtime \<Rightarrow> response outcome \<times> ndb runtime) \<Rightarrow> web \<Rightarrow> response outcome \<times> web" where
  "on_runtime f w = (let (r, rt) = f (web_runtime w) in (r, w\<lparr>web_runtime := rt\<rparr>))"

text \<open>The two page handlers; without the pages Gin has no route for them and answers 404.\<close>

definition no_route :: response where
  "no_route = (StatusNotFound, PageBody ''404 page not found'')"

definition landing_page :: "web_assets \<Rightarrow> response" where
  "landing_page a =
     (case wa_landing a of
        None \<Rightarrow> (StatusInternalServerError, PageBody ''Internal Server Error loading landing page'')
      | Some landingBytes \<Rightarrow> (StatusOK, PageBody landingBytes))"

fun handle :: "engine \<Rightarrow> web_env \<Rightarrow> web_request \<Rightarrow> gin_context \<Rightarrow> web \<Rightarrow> response outcome \<times> web" where
  "handle g e AskLanding c w = (Return (case en_assets g of None \<Rightarrow> no_route | Some a \<Rightarrow> landing_page a), w)"
| "handle g e (AskDashboard path) c w =
     (Return (case en_assets g of None \<Rightarrow> no_route | Some a \<Rightarrow> wa_dashboard a path), w)"
| "handle g e AskHealth c w = (Return (StatusOK, StatusBody ''ok''), w)"
| "handle g e AskDispatch c w = on_runtime (Handler_DispatchCallback (en_U g) (en_system g) (wv_dispatch_now e) c) w"
| "handle g e AskNotification c w = on_store (Handler_GetByID (en_system g) (wv_format e) c) w"
| "handle g e AskTemplates c w = on_store (Handler_TemplateGetAll (en_templates g) c) w"
| "handle g e (AskCreate b) c w = on_runtime (Handler_Create (en_system g) (wv_create e) b c) w"
| "handle g e (AskSave b) c w = on_store (Handler_TemplateSave (en_U g) (en_templates g) b c) w"

definition serve :: "engine \<Rightarrow> web_env \<Rightarrow> web_request \<Rightarrow> gin_context \<Rightarrow> web \<Rightarrow> response outcome \<times> web" where
  "serve g e q c w =
     (case run_chain g e (chain_of g q) c w of
        (Abort code msg, w) \<Rightarrow> (Return (code, ErrorBody msg), w)
      | (Next c, w) \<Rightarrow> handle g e q c w)"

type_synonym web_call = "web_env \<times> web_request \<times> gin_context"

fun web_run :: "engine \<Rightarrow> web_call list \<Rightarrow> web \<Rightarrow> response outcome list \<times> web" where
  "web_run g [] w = ([], w)"
| "web_run g ((e, q, c) # calls) w =
     (let (r, w) = serve g e q c w; (rs, w) = web_run g calls w in (r # rs, w))"

section \<open>What the chains do\<close>

fun is_mutation :: "web_request \<Rightarrow> bool" where
  "is_mutation (AskCreate b) = True"
| "is_mutation (AskSave b) = True"
| "is_mutation AskLanding = False"
| "is_mutation (AskDashboard path) = False"
| "is_mutation AskHealth = False"
| "is_mutation AskDispatch = False"
| "is_mutation AskNotification = False"
| "is_mutation AskTemplates = False"

definition is_public :: "web_request \<Rightarrow> bool" where
  "is_public q \<longleftrightarrow> endpoint_of q \<in> {Landing, Dashboard, HealthCheck, Dispatch}"

lemma chain_of_eq:
  "chain_of g q = (if is_public q then [] else if is_mutation q then [AuthMiddleware, RateLimiter] else [AuthMiddleware])"
  by (cases q) (simp_all add: chain_of_def New_def handle_route_def is_public_def Let_def)

lemma handle_frame [frame_simps]:
  "web_tokens (snd (handle g e q c w)) = web_tokens w" "web_limits (snd (handle g e q c w)) = web_limits w"
  by (cases q; simp add: on_store_def on_runtime_def split: prod.split)+

lemma handle_frameD: "handle g e q c w = (r, w') \<Longrightarrow> web_tokens w' = web_tokens w \<and> web_limits w' = web_limits w"
  using handle_frame [of g e q c w] by simp

text \<open>A request that passes \<open>Auth0Middleware\<close> has a user id.\<close>

lemma authenticated:
  "authenticate g e c w = (Next c', tokens) \<Longrightarrow> \<exists>user. c' = c\<lparr>c_user_id := Some user\<rparr>"
  unfolding authenticate_def by (erule handler_cases) auto

lemma serve_guarded:
  assumes "serve g e q c w = (r, w')" and "\<not> is_public q"
  shows "case authenticate g e c w of
       (Abort code msg, tokens) \<Rightarrow> r = Return (code, ErrorBody msg) \<and> web_runtime w' = web_runtime w \<and> web_limits w' = web_limits w
     | (Next c', tokens) \<Rightarrow>
         (if \<not> is_mutation q then (r, w') = handle g e q c' (w\<lparr>web_tokens := tokens\<rparr>) \<and> web_limits w' = web_limits w
          else \<exists>user. c' = c\<lparr>c_user_id := Some user\<rparr> \<and>
            (case RateLimitSystem_Allow (wv_limit_now1 e) (wv_limit_now2 e) user (web_limits w) of
               (Inl err, limits) \<Rightarrow> r = Return (StatusTooManyRequests, ErrorBody err) \<and> web_runtime w' = web_runtime w
             | (Inr _, limits) \<Rightarrow> (r, w') = handle g e q c' (w\<lparr>web_tokens := tokens, web_limits := limits\<rparr>)))"
proof -
  obtain a tokens where a: "authenticate g e c w = (a, tokens)" by fastforce
  show ?thesis
  proof (cases a)
    case (Abort code msg)
    then show ?thesis using assms a by (cases "is_mutation q") (auto simp: serve_def chain_of_eq)
  next
    case (Next c')
    then obtain user where c': "c' = c\<lparr>c_user_id := Some user\<rparr>" using authenticated a by blast
    obtain v limits where v: "RateLimitSystem_Allow (wv_limit_now1 e) (wv_limit_now2 e) user (web_limits w) = (v, limits)" by fastforce
    show ?thesis
      using assms a Next c' v handle_frame(2) [of g e q c' "w\<lparr>web_tokens := tokens\<rparr>"]
      by (cases "is_mutation q"; cases v) (auto simp: serve_def chain_of_eq RateLimitMiddleware_def Let_def)
  qed
qed

section \<open>Properties\<close>

text \<open>
  C24. What stands between a request and its handler. Public are exactly the landing page, the dashboard, the
  health check and the dispatch callback: they are handled at once, without the token cache or the limiter,
  and all but the callback (which checks the scheduler's key itself) leave the service as it is. Any other
  request that Auth0 does not accept is answered with the middleware's error and reaches neither a handler
  nor the rate limiter; an accepted read is handled without touching the limiter; an accepted write (a create
  or the save of a template) first takes a token of the user Auth0 named, and without one it is answered 429
  and changes nothing else.
\<close>

theorem router_guard:
  assumes "serve g e q c w = (r, w')"
  shows "if endpoint_of q \<in> {Landing, Dashboard, HealthCheck, Dispatch}
     then (r, w') = handle g e q c w \<and> web_tokens w' = web_tokens w \<and> web_limits w' = web_limits w
       \<and> (endpoint_of q \<noteq> Dispatch \<longrightarrow> w' = w)
     else case authenticate g e c w of
       (Abort code msg, tokens) \<Rightarrow> r = Return (code, ErrorBody msg) \<and> web_runtime w' = web_runtime w \<and> web_limits w' = web_limits w
     | (Next c', tokens) \<Rightarrow>
         (if endpoint_of q \<notin> {NotificationCreate, TemplateSave}
          then (r, w') = handle g e q c' (w\<lparr>web_tokens := tokens\<rparr>) \<and> web_limits w' = web_limits w
          else \<exists>user. c' = c\<lparr>c_user_id := Some user\<rparr> \<and>
            (case RateLimitSystem_Allow (wv_limit_now1 e) (wv_limit_now2 e) user (web_limits w) of
               (Inl err, limits) \<Rightarrow> r = Return (StatusTooManyRequests, ErrorBody err) \<and> web_runtime w' = web_runtime w
             | (Inr _, limits) \<Rightarrow> (r, w') = handle g e q c' (w\<lparr>web_tokens := tokens, web_limits := limits\<rparr>)))"
proof (cases "is_public q")
  case True
  then have h: "handle g e q c w = (r, w')" using assms by (simp add: serve_def chain_of_eq)
  have "w' = w" if "endpoint_of q \<noteq> Dispatch" using True h that by (cases q) (simp_all add: is_public_def)
  then show ?thesis using True h handle_frameD [OF h] by (simp add: is_public_def)
next
  case False
  have "endpoint_of q \<in> {NotificationCreate, TemplateSave} \<longleftrightarrow> is_mutation q" by (cases q) simp_all
  then show ?thesis
    using serve_guarded [OF assms False] False [unfolded is_public_def] by (simp only: if_False simp_thms)
qed

definition demo_engine :: engine where
  "demo_engine = \<lparr>en_U = ascii_only, en_assets = None, en_domain = ''d'', en_system = demo_system, en_templates = TemplateRepository\<rparr>"

definition demo_wenv :: "gotime \<Rightarrow> userinfo_reply \<Rightarrow> web_env" where
  "demo_wenv now reply = \<lparr>wv_userinfo = (\<lambda>_ _. reply), wv_auth_now1 = now, wv_auth_now2 = now, wv_limit_now1 = now,
     wv_limit_now2 = now, wv_create = demo_env (Reply 200 []), wv_format = (\<lambda>_. ''t''), wv_dispatch_now = now\<rparr>"

definition demo_web :: "RateLimitConfig \<Rightarrow> ndb \<Rightarrow> web" where
  "demo_web cfg d = \<lparr>web_runtime = main_runtime d, web_tokens = (\<lambda>_. None), web_limits = NewInMemoryRateLimitRepo cfg\<rparr>"

definition tok_context :: "string \<Rightarrow> gin_context" where
  "tok_context i = \<lparr>c_header_authorization = ''Bearer tok'', c_param_id = i, c_client_ip = ''1.2.3.4'', c_user_id = None\<rparr>"

lemma demo_web_sel:
  "en_system demo_engine = demo_system" "wv_format (demo_wenv now reply) = (\<lambda>_. ''t'')"
  "store (web_runtime (demo_web cfg d)) = d"
  by (simp_all add: demo_engine_def demo_wenv_def demo_web_def main_runtime_def)

lemma demo_authenticate:
  "authenticate demo_engine (demo_wenv now (UserInfo StatusOK (Inr (Some ''u1'')))) (tok_context i) (demo_web cfg d)
     = (Next ((tok_context i)\<lparr>c_user_id := Some ''u1''\<rparr>), [''tok'' \<mapsto> \<lparr>ce_userID = ''u1'', ce_expiresAt = time_add now cache_ttl\<rparr>])"
  by (simp add: authenticate_def demo_engine_def demo_wenv_def tok_context_def demo_web_def Auth0_Handler_def demo_token Let_def)

theorem router_guard_witness:
  "\<exists>r w'. serve demo_engine (demo_wenv 5 (UserInfo 401 (Inl []))) (AskSave (Inl [])) (tok_context ''a'')
       (demo_web \<lparr>MaxTokens = 1, Duration = hour\<rparr> two_jobs) = (r, w')
     \<and> web_limits w' = NewInMemoryRateLimitRepo \<lparr>MaxTokens = 1, Duration = hour\<rparr>"
proof -
  let ?w = "demo_web \<lparr>MaxTokens = 1, Duration = hour\<rparr> two_jobs" and ?e = "demo_wenv 5 (UserInfo 401 (Inl []))"
  obtain r w' where s: "serve demo_engine ?e (AskSave (Inl [])) (tok_context ''a'') ?w = (r, w')" by fastforce
  have "authenticate demo_engine ?e (tok_context ''a'') ?w = (Abort StatusUnauthorized ''Invalid or expired session token'', \<lambda>_. None)"
    by (simp add: authenticate_def demo_engine_def demo_wenv_def tok_context_def demo_web_def Auth0_Handler_def demo_token Let_def)
  then have "web_limits w' = web_limits ?w" using router_guard [OF s] by simp
  then show ?thesis using s by (simp add: demo_web_def)
qed

text \<open>The calls of the limiter that a run makes, and whether each write reached its handler.\<close>

fun limit_log :: "engine \<Rightarrow> web_call list \<Rightarrow> web \<Rightarrow> rl_request list" where
  "limit_log g [] w = []"
| "limit_log g ((e, q, c) # calls) w =
     (case authenticate g e c w of
        (Next c', _) \<Rightarrow> (if is_mutation q then [(user_id_str c', wv_limit_now1 e, wv_limit_now2 e)] else [])
      | _ \<Rightarrow> []) @ limit_log g calls (snd (serve g e q c w))"

fun write_log :: "engine \<Rightarrow> web_call list \<Rightarrow> web \<Rightarrow> (string \<times> gotime \<times> bool) list" where
  "write_log g [] w = []"
| "write_log g ((e, q, c) # calls) w =
     (case authenticate g e c w of
        (Next c', _) \<Rightarrow> (if is_mutation q
            then [(user_id_str c', wv_limit_now2 e, \<exists>c''. fst (run_chain g e (chain_of g q) c w) = Next c'')] else [])
      | _ \<Rightarrow> []) @ write_log g calls (snd (serve g e q c w))"

lemma write_log_run: "write_log g calls w = run_system (limit_log g calls w) (web_limits w)"
proof (induction calls arbitrary: w)
  case Nil
  then show ?case by simp
next
  case (Cons call calls)
  obtain e q c where call: "call = (e, q, c)" by (cases call)
  obtain a tokens where a: "authenticate g e c w = (a, tokens)" by fastforce
  let ?w' = "snd (serve g e q c w)"
  show ?case
  proof (cases a)
    case (Abort code msg)
    then have "web_limits ?w' = web_limits w" using a by (simp add: serve_def chain_of_eq handle_frame)
    then show ?thesis using Cons.IH [of ?w'] a Abort call by simp
  next
    case (Next c')
    then obtain user where c': "c' = c\<lparr>c_user_id := Some user\<rparr>" using authenticated a by blast
    then have u: "user_id_str c' = user" "c_user_id c' = Some user" by (simp_all add: user_id_str_def)
    obtain v limits where v: "RateLimitSystem_Allow (wv_limit_now1 e) (wv_limit_now2 e) user (web_limits w) = (v, limits)" by fastforce
    show ?thesis
    proof (cases "is_mutation q")
      case True
      then have "\<not> is_public q" by (cases q) (simp_all add: is_public_def)
      have "web_limits ?w' = limits \<and> ((\<exists>c''. fst (run_chain g e (chain_of g q) c w) = Next c'') \<longleftrightarrow> v = Inr ())"
        using a Next u v True \<open>\<not> is_public q\<close>
        by (cases v) (simp_all add: serve_def chain_of_eq RateLimitMiddleware_def handle_frame)
      then show ?thesis using Cons.IH [of ?w'] a Next call True u v by simp
    next
      case False
      then have "web_limits ?w' = web_limits w" using a Next by (simp add: serve_def chain_of_eq handle_frame)
      then show ?thesis using Cons.IH [of ?w'] a Next call False by simp
    qed
  qed
qed

text \<open>
  C17. The quota of the deployed service: in any run of requests of any users, of any kinds and in any
  mixture, the handlers of the two writing endpoints run at most twice \<open>MaxTokens\<close> times for one user in any
  interval of length \<open>Duration\<close>, as long as that user's requests read a non-decreasing clock.
\<close>

theorem write_quota:
  assumes "web_limits w = NewInMemoryRateLimitRepo cfg" and "min_int64 < Duration cfg" and "Duration cfg \<le> max_int64"
    and "sorted (key_times user (limit_log g calls w))"
  shows "grants_in a (a + Duration cfg) (key_results user (write_log g calls w)) \<le> 2 * nat (MaxTokens cfg)"
  unfolding write_log_run assms(1) using assms(2-4) by (rule run_system_quota)

theorem write_quota_witness:
  "grants_in 0 (0 + hour) (key_results ''u1'' (write_log demo_engine
     [(demo_wenv 5 (UserInfo StatusOK (Inr (Some ''u1''))), AskSave (Inl []), tok_context ''a'')]
     (demo_web \<lparr>MaxTokens = 1, Duration = hour\<rparr> two_jobs))) \<le> 2"
proof -
  let ?calls = "[(demo_wenv 5 (UserInfo StatusOK (Inr (Some ''u1''))), AskSave (Inl []), tok_context ''a'')]"
  let ?w = "demo_web \<lparr>MaxTokens = 1, Duration = hour\<rparr> two_jobs"
  have w: "web_limits ?w = NewInMemoryRateLimitRepo \<lparr>MaxTokens = 1, Duration = hour\<rparr>" by (simp add: demo_web_def)
  have "sorted (key_times ''u1'' (limit_log demo_engine ?calls ?w))"
    by (simp add: demo_authenticate user_id_str_def)
  then show ?thesis
    using write_quota [OF w, of "''u1''" demo_engine ?calls 0] by (simp add: min_int64_def max_int64_def hour_def minute_def second_def)
qed

section \<open>Tenant isolation\<close>

definition auth_view :: "web_call \<Rightarrow> auth_request" where
  "auth_view call = (case call of (e, q, c) \<Rightarrow>
     \<lparr>ar_context = c, ar_now1 = wv_auth_now1 e, ar_now2 = wv_auth_now2 e, ar_do = wv_userinfo e\<rparr>)"

lemma serve_tokens:
  assumes "serve g e q c w = (r, w')"
  shows "web_tokens w' = (if is_public q then web_tokens w else snd (authenticate g e c w))"
proof -
  obtain a tokens where a: "authenticate g e c w = (a, tokens)" by fastforce
  show ?thesis
    using assms a
    by (cases a)
       (auto simp: serve_def chain_of_eq dest!: handle_frameD split: if_splits prod.splits mw_result.splits)
qed

lemma serve_justified:
  assumes "cache_justified (en_U g) (en_domain g) past (web_tokens w)" and "serve g e q c w = (r, w')"
  shows "cache_justified (en_U g) (en_domain g) (auth_view (e, q, c) # past) (web_tokens w')"
proof (cases "is_public q")
  case True
  then show ?thesis using assms serve_tokens [OF assms(2)] by (fastforce simp: cache_justified_def)
next
  case False
  have "Auth0_Handler (en_U g) (en_domain g) (ar_do (auth_view (e, q, c))) (ar_now1 (auth_view (e, q, c)))
      (ar_now2 (auth_view (e, q, c))) (ar_context (auth_view (e, q, c))) (web_tokens w)
      = (fst (authenticate g e c w), snd (authenticate g e c w))"
    by (simp add: authenticate_def auth_view_def)
  from handler_step(1) [OF assms(1) this] show ?thesis using serve_tokens [OF assms(2)] False by simp
qed

text \<open>
  The rows a user may be shown: of the notifications the user's own and those of \<open>global\<close> (all of them, if
  the name is \<open>system\<close>), of the dead letters the user's own and those of \<open>global\<close>.
\<close>

definition visible_to :: "ntables \<Rightarrow> string \<Rightarrow> notif_row \<Rightarrow> bool" where
  "visible_to T user row \<longleftrightarrow>
     row \<in> set (notifications T) \<and> (user_id_col row \<in> {Some user, Some global_user} \<or> user = system_user)
   \<or> row \<in> set (dlq_notifications T) \<and> user_id_col row \<in> {Some user, Some global_user}"

text \<open>Where what a read shows comes from, whatever statements fail.\<close>

lemma GetByID_row:
  assumes "ns_NotificationRepo n = NotificationRepository" and "ns_DLQRepo n = DLQRepository"
    and "Handler_GetByID n fmt c d = ((StatusOK, NotificationBody b), d')"
  shows "\<exists>row x. visible_to (tables d) (user_id_str c) row \<and> id_col row = c_param_id c \<and> scan_row row = Inr x
     \<and> b = toResponse fmt x"
proof -
  obtain p d1 where p: "NotificationRepository_Get (c_param_id c) (user_id_str c) d = (p, d1)" by fastforce
  obtain q d2 where q: "DLQRepository_Get (c_param_id c) (user_id_str c) d1 = (q, d2)" by fastforce
  show ?thesis
  proof (cases p)
    case (Inr x)
    then have "b = toResponse fmt x" using assms p by (auto simp: Handler_GetByID_def NotificationRepository_def)
    then show ?thesis
      using NotificationRepository_Get_row [OF p [unfolded Inr]] by (auto simp: visible_to_def user_is_def)
  next
    case (Inl err)
    then obtain x where x: "q = Inr x" "b = toResponse fmt x"
      using assms p q by (auto simp: Handler_GetByID_def NotificationRepository_def DLQRepository_def split: if_splits sum.splits)
    then show ?thesis
      using DLQRepository_Get_row [OF q [unfolded x(1)]] Get_notifications [OF p] by (auto simp: visible_to_def user_is_def)
  qed
qed

lemma serve_read:
  assumes inv: "cache_justified (en_U g) (en_domain g) past (web_tokens w)"
    and sys: "ns_NotificationRepo (en_system g) = NotificationRepository" "ns_DLQRepo (en_system g) = DLQRepository"
    and run: "serve g e AskNotification c w = (Return (StatusOK, NotificationBody b), w')"
  shows "\<exists>token user row x. bearer_token (en_U g) (c_header_authorization c) = Some token
     \<and> (vouched (en_U g) (en_domain g) token user (auth_view (e, AskNotification, c))
        \<or> (\<exists>p \<in> set past. vouched (en_U g) (en_domain g) token user p \<and> wv_auth_now1 e < ar_now2 p + 5 * minute))
     \<and> visible_to (tables (store (web_runtime w))) user row \<and> id_col row = c_param_id c \<and> scan_row row = Inr x
     \<and> b = toResponse (wv_format e) x"
proof -
  let ?q = "auth_view (e, AskNotification, c)"
  obtain a tokens where a: "authenticate g e c w = (a, tokens)" by fastforce
  then obtain c' where c': "a = Next c'" using run by (cases a) (auto simp: serve_def chain_of_eq is_public_def)
  have step: "Auth0_Handler (en_U g) (en_domain g) (ar_do ?q) (ar_now1 ?q) (ar_now2 ?q) (ar_context ?q) (web_tokens w) = (a, tokens)"
    using a by (simp add: authenticate_def auth_view_def)
  from handler_step(2) [OF inv step c'] obtain token user where t:
    "bearer_token (en_U g) (c_header_authorization c) = Some token" "c' = c\<lparr>c_user_id := Some user\<rparr>"
    "vouched (en_U g) (en_domain g) token user ?q
      \<or> (\<exists>p \<in> set past. vouched (en_U g) (en_domain g) token user p \<and> wv_auth_now1 e < ar_now2 p + 5 * minute)"
    by (auto simp: auth_view_def)
  have "\<exists>s. Handler_GetByID (en_system g) (wv_format e) c' (store (web_runtime w)) = ((StatusOK, NotificationBody b), s)"
    using run a c' by (auto simp: serve_def chain_of_eq is_public_def on_store_def split: prod.splits)
  then obtain row x where "visible_to (tables (store (web_runtime w))) (user_id_str c') row" "id_col row = c_param_id c'"
    "scan_row row = Inr x" "b = toResponse (wv_format e) x"
    using GetByID_row [OF sys] by blast
  then show ?thesis using t by (auto simp: user_id_str_def)
qed

lemma web_run_length: "web_run g calls w = (rs, w') \<Longrightarrow> length rs = length calls"
  by (induction calls arbitrary: w rs) (auto split: prod.splits)

lemma web_run_read:
  assumes sys: "ns_NotificationRepo (en_system g) = NotificationRepository" "ns_DLQRepo (en_system g) = DLQRepository"
  shows "cache_justified (en_U g) (en_domain g) past (web_tokens w) \<Longrightarrow> web_run g calls w = (rs, w') \<Longrightarrow> i < length calls \<Longrightarrow>
    calls ! i = (e, AskNotification, c) \<Longrightarrow> rs ! i = Return (StatusOK, NotificationBody b) \<Longrightarrow>
    \<exists>token user row x. bearer_token (en_U g) (c_header_authorization c) = Some token
     \<and> (vouched (en_U g) (en_domain g) token user (auth_view (calls ! i))
        \<or> (\<exists>p \<in> set past \<union> auth_view ` set (take i calls). vouched (en_U g) (en_domain g) token user p
              \<and> wv_auth_now1 e < ar_now2 p + 5 * minute))
     \<and> visible_to (tables (store (web_runtime (snd (web_run g (take i calls) w))))) user row
     \<and> id_col row = c_param_id c \<and> scan_row row = Inr x \<and> b = toResponse (wv_format e) x"
proof (induction calls arbitrary: past w rs i)
  case Nil
  then show ?case by simp
next
  case (Cons call calls)
  obtain e1 q1 c1 where call: "call = (e1, q1, c1)" by (cases call)
  obtain r w1 where s: "serve g e1 q1 c1 w = (r, w1)" by fastforce
  obtain rs1 where rest: "web_run g calls w1 = (rs1, w')" "rs = r # rs1"
    using Cons.prems(2) call s by (auto split: prod.splits)
  show ?case
  proof (cases i)
    case 0
    then have "call = (e, AskNotification, c)" "r = Return (StatusOK, NotificationBody b)" using Cons.prems(4,5) rest(2) by simp_all
    then show ?thesis using serve_read [OF Cons.prems(1) sys, of e c b w1] s call 0 by fastforce
  next
    case (Suc j)
    then have "j < length calls" "calls ! j = (e, AskNotification, c)" "rs1 ! j = Return (StatusOK, NotificationBody b)"
      using Cons.prems(3-5) rest(2) by simp_all
    moreover have "snd (web_run g (take i (call # calls)) w) = snd (web_run g (take j calls) w1)"
      using s by (simp add: Suc call split: prod.split)
    ultimately show ?thesis
      using Cons.IH [OF serve_justified [OF Cons.prems(1) s] rest(1), of j] Suc call by simp
  qed
qed

text \<open>
  C2. Tenant isolation, end to end: in any run of requests against a freshly started service, whatever the
  stores, Auth0 and the other requests do, what a caller is shown is the content of a row that is stored
  when the request arrives, has the id that was asked for, and whose owner column names \<open>global\<close> or the user
  Auth0 named for the caller's token - in answer to this request or to an earlier one less than five minutes
  before. The only user who sees more is one Auth0 names \<open>system\<close>: all notifications, but no dead letters.
\<close>

theorem tenant_isolation:
  assumes "en_system g = main_system wc key sender u a" and "web_tokens w = (\<lambda>_. None)"
    and "web_run g calls w = (rs, w')" and "i < length calls" and "calls ! i = (e, AskNotification, c)"
    and "rs ! i = Return (StatusOK, NotificationBody b)"
  shows "\<exists>token user row x. bearer_token (en_U g) (c_header_authorization c) = Some token
     \<and> (vouched (en_U g) (en_domain g) token user (auth_view (calls ! i))
        \<or> (\<exists>j < i. vouched (en_U g) (en_domain g) token user (auth_view (calls ! j))
              \<and> wv_auth_now1 e < ar_now2 (auth_view (calls ! j)) + 5 * minute))
     \<and> visible_to (tables (store (web_runtime (snd (web_run g (take i calls) w))))) user row
     \<and> id_col row = c_param_id c \<and> scan_row row = Inr x \<and> b = toResponse (wv_format e) x"
proof -
  have sys: "ns_NotificationRepo (en_system g) = NotificationRepository" "ns_DLQRepo (en_system g) = DLQRepository"
    by (simp_all add: assms(1))
  have "cache_justified (en_U g) (en_domain g) [] (web_tokens w)" by (simp add: cache_justified_def assms(2))
  from web_run_read [OF sys this assms(3-6)] obtain token user row x where t:
    "bearer_token (en_U g) (c_header_authorization c) = Some token"
    "vouched (en_U g) (en_domain g) token user (auth_view (calls ! i))
        \<or> (\<exists>p \<in> auth_view ` set (take i calls). vouched (en_U g) (en_domain g) token user p \<and> wv_auth_now1 e < ar_now2 p + 5 * minute)"
    "visible_to (tables (store (web_runtime (snd (web_run g (take i calls) w))))) user row"
    "id_col row = c_param_id c" "scan_row row = Inr x" "b = toResponse (wv_format e) x"
    unfolding list.set(1) Un_empty_left by blast
  have "vouched (en_U g) (en_domain g) token user (auth_view (calls ! i))
      \<or> (\<exists>j < i. vouched (en_U g) (en_domain g) token user (auth_view (calls ! j))
            \<and> wv_auth_now1 e < ar_now2 (auth_view (calls ! j)) + 5 * minute)"
    using t(2)
  proof
    assume "\<exists>p \<in> auth_view ` set (take i calls). vouched (en_U g) (en_domain g) token user p \<and> wv_auth_now1 e < ar_now2 p + 5 * minute"
    then obtain call where p: "call \<in> set (take i calls)" "vouched (en_U g) (en_domain g) token user (auth_view call)"
      "wv_auth_now1 e < ar_now2 (auth_view call) + 5 * minute" by blast
    then obtain j where "j < i" "call = calls ! j" unfolding in_set_conv_nth by auto
    then show ?thesis using p by auto
  qed simp
  with t(1,3-6) show ?thesis by blast
qed

theorem tenant_isolation_witness:
  "\<exists>b w'. web_run demo_engine [(demo_wenv 5 (UserInfo StatusOK (Inr (Some ''u1''))), AskNotification, tok_context ''a'')]
        (demo_web \<lparr>MaxTokens = 1, Duration = hour\<rparr> two_jobs) = ([Return (StatusOK, NotificationBody b)], w')
     \<and> (\<exists>row x. id_col row = ''a'' \<and> row \<in> set (notifications (tables two_jobs)) \<and> scan_row row = Inr x \<and> b = toResponse (\<lambda>_. ''t'') x)"
proof -
  let ?e = "demo_wenv 5 (UserInfo StatusOK (Inr (Some ''u1'')))" and ?w = "demo_web \<lparr>MaxTokens = 1, Duration = hour\<rparr> two_jobs"
  let ?calls = "[(?e, AskNotification, tok_context ''a'')]"
  obtain n d' where "NotificationRepository_Get ''a'' ''u1'' two_jobs = (Inr n, d')"
    by (simp add: two_jobs_def jobs_exec NotificationRepository_Get_def select_one_def user_is_def)
  then have "Handler_GetByID demo_system (\<lambda>_. ''t'') ((tok_context ''a'')\<lparr>c_user_id := Some ''u1''\<rparr>) two_jobs
      = ((StatusOK, NotificationBody (toResponse (\<lambda>_. ''t'') n)), d')"
    by (simp add: Handler_GetByID_def demo_system_def NotificationRepository_def tok_context_def user_id_str_def)
  then obtain w' where run: "web_run demo_engine ?calls ?w = ([Return (StatusOK, NotificationBody (toResponse (\<lambda>_. ''t'') n))], w')"
    by (simp add: serve_def chain_of_eq is_public_def demo_authenticate on_store_def demo_web_sel)
  have "en_system demo_engine = main_system 5 [] [] ''http://task-scheduler:8081'' ''k''" "web_tokens ?w = (\<lambda>_. None)"
    by (simp_all add: demo_engine_def demo_system_def demo_web_def)
  from tenant_isolation [OF this run, of 0 ?e "tok_context ''a''" "toResponse (\<lambda>_. ''t'') n"] obtain user row x where
    "visible_to (tables two_jobs) user row" "id_col row = ''a''" "scan_row row = Inr x" "toResponse (\<lambda>_. ''t'') n = toResponse (\<lambda>_. ''t'') x"
    by (auto simp: demo_web_sel) (simp add: tok_context_def)
  moreover have "dlq_notifications (tables two_jobs) = []" by (simp add: two_jobs_def jobs_db_def)
  ultimately show ?thesis using run by (auto simp: visible_to_def)
qed

end
