(* ===== verification/TaskStore.thy ===== *)
theory TaskStore
  imports Sql
begin

text \<open>
  The task scheduler's data and storage: \<open>internal/scheduler/domain/task.go\<close> and
  \<open>internal/scheduler/repository/\<close> - the tasks in PostgreSQL with a read-through Redis cache, and the
  table of dead tasks.

  The store is the database, the Redis keys with their expiry, Redis's clock, and which of the next
  Redis commands fail. \<open>rdb\<close> says whether the service was started with Redis. JSON encoding of a task is
  taken as the identity, which is exact for strings that are valid UTF-8 (\<open>json.Marshal\<close> writes U+FFFD for
  every byte that is not).
\<close>

section \<open>Domain\<close>

datatype TaskStatus = StatusPending | StatusQueued | StatusProcessing | StatusCompleted | StatusFailed

record Task =
  t_ID :: string
  t_Title :: string
  t_Description :: string
  t_CallbackURL :: string
  t_Payload :: string
  t_Status :: TaskStatus
  t_RetryCount :: int
  t_MaxRetries :: int
  t_ExecuteAt :: gotime
  t_CreatedAt :: gotime

record dlq_row =
  d_id :: string
  d_task_id :: string
  d_title :: string
  d_description :: string
  d_callback_url :: string
  d_payload :: string
  d_failed_at :: gotime
  d_retry_count :: int

record ttables =
  tasks :: "Task list"
  dlq_tasks :: "dlq_row list"

type_synonym tdb = "ttables db"

record tstore =
  base :: tdb
  cache :: "string \<Rightarrow> (Task \<times> gotime) option"
  redis_now :: gotime
  redis_faults :: "bool list"

datatype task_error = ErrTaskNotFound | ErrTaskAlreadyExists | RepoError string

section \<open>Interfaces\<close>

record 's TaskRepo =
  tk_Create :: "Task \<Rightarrow> 's \<Rightarrow> (task_error + unit) \<times> 's"
  tk_Get :: "string \<Rightarrow> 's \<Rightarrow> (task_error + Task) \<times> 's"
  tk_Update :: "string \<Rightarrow> (Task \<Rightarrow> Task) \<Rightarrow> 's \<Rightarrow> (task_error + Task) \<times> 's"
  tk_ClaimReadyTasks :: "gotime \<Rightarrow> nat \<Rightarrow> 's \<Rightarrow> (task_error + Task list) \<times> 's"
  tk_RecoverTasks :: "'s \<Rightarrow> (task_error + unit) \<times> 's"

record 's TaskDLQRepo =
  td_Save :: "gotime \<Rightarrow> Task \<Rightarrow> 's \<Rightarrow> (task_error + unit) \<times> 's"

section \<open>The PostgreSQL and Redis repository\<close>

definition cacheTTL :: duration where
  "cacheTTL = 10 * minute"

definition cacheKey :: "string \<Rightarrow> string" where
  "cacheKey ident = ''task:'' @ ident"

lemma cacheKey_inj [simp]: "cacheKey a = cacheKey b \<longleftrightarrow> a = b"
  by (simp add: cacheKey_def)

text \<open>One statement on the database of the store; one Redis command and whether it succeeds.\<close>

definition on_base :: "(ttables \<Rightarrow> (db_error + 'a) \<times> ttables) \<Rightarrow> tstore \<Rightarrow> (db_error + 'a) \<times> tstore" where
  "on_base stmt s = (let (r, d) = exec_sql stmt (base s) in (r, s\<lparr>base := d\<rparr>))"

definition redis_cmd :: "tstore \<Rightarrow> bool \<times> tstore" where
  "redis_cmd s = (case redis_faults s of [] \<Rightarrow> (True, s) | f # fs \<Rightarrow> (\<not> f, s\<lparr>redis_faults := fs\<rparr>))"

definition live_entry :: "tstore \<Rightarrow> string \<Rightarrow> Task option" where
  "live_entry s k = (case cache s k of Some (t, expires) \<Rightarrow> (if redis_now s < expires then Some t else None) | None \<Rightarrow> None)"

definition repo_error :: "db_error \<Rightarrow> task_error" where
  "repo_error e = RepoError (err_msg e)"

text \<open>\<open>INSERT\<close> stores both times at column precision; \<open>UPDATE\<close> leaves \<open>id\<close> and \<open>created_at\<close> alone.\<close>

definition stored :: "(gotime \<Rightarrow> gotime) \<Rightarrow> Task \<Rightarrow> Task" where
  "stored st t = t\<lparr>t_ExecuteAt := st (t_ExecuteAt t), t_CreatedAt := st (t_CreatedAt t)\<rparr>"

definition rewritten :: "(gotime \<Rightarrow> gotime) \<Rightarrow> Task \<Rightarrow> Task \<Rightarrow> Task" where
  "rewritten st t row = t\<lparr>t_ID := t_ID row, t_ExecuteAt := st (t_ExecuteAt t), t_CreatedAt := t_CreatedAt row\<rparr>"

definition Repo_Create :: "Task \<Rightarrow> tstore \<Rightarrow> (task_error + unit) \<times> tstore" where
  "Repo_Create task s =
     (let (r, s) = on_base (\<lambda>T. (let (r, rows) = insert_row t_ID (stored (stamp (base s)) task) (tasks T)
                                in (r, T\<lparr>tasks := rows\<rparr>))) s
      in case r of
           Inr _ \<Rightarrow> (Inr (), s)
         | Inl (SqlState code msg) \<Rightarrow> (if code = ''23505'' then (Inl ErrTaskAlreadyExists, s) else (Inl (RepoError msg), s))
         | Inl e \<Rightarrow> (Inl (repo_error e), s))"

definition select_task :: "string \<Rightarrow> ttables \<Rightarrow> db_error + Task" where
  "select_task ident T = (case row_of t_ID ident (tasks T) of None \<Rightarrow> Inl ErrNoRows | Some t \<Rightarrow> Inr t)"

definition Repo_Get :: "bool \<Rightarrow> string \<Rightarrow> tstore \<Rightarrow> (task_error + Task) \<times> tstore" where
  "Repo_Get rdb ident s =
     (let key = cacheKey ident;
          (hit, s) = (if rdb then (let (ok, s) = redis_cmd s in (if ok then live_entry s key else None, s)) else (None, s))
      in case hit of
           Some task \<Rightarrow> (Inr task, s)
         | None \<Rightarrow>
             (let (r, s) = on_base (\<lambda>T. (select_task ident T, T)) s
              in case r of
                   Inl e \<Rightarrow> (Inl (if e = ErrNoRows then ErrTaskNotFound else repo_error e), s)
                 | Inr t \<Rightarrow>
                     (if rdb
                      then (let (ok, s) = redis_cmd s
                            in (Inr t, if ok then s\<lparr>cache := (cache s)(key \<mapsto> (t, redis_now s + cacheTTL))\<rparr> else s))
                      else (Inr t, s))))"

text \<open>The transaction: the row is locked by the \<open>SELECT\<close>, and nothing is visible before the commit.\<close>

definition Repo_Update :: "bool \<Rightarrow> string \<Rightarrow> (Task \<Rightarrow> Task) \<Rightarrow> tstore \<Rightarrow> (task_error + Task) \<times> tstore" where
  "Repo_Update rdb ident updateFn s =
     (case on_base (\<lambda>T. (Inr (), T)) s of
        (Inl e, s) \<Rightarrow> (Inl (repo_error e), s)
      | (Inr _, s) \<Rightarrow>
          (case on_base (\<lambda>T. (select_task ident T, T)) s of
             (Inl e, s) \<Rightarrow> (Inl (if e = ErrNoRows then ErrTaskNotFound else repo_error e), s)
           | (Inr t0, s) \<Rightarrow>
               (let t = updateFn t0
                in case on_base (\<lambda>T. (Inr (), T)) s of
                     (Inl e, s) \<Rightarrow> (Inl (repo_error e), s)
                   | (Inr _, s) \<Rightarrow>
                       (case on_base (\<lambda>T. (Inr (), T\<lparr>tasks := update_key t_ID (t_ID t) (rewritten (stamp (base s)) t) (tasks T)\<rparr>)) s of
                          (Inl e, s) \<Rightarrow> (Inl (repo_error e), s)
                        | (Inr _, s) \<Rightarrow>
                            (if rdb
                             then (let (ok, s) = redis_cmd s
                                   in (Inr t, if ok then s\<lparr>cache := (cache s)(cacheKey ident := None)\<rparr> else s))
                             else (Inr t, s))))))"

definition task_ready :: "gotime \<Rightarrow> Task \<Rightarrow> bool" where
  "task_ready now t \<longleftrightarrow> t_Status t = StatusPending \<and> t_ExecuteAt t \<le> now"

definition mark_queued :: "Task \<Rightarrow> Task" where
  "mark_queued t = t\<lparr>t_Status := StatusQueued\<rparr>"

definition claim_tasks :: "tdb \<Rightarrow> gotime \<Rightarrow> nat \<Rightarrow> Task list \<Rightarrow> Task list \<times> Task list" where
  "claim_tasks d now limit = claim_rows t_ID (task_ready now) t_ExecuteAt mark_queued (row_locked d) (ret_rank d) limit"

definition Repo_ClaimReadyTasks :: "gotime \<Rightarrow> nat \<Rightarrow> tstore \<Rightarrow> (task_error + Task list) \<times> tstore" where
  "Repo_ClaimReadyTasks now limit s =
     (case on_base (\<lambda>T. (let (rows, rest) = claim_tasks (base s) now limit (tasks T) in (Inr rows, T\<lparr>tasks := rest\<rparr>))) s of
        (Inl e, s) \<Rightarrow> (Inl (repo_error e), s)
      | (Inr rows, s) \<Rightarrow>
          (case rows_err (base s) of
             (Inl e, d) \<Rightarrow> (Inl (repo_error e), s\<lparr>base := d\<rparr>)
           | (Inr _, d) \<Rightarrow> (Inr rows, s\<lparr>base := d\<rparr>)))"

definition stuck :: "Task \<Rightarrow> bool" where
  "stuck t \<longleftrightarrow> t_Status t = StatusQueued \<or> t_Status t = StatusProcessing"

definition Repo_RecoverTasks :: "tstore \<Rightarrow> (task_error + unit) \<times> tstore" where
  "Repo_RecoverTasks s =
     (case on_base (\<lambda>T. (Inr (), T\<lparr>tasks := update_where stuck (\<lambda>t. t\<lparr>t_Status := StatusPending\<rparr>) (tasks T)\<rparr>)) s of
        (Inl e, s) \<Rightarrow> (Inl (repo_error e), s)
      | (Inr _, s) \<Rightarrow> (Inr (), s))"

definition NewPostgresRepo :: "bool \<Rightarrow> tstore TaskRepo" where
  "NewPostgresRepo rdb =
     \<lparr>tk_Create = Repo_Create, tk_Get = Repo_Get rdb, tk_Update = Repo_Update rdb,
      tk_ClaimReadyTasks = Repo_ClaimReadyTasks, tk_RecoverTasks = Repo_RecoverTasks\<rparr>"

section \<open>The table of dead tasks\<close>

text \<open>\<open>fmt\<close> is \<open>Time.Format("20060102150405")\<close>: the time to the second.\<close>

definition dlq_entry :: "(gotime \<Rightarrow> string) \<Rightarrow> (gotime \<Rightarrow> gotime) \<Rightarrow> gotime \<Rightarrow> Task \<Rightarrow> dlq_row" where
  "dlq_entry fmt st now task =
     \<lparr>d_id = t_ID task @ ''_'' @ fmt now, d_task_id = t_ID task, d_title = t_Title task,
      d_description = t_Description task, d_callback_url = t_CallbackURL task, d_payload = t_Payload task,
      d_failed_at = st now, d_retry_count = t_RetryCount task\<rparr>"

definition DLQ_Save :: "(gotime \<Rightarrow> string) \<Rightarrow> gotime \<Rightarrow> Task \<Rightarrow> tstore \<Rightarrow> (task_error + unit) \<times> tstore" where
  "DLQ_Save fmt now task s =
     (case on_base (\<lambda>T. (let (r, rows) = insert_row d_id (dlq_entry fmt (stamp (base s)) now task) (dlq_tasks T)
                         in (r, T\<lparr>dlq_tasks := rows\<rparr>))) s of
        (Inl e, s) \<Rightarrow> (Inl (repo_error e), s)
      | (Inr _, s) \<Rightarrow> (Inr (), s))"

definition NewPostgresDLQRepository :: "(gotime \<Rightarrow> string) \<Rightarrow> tstore TaskDLQRepo" where
  "NewPostgresDLQRepository fmt = \<lparr>td_Save = DLQ_Save fmt\<rparr>"

lemma task_repo_ops [simp]:
  "tk_Create (NewPostgresRepo rdb) = Repo_Create" "tk_Get (NewPostgresRepo rdb) = Repo_Get rdb"
  "tk_Update (NewPostgresRepo rdb) = Repo_Update rdb" "tk_ClaimReadyTasks (NewPostgresRepo rdb) = Repo_ClaimReadyTasks"
  "tk_RecoverTasks (NewPostgresRepo rdb) = Repo_RecoverTasks" "td_Save (NewPostgresDLQRepository fmt) = DLQ_Save fmt"
  by (simp_all add: NewPostgresRepo_def NewPostgresDLQRepository_def)

section \<open>The contract\<close>

text \<open>
  What the workers rely on: an update applies its function to the stored task; after an update of a
  task, reading it is \<open>fresh\<close>: it shows what is stored.
\<close>

locale task_repo =
  fixes R :: "'s TaskRepo"
    and D :: "'s TaskDLQRepo"
    and view :: "'s \<Rightarrow> string \<Rightarrow> Task option"
    and dead :: "'s \<Rightarrow> string set"
    and st :: "'s \<Rightarrow> gotime \<Rightarrow> gotime"
    and fresh :: "'s \<Rightarrow> string \<Rightarrow> bool"
    and reliable :: "'s \<Rightarrow> bool"
    and no_clash :: "'s \<Rightarrow> gotime \<Rightarrow> string \<Rightarrow> bool"
  assumes update_view: "tk_Update R k f s = (r, s') \<Longrightarrow> (\<And>t. t_ID (f t) = t_ID t) \<Longrightarrow>
          (\<exists>t. view s k = Some t \<and> view s' = (view s)(k \<mapsto> rewritten (st s) (f t) t) \<and> (\<forall>t'. r = Inr t' \<longrightarrow> t' = f t))
          \<or> (view s' = view s \<and> (\<exists>e. r = Inl e))"
    and update_frame: "tk_Update R k f s = (r, s') \<Longrightarrow> dead s' = dead s \<and> st s' = st s \<and> no_clash s' = no_clash s"
    and update_reliable: "tk_Update R k f s = (r, s') \<Longrightarrow> reliable s \<Longrightarrow> (\<And>t. t_ID (f t) = t_ID t) \<Longrightarrow>
          reliable s' \<and> (case view s k of None \<Rightarrow> r = Inl ErrTaskNotFound | Some t \<Rightarrow> r = Inr (f t) \<and> fresh s' k)"
    and get_frame: "tk_Get R k s = (r, s') \<Longrightarrow> view s' = view s \<and> dead s' = dead s \<and> st s' = st s
          \<and> no_clash s' = no_clash s"
    and get_reliable: "tk_Get R k s = (r, s') \<Longrightarrow> reliable s \<Longrightarrow> fresh s k \<Longrightarrow>
          reliable s' \<and> r = (case view s k of None \<Rightarrow> Inl ErrTaskNotFound | Some t \<Rightarrow> Inr t)"
    and save_frame: "td_Save D now t s = (q, s') \<Longrightarrow> view s' = view s \<and> st s' = st s
          \<and> (dead s' = insert (t_ID t) (dead s) \<or> (\<exists>e. q = Inl e) \<and> dead s' = dead s)"
    and save_reliable: "td_Save D now t s = (q, s') \<Longrightarrow> reliable s \<Longrightarrow>
          reliable s' \<and> (no_clash s now (t_ID t) \<longrightarrow> q = Inr () \<and> dead s' = insert (t_ID t) (dead s))"

section \<open>The repositories meet the contract\<close>

definition tview :: "tstore \<Rightarrow> string \<Rightarrow> Task option" where
  "tview s k = row_of t_ID k (tasks (tables (base s)))"

definition tdead :: "tstore \<Rightarrow> string set" where
  "tdead s = d_task_id ` set (dlq_tasks (tables (base s)))"

definition tstamp :: "tstore \<Rightarrow> gotime \<Rightarrow> gotime" where
  "tstamp s = stamp (base s)"

text \<open>A cached copy of the task is absent, expired or equal to the row.\<close>

definition cache_fresh :: "bool \<Rightarrow> tstore \<Rightarrow> string \<Rightarrow> bool" where
  "cache_fresh rdb s k \<longleftrightarrow> \<not> rdb \<or> live_entry s (cacheKey k) = None \<or> live_entry s (cacheKey k) = tview s k"

text \<open>What a read of \<open>k\<close> shows while \<open>old\<close> is stored: a cached copy that has not expired, if there is one.\<close>

definition shown :: "bool \<Rightarrow> tstore \<Rightarrow> string \<Rightarrow> Task \<Rightarrow> Task" where
  "shown rdb s k old = (case (if rdb then live_entry s (cacheKey k) else None) of Some copy \<Rightarrow> copy | None \<Rightarrow> old)"

definition all_up :: "tstore \<Rightarrow> bool" where
  "all_up s \<longleftrightarrow> no_faults (base s) \<and> redis_faults s = []"

definition dlq_id_free :: "(gotime \<Rightarrow> string) \<Rightarrow> tstore \<Rightarrow> gotime \<Rightarrow> string \<Rightarrow> bool" where
  "dlq_id_free fmt s now k \<longleftrightarrow> \<not> has_key d_id (k @ ''_'' @ fmt now) (dlq_tasks (tables (base s)))"

lemma on_base_rest:
  "on_base stmt s = (r, s') \<Longrightarrow> cache s' = cache s \<and> redis_now s' = redis_now s \<and> redis_faults s' = redis_faults s
     \<and> stamp (base s') = stamp (base s)"
  by (auto simp: on_base_def split: prod.splits dest: exec_sql_frameD)

lemma on_base_ok: "on_base stmt s = (Inr x, s') \<Longrightarrow> stmt (tables (base s)) = (Inr x, tables (base s'))"
  by (auto simp: on_base_def split: prod.splits dest: exec_sql_Inr)

lemma on_base_tables:
  "on_base stmt s = (r, s') \<Longrightarrow> tables (base s') = tables (base s) \<or> tables (base s') = snd (stmt (tables (base s)))"
  by (auto simp: on_base_def split: prod.splits dest: exec_sql_tables)

lemma on_base_up:
  "on_base stmt s = (r, s') \<Longrightarrow> all_up s \<Longrightarrow> all_up s' \<and> r = fst (stmt (tables (base s))) \<and> tables (base s') = snd (stmt (tables (base s)))"
  by (auto simp: on_base_def all_up_def no_faults_def exec_sql_no_faults split: prod.splits)

lemma on_base_read: "on_base (\<lambda>T. (f T, T)) s = (r, s') \<Longrightarrow> tables (base s') = tables (base s)"
  using on_base_tables by fastforce

lemma on_base_run:
  "all_up s \<Longrightarrow> on_base stmt s = (fst (stmt (tables (base s))), s\<lparr>base := (base s)\<lparr>tables := snd (stmt (tables (base s)))\<rparr>\<rparr>)"
  by (simp add: on_base_def all_up_def no_faults_def exec_sql_no_faults)

lemma redis_cmd_rest [simp]:
  "base (snd (redis_cmd s)) = base s" "cache (snd (redis_cmd s)) = cache s" "redis_now (snd (redis_cmd s)) = redis_now s"
  by (auto simp: redis_cmd_def split: list.splits)

lemma redis_cmd_D: "redis_cmd s = (ok, s') \<Longrightarrow> base s' = base s \<and> cache s' = cache s \<and> redis_now s' = redis_now s"
  by (auto simp: redis_cmd_def split: list.splits)

lemma redis_cmd_up [simp]: "all_up s \<Longrightarrow> redis_cmd s = (True, s)"
  by (simp add: redis_cmd_def all_up_def)

text \<open>One row written by key, as the view sees it.\<close>

lemma id_rewritten [simp]: "t_ID (rewritten st t row) = t_ID row"
  by (simp add: rewritten_def)

lemma tview_update:
  "tasks (tables (base s')) = update_key t_ID k (rewritten st t) (tasks (tables (base s))) \<Longrightarrow>
   tview s k = Some t0 \<Longrightarrow> tview s' = (tview s)(k \<mapsto> rewritten st t t0)"
  by (auto simp: fun_eq_iff tview_def row_of_update_key)

lemma select_task_Inr: "select_task k T = Inr t \<longleftrightarrow> row_of t_ID k (tasks T) = Some t"
  by (auto simp: select_task_def split: option.splits)

lemma Update_split:
  assumes "Repo_Update rdb k f s = (r, s')"
  obtains (failed) e where "r = Inl e" "tables (base s') = tables (base s)" "stamp (base s') = stamp (base s)"
    | (committed) t where "tview s k = Some t" "r = Inr (f t) \<or> (\<exists>e. r = Inl e)" "stamp (base s') = stamp (base s)"
      "tables (base s') = (tables (base s))\<lparr>tasks := update_key t_ID (t_ID (f t)) (rewritten (stamp (base s)) (f t)) (tasks (tables (base s)))\<rparr>"
proof -
  obtain b s1 where b: "on_base (\<lambda>T. (Inr (), T)) s = (b, s1)" by fastforce
  note b' = on_base_read [OF b] on_base_rest [OF b]
  show thesis
  proof (cases b)
    case (Inl e)
    then show thesis using assms b b' by (intro failed) (auto simp: Repo_Update_def)
  next
    case b_ok: (Inr _)
    obtain q s2 where q: "on_base (\<lambda>T. (select_task k T, T)) s1 = (q, s2)" by fastforce
    note q' = on_base_read [OF q] on_base_rest [OF q]
    show thesis
    proof (cases q)
      case (Inl e)
      then show thesis using assms b b' b_ok q q' by (intro failed) (auto simp: Repo_Update_def)
    next
      case (Inr t)
      then have t: "tview s k = Some t" using on_base_ok [OF q [unfolded Inr]] b'(1) by (auto simp: tview_def select_task_Inr)
      obtain e s3 where e: "on_base (\<lambda>T. (Inr (), T)) s2 = (e, s3)" by fastforce
      note e' = on_base_read [OF e] on_base_rest [OF e]
      show thesis
      proof (cases e)
        case (Inl err)
        then show thesis using assms b b' b_ok q q' Inr e e' by (intro failed) (auto simp: Repo_Update_def)
      next
        case e_ok: (Inr _)
        let ?c = "\<lambda>T. (Inr (), T\<lparr>tasks := update_key t_ID (t_ID (f t)) (rewritten (stamp (base s3)) (f t)) (tasks T)\<rparr>)"
        obtain c s4 where c: "on_base ?c s3 = (c, s4)" by fastforce
        note c' = on_base_tables [OF c] on_base_rest [OF c]
        have same: "tables (base s3) = tables (base s)" "stamp (base s3) = stamp (base s)" using b' q' e' by simp_all
        have fin: "tables (base s') = tables (base s4)" "stamp (base s') = stamp (base s4)"
            "case c of Inl err \<Rightarrow> r = Inl (repo_error err) | Inr _ \<Rightarrow> r = Inr (f t)"
          using assms b b_ok q Inr e e_ok c
          by (auto simp: Repo_Update_def Let_def split: sum.splits prod.splits if_splits dest: redis_cmd_D)
        show thesis
        proof (cases "tables (base s4) = snd (?c (tables (base s3)))")
          case True
          then show thesis using fin c' same t by (intro committed [of t]) (auto split: sum.splits)
        next
          case False
          then have "tables (base s4) = tables (base s)" "\<not> (\<exists>u. c = Inr u)"
            using c' same on_base_ok [of ?c s3 _ s4] c by auto
          then obtain err where "c = Inl err" by (cases c) auto
          then have "r = Inl (repo_error err)" using fin(3) by simp
          then show thesis using fin(1,2) c' same \<open>tables (base s4) = tables (base s)\<close> by (intro failed) auto
        qed
      qed
    qed
  qed
qed

lemma Update_up:
  assumes "all_up s"
  shows "Repo_Update rdb k f s =
     (case tview s k of
        None \<Rightarrow> (Inl ErrTaskNotFound, s)
      | Some t \<Rightarrow> (Inr (f t), s\<lparr>base := (base s)\<lparr>tables := (tables (base s))\<lparr>tasks :=
            update_key t_ID (t_ID (f t)) (rewritten (stamp (base s)) (f t)) (tasks (tables (base s)))\<rparr>\<rparr>,
            cache := (if rdb then (cache s)(cacheKey k := None) else cache s)\<rparr>))"
proof -
  have u: "all_up (s\<lparr>base := (base s)\<lparr>tables := T\<rparr>\<rparr>)" for T using assms by (simp add: all_up_def no_faults_def)
  show ?thesis
    using u assms
    by (cases "tview s k")
       (simp_all add: Repo_Update_def on_base_run select_task_def tview_def Let_def)
qed

lemma on_base_run_db:
  "no_faults (base s) \<Longrightarrow> on_base stmt s = (fst (stmt (tables (base s))), s\<lparr>base := (base s)\<lparr>tables := snd (stmt (tables (base s)))\<rparr>\<rparr>)"
  by (simp add: on_base_def no_faults_def exec_sql_no_faults)

text \<open>With the database up and the invalidation failing, the update takes effect and the cache keeps its entries.\<close>

lemma Update_del_fails:
  assumes "no_faults (base s)" and "redis_faults s = True # fs" and "tview s k = Some t" and "t_ID (f t) = t_ID t"
  shows "\<exists>s'. Repo_Update True k f s = (Inr (f t), s') \<and> tview s' = (tview s)(k \<mapsto> rewritten (tstamp s) (f t) t)
     \<and> no_faults (base s') \<and> redis_faults s' = fs \<and> cache s' = cache s \<and> redis_now s' = redis_now s
     \<and> tdead s' = tdead s \<and> tstamp s' = tstamp s"
proof -
  let ?s = "s\<lparr>base := (base s)\<lparr>tables := (tables (base s))\<lparr>tasks :=
      update_key t_ID k (rewritten (stamp (base s)) (f t)) (tasks (tables (base s)))\<rparr>\<rparr>, redis_faults := fs\<rparr>"
  have k: "t_ID (f t) = k" using assms(3,4) by (auto simp: tview_def dest: row_of_Some_D)
  have "no_faults (base (s\<lparr>base := (base s)\<lparr>tables := T\<rparr>\<rparr>))" for T using assms(1) by (simp add: no_faults_def)
  then have "Repo_Update True k f s = (Inr (f t), ?s)"
    using assms k by (simp add: Repo_Update_def on_base_run_db select_task_def tview_def redis_cmd_def Let_def)
  moreover have "tview ?s = (tview s)(k \<mapsto> rewritten (stamp (base s)) (f t) t)"
    by (rule tview_update [OF _ assms(3)]) simp
  ultimately show ?thesis using assms(1) by (intro exI [of _ ?s]) (simp add: no_faults_def tdead_def tstamp_def)
qed

lemma Get_up:
  assumes "all_up s" and "cache_fresh rdb s k"
  shows "fst (Repo_Get rdb k s) = (case tview s k of None \<Rightarrow> Inl ErrTaskNotFound | Some t \<Rightarrow> Inr t) \<and> all_up (snd (Repo_Get rdb k s))"
proof -
  have up: "all_up (s\<lparr>base := base s\<lparr>tables := tables (base s)\<rparr>, cache := c\<rparr>)" for c
    using assms(1) by (simp add: all_up_def no_faults_def)
  show ?thesis
    using assms up
    by (cases "live_entry s (cacheKey k)"; cases "tview s k"; cases rdb)
       (auto simp: Repo_Get_def cache_fresh_def on_base_run select_task_def tview_def all_up_def no_faults_def)
qed

lemma Get_shown:
  assumes "all_up s" and "tview s k = Some old"
  shows "fst (Repo_Get rdb k s) = Inr (shown rdb s k old)"
  using assms
  by (cases "live_entry s (cacheKey k)"; cases rdb)
     (auto simp: Repo_Get_def shown_def on_base_run select_task_def tview_def all_up_def no_faults_def)

lemma Get_frame:
  assumes "Repo_Get rdb k s = (r, s')"
  shows "tables (base s') = tables (base s) \<and> stamp (base s') = stamp (base s)"
proof -
  obtain hit s1 where h: "(if rdb then (let (ok, s) = redis_cmd s in (if ok then live_entry s (cacheKey k) else None, s)) else (None, s))
      = (hit, s1)" by fastforce
  have b: "base s1 = base s" using h by (auto split: if_splits prod.splits dest: redis_cmd_D)
  obtain q s2 where q: "on_base (\<lambda>T. (select_task k T, T)) s1 = (q, s2)" by fastforce
  have s': "base s' = base s1 \<or> base s' = base s2"
    using assms h q
    by (cases hit; cases q; cases rdb) (auto simp: Repo_Get_def split: prod.splits if_splits dest: redis_cmd_D)
  then show ?thesis using b on_base_read [OF q] on_base_rest [OF q] by auto
qed

lemma dlq_save_cases:
  assumes "DLQ_Save fmt now t s = (r, s')"
  shows "tasks (tables (base s')) = tasks (tables (base s)) \<and> stamp (base s') = stamp (base s)
     \<and> (tdead s' = insert (t_ID t) (tdead s) \<or> (\<exists>e. r = Inl e) \<and> tdead s' = tdead s)
     \<and> (all_up s \<longrightarrow> all_up s' \<and> (dlq_id_free fmt s now (t_ID t) \<longrightarrow> r = Inr () \<and> tdead s' = insert (t_ID t) (tdead s)))"
proof -
  let ?e = "dlq_entry fmt (stamp (base s)) now t"
  let ?stmt = "\<lambda>T. (let (r, rows) = insert_row d_id ?e (dlq_tasks T) in (r, T\<lparr>dlq_tasks := rows\<rparr>))"
  obtain q d where q: "exec_sql ?stmt (base s) = (q, d)" by fastforce
  have r: "s' = s\<lparr>base := d\<rparr>" "case q of Inl e \<Rightarrow> r = Inl (repo_error e) | Inr _ \<Rightarrow> r = Inr ()"
    using assms q by (auto simp: DLQ_Save_def on_base_def split: sum.splits)
  have dead: "d_task_id ?e = t_ID t" by (simp add: dlq_entry_def)
  have key: "d_id ?e = t_ID t @ ''_'' @ fmt now" by (simp add: dlq_entry_def)
  have st: "stamp d = stamp (base s)" using exec_sql_frameD [OF q] by simp
  show ?thesis
  proof (cases rule: insert_row_cases [of d_id ?e "dlq_tasks (tables (base s))"])
    case inserted
    then show ?thesis
      using exec_sql_shape [of ?stmt "base s"] exec_sql_no_faults [of "base s" ?stmt] q r dead st
      by (elim disjE exE) (auto simp: tdead_def all_up_def no_faults_def)
  next
    case duplicate
    then have "\<not> dlq_id_free fmt s now (t_ID t)" by (simp add: dlq_id_free_def has_key_row_of key)
    then show ?thesis
      using exec_sql_shape [of ?stmt "base s"] exec_sql_no_faults [of "base s" ?stmt] q r dead st duplicate
      by (elim disjE exE) (auto simp: tdead_def all_up_def no_faults_def)
  qed
qed

interpretation pg_tasks: task_repo "NewPostgresRepo rdb" "NewPostgresDLQRepository fmt"
    tview tdead tstamp "cache_fresh rdb" all_up "dlq_id_free fmt" for rdb fmt
proof (unfold_locales, goal_cases)
  case (1 k f s r s')
  have "Repo_Update rdb k f s = (r, s')" using 1(1) by simp
  then show ?case
  proof (cases rule: Update_split)
    case (failed e)
    then show ?thesis by (simp add: tview_def [abs_def])
  next
    case (committed t)
    have "t_ID (f t) = k" using 1(2) committed(1) by (auto simp: tview_def dest: row_of_Some_D)
    then have "tview s' = (tview s)(k \<mapsto> rewritten (stamp (base s)) (f t) t)"
      using committed(4) by (intro tview_update [OF _ committed(1)]) simp
    then show ?thesis using committed by (auto simp: tstamp_def)
  qed
next
  case (2 k f s r s')
  have "Repo_Update rdb k f s = (r, s')" using 2 by simp
  then show ?case by (cases rule: Update_split) (auto simp: tdead_def tstamp_def dlq_id_free_def [abs_def])
next
  case (3 k f s r s')
  then show ?case
    by (cases "tview s k")
       (auto simp: Update_up all_up_def no_faults_def cache_fresh_def live_entry_def)
next
  case (4 k s r s')
  then show ?case using Get_frame [of rdb k s r s'] by (simp add: tview_def [abs_def] tdead_def tstamp_def dlq_id_free_def [abs_def])
next
  case (5 k s r s')
  then show ?case using Get_up [of s rdb k] by simp
next
  case (6 now t s q s')
  then show ?case using dlq_save_cases [of fmt now t s q s'] by (auto simp: tview_def [abs_def] tstamp_def)
next
  case (7 now t s q s')
  then show ?case using dlq_save_cases [of fmt now t s q s'] by auto
qed

interpretation task_queue: claim_queue t_ID task_ready t_ExecuteAt mark_queued
  by unfold_locales (simp_all add: mark_queued_def task_ready_def)

end
