(* ===== verification/TaskWorker.thy ===== *)
theory TaskWorker
  imports TaskStore Retry Http
begin

text \<open>
  The workers of the task scheduler, \<open>internal/scheduler/service/worker.go\<close>: the callback of a task, and
  what its success or failure does to the stored task.
\<close>

section \<open>The callback\<close>

record callback_request =
  cq_url :: string
  cq_content_type :: string
  cq_authorization :: string   \<comment> \<open>empty: no header\<close>
  cq_body :: string

datatype callback_reply = BadURL string | ConnectionFailed string | Answered status_code

text \<open>What one processing of a task takes from outside.\<close>

record work_env =
  we_now :: gotime             \<comment> \<open>\<open>time.Now()\<close> of the back-off\<close>
  we_dlq_now :: gotime         \<comment> \<open>\<open>time.Now()\<close> of the dead-letter entry\<close>
  we_big :: int                \<comment> \<open>\<open>int(f)\<close> of a \<open>float64\<close> beyond the range of \<open>int\<close>: left open by Go\<close>
  we_do :: "callback_request \<Rightarrow> callback_reply"

text \<open>The request of a task's callback: the code sets no header but the content type.\<close>

definition callback_of :: "Task \<Rightarrow> callback_request" where
  "callback_of t = \<lparr>cq_url = t_CallbackURL t, cq_content_type = ''application/json'', cq_authorization = '''',
     cq_body = t_Payload t\<rparr>"

definition executeCallback :: "(callback_request \<Rightarrow> callback_reply) \<Rightarrow> Task \<Rightarrow> bool" where
  "executeCallback client_do t =
     (if t_CallbackURL t = '''' then True
      else case client_do (callback_of t) of
             BadURL _ \<Rightarrow> False
           | ConnectionFailed _ \<Rightarrow> False
           | Answered code \<Rightarrow> \<not> (code < 200 \<or> code \<ge> 300))"

section \<open>Failure\<close>

text \<open>\<open>int(math.Pow(2, float64(k)))\<close>\<close>

definition int_pow2 :: "int \<Rightarrow> int \<Rightarrow> int" where
  "int_pow2 big k = (if k < 0 then 0 else if k \<le> 62 then 2 ^ nat k else big)"

definition backoffSec :: "int \<Rightarrow> int \<Rightarrow> int" where
  "backoffSec big k = wrap64 (int_pow2 big k * 2)"

definition backoff :: "int \<Rightarrow> int \<Rightarrow> duration" where
  "backoff big k = wrap64 (backoffSec big k * second)"

definition failure_update :: "int \<Rightarrow> gotime \<Rightarrow> Task \<Rightarrow> Task" where
  "failure_update big now task =
     (let task = task\<lparr>t_RetryCount := wrap64 (t_RetryCount task + 1)\<rparr>
      in if t_RetryCount task > t_MaxRetries task then task\<lparr>t_Status := StatusFailed\<rparr>
         else task\<lparr>t_Status := StatusPending, t_ExecuteAt := time_add now (backoff big (t_RetryCount task))\<rparr>)"

definition handleFailure :: "'s TaskRepo \<Rightarrow> 's TaskDLQRepo \<Rightarrow> work_env \<Rightarrow> Task \<Rightarrow> 's \<Rightarrow> 's" where
  "handleFailure repo dlqRepo env t s =
     (case tk_Update repo (t_ID t) (failure_update (we_big env) (we_now env)) s of
        (Inl _, s) \<Rightarrow> s
      | (Inr _, s) \<Rightarrow>
          (case tk_Get repo (t_ID t) s of
             (Inl _, s) \<Rightarrow> s
           | (Inr updatedTask, s) \<Rightarrow>
               (if t_Status updatedTask = StatusFailed then snd (td_Save dlqRepo (we_dlq_now env) updatedTask s) else s)))"

section \<open>One iteration of a worker\<close>

definition set_status :: "TaskStatus \<Rightarrow> Task \<Rightarrow> Task" where
  "set_status status task = task\<lparr>t_Status := status\<rparr>"

definition Worker_task :: "'s TaskRepo \<Rightarrow> 's TaskDLQRepo \<Rightarrow> work_env \<Rightarrow> Task \<Rightarrow> 's \<Rightarrow> 's" where
  "Worker_task repo dlqRepo env t s =
     (case tk_Update repo (t_ID t) (set_status StatusProcessing) s of
        (Inl _, s) \<Rightarrow> s
      | (Inr _, s) \<Rightarrow>
          (if executeCallback (we_do env) t
           then snd (tk_Update repo (t_ID t) (set_status StatusCompleted) s)
           else handleFailure repo dlqRepo env t s))"

text \<open>\<open>for t := range s.taskChannel\<close>, over what the channel delivers until it is closed and empty.\<close>

fun Worker :: "'s TaskRepo \<Rightarrow> 's TaskDLQRepo \<Rightarrow> (work_env \<times> Task) list \<Rightarrow> 's \<Rightarrow> 's" where
  "Worker repo dlqRepo [] s = s"
| "Worker repo dlqRepo ((env, t) # ts) s = Worker repo dlqRepo ts (Worker_task repo dlqRepo env t s)"

section \<open>The worker over any repository\<close>

lemma set_status_sel [simp]:
  "t_ID (set_status x t) = t_ID t" "t_Status (set_status x t) = x" "t_RetryCount (set_status x t) = t_RetryCount t"
  "t_MaxRetries (set_status x t) = t_MaxRetries t" "t_CallbackURL (set_status x t) = t_CallbackURL t"
  "t_Payload (set_status x t) = t_Payload t" "t_ExecuteAt (set_status x t) = t_ExecuteAt t"
  by (simp_all add: set_status_def)

lemma rewritten_sel [simp]:
  "t_Status (rewritten st t row) = t_Status t" "t_RetryCount (rewritten st t row) = t_RetryCount t"
  "t_MaxRetries (rewritten st t row) = t_MaxRetries t" "t_CallbackURL (rewritten st t row) = t_CallbackURL t"
  "t_Payload (rewritten st t row) = t_Payload t" "t_ExecuteAt (rewritten st t row) = st (t_ExecuteAt t)"
  "t_CreatedAt (rewritten st t row) = t_CreatedAt row"
  by (simp_all add: rewritten_def)

lemma failure_update_id [simp]: "t_ID (failure_update big now t) = t_ID t"
  by (simp add: failure_update_def Let_def)

lemma failure_update_max [simp]:
  "t_MaxRetries (failure_update big now t) = t_MaxRetries t" "t_CallbackURL (failure_update big now t) = t_CallbackURL t"
  "t_Payload (failure_update big now t) = t_Payload t"
  by (simp_all add: failure_update_def Let_def)

context task_repo
begin

text \<open>Whatever fails: no task appears or vanishes, other tasks keep their row, and dead letters stay.\<close>

definition task_frame :: "string \<Rightarrow> 's \<Rightarrow> 's \<Rightarrow> bool" where
  "task_frame k s s' \<longleftrightarrow> dom (view s') = dom (view s) \<and> (\<forall>j. j \<noteq> k \<longrightarrow> view s' j = view s j) \<and> dead s \<subseteq> dead s'"

lemma task_frame_trans: "task_frame k s s' \<Longrightarrow> task_frame k s' s'' \<Longrightarrow> task_frame k s s''"
  by (auto simp: task_frame_def)

lemma task_frame_refl: "task_frame k s s"
  by (auto simp: task_frame_def)

lemma update_task_frame: "tk_Update R k f s = (r, s') \<Longrightarrow> (\<And>t. t_ID (f t) = t_ID t) \<Longrightarrow> task_frame k s s'"
  using update_view [of k f s r s'] update_frame [of k f s r s'] by (auto simp: task_frame_def split: if_splits)

lemma get_task_frame: "tk_Get R k s = (r, s') \<Longrightarrow> task_frame j s s'"
  using get_frame [of k s r s'] by (auto simp: task_frame_def)

lemma save_task_frame: "td_Save D now t s = (q, s') \<Longrightarrow> task_frame j s s'"
  using save_frame [of now t s q s'] by (auto simp: task_frame_def)

lemma handleFailure_frame: "task_frame (t_ID t) s (handleFailure R D env t s)"
proof -
  obtain r s1 where u: "tk_Update R (t_ID t) (failure_update (we_big env) (we_now env)) s = (r, s1)" by fastforce
  obtain g s2 where g: "tk_Get R (t_ID t) s1 = (g, s2)" by fastforce
  note f = update_task_frame [OF u] get_task_frame [OF g, of "t_ID t"]
  have "task_frame (t_ID t) s2 (snd (td_Save D now x s2))" for now x
    using save_task_frame [of now x s2 _ _ "t_ID t"] by (metis prod.collapse)
  then show ?thesis using f u g task_frame_trans [of "t_ID t"]
    by (cases r; cases g) (auto simp: handleFailure_def)
qed

lemma Worker_task_frame: "task_frame (t_ID t) s (Worker_task R D env t s)"
proof -
  obtain r s1 where u: "tk_Update R (t_ID t) (set_status StatusProcessing) s = (r, s1)" by fastforce
  obtain r2 s2 where u2: "tk_Update R (t_ID t) (set_status StatusCompleted) s1 = (r2, s2)" by fastforce
  have "task_frame (t_ID t) s s1" "task_frame (t_ID t) s1 s2" using update_task_frame [OF u] update_task_frame [OF u2] by simp_all
  then show ?thesis using u u2 handleFailure_frame [of t s1 env] task_frame_trans [of "t_ID t"]
    by (cases r) (auto simp: Worker_task_def)
qed

text \<open>Without faults: one processing of a stored task.\<close>

lemma update_task:
  assumes "reliable s" and "view s k = Some t" and "\<And>t. t_ID (f t) = t_ID t"
  obtains s' where "tk_Update R k f s = (Inr (f t), s')" "reliable s'" "fresh s' k" "dead s' = dead s" "st s' = st s"
    "no_clash s' = no_clash s" "view s' = (view s)(k \<mapsto> rewritten (st s) (f t) t)"
proof -
  obtain r s' where u: "tk_Update R k f s = (r, s')" by fastforce
  then have "r = Inr (f t)" "reliable s'" "fresh s' k" using update_reliable [OF u assms(1,3)] assms(2) by simp_all
  then show thesis using that u update_view [OF u assms(3)] update_frame [OF u] assms(2) by auto
qed

lemma worker_success:
  assumes "reliable s" and "view s (t_ID t) = Some t0" and "executeCallback (we_do env) t"
  shows "\<exists>t'. view (Worker_task R D env t s) = (view s)(t_ID t \<mapsto> t') \<and> t_Status t' = StatusCompleted
     \<and> t_RetryCount t' = t_RetryCount t0 \<and> t_MaxRetries t' = t_MaxRetries t0 \<and> t_CallbackURL t' = t_CallbackURL t0
     \<and> t_Payload t' = t_Payload t0 \<and> dead (Worker_task R D env t s) = dead s \<and> reliable (Worker_task R D env t s)"
proof -
  obtain s1 where s1: "tk_Update R (t_ID t) (set_status StatusProcessing) s = (Inr (set_status StatusProcessing t0), s1)"
      "reliable s1" "dead s1 = dead s" "view s1 = (view s)(t_ID t \<mapsto> rewritten (st s) (set_status StatusProcessing t0) t0)"
    using update_task [OF assms(1,2), of "set_status StatusProcessing"] by auto
  let ?t1 = "rewritten (st s) (set_status StatusProcessing t0) t0"
  have "view s1 (t_ID t) = Some ?t1" using s1(4) by simp
  then obtain s2 where s2: "tk_Update R (t_ID t) (set_status StatusCompleted) s1 = (Inr (set_status StatusCompleted ?t1), s2)"
      "reliable s2" "dead s2 = dead s1" "view s2 = (view s1)(t_ID t \<mapsto> rewritten (st s1) (set_status StatusCompleted ?t1) ?t1)"
    using update_task [OF s1(2), of "t_ID t" ?t1 "set_status StatusCompleted"] by auto
  show ?thesis using s1 s2 assms(3)
    by (intro exI [of _ "rewritten (st s1) (set_status StatusCompleted ?t1) ?t1"]) (simp add: Worker_task_def)
qed

lemma worker_failure:
  assumes "reliable s" and "view s (t_ID t) = Some t0" and "\<not> executeCallback (we_do env) t"
    and "0 \<le> t_RetryCount t0" "t_RetryCount t0 < max_int64" and id: "t_ID t0 = t_ID t"
  shows "\<exists>t'. view (Worker_task R D env t s) = (view s)(t_ID t \<mapsto> t') \<and> t_RetryCount t' = t_RetryCount t0 + 1
     \<and> t_MaxRetries t' = t_MaxRetries t0 \<and> t_CallbackURL t' = t_CallbackURL t0 \<and> t_Payload t' = t_Payload t0
     \<and> reliable (Worker_task R D env t s)
     \<and> (if t_RetryCount t0 + 1 > t_MaxRetries t0
        then t_Status t' = StatusFailed \<and> (\<exists>s2. view s2 = view (Worker_task R D env t s) \<and> dead s2 = dead s \<and> no_clash s2 = no_clash s \<and>
             Worker_task R D env t s = snd (td_Save D (we_dlq_now env) t' s2) \<and> t_ID t' = t_ID t \<and> reliable s2)
        else t_Status t' = StatusPending \<and> dead (Worker_task R D env t s) = dead s
          \<and> t_ExecuteAt t' = st s (we_now env + backoff (we_big env) (t_RetryCount t0 + 1)))"
proof -
  let ?f = "failure_update (we_big env) (we_now env)"
  obtain s1 where s1: "tk_Update R (t_ID t) (set_status StatusProcessing) s = (Inr (set_status StatusProcessing t0), s1)"
      "reliable s1" "dead s1 = dead s" "st s1 = st s" "no_clash s1 = no_clash s" "view s1 = (view s)(t_ID t \<mapsto> rewritten (st s) (set_status StatusProcessing t0) t0)"
    using update_task [OF assms(1,2), of "set_status StatusProcessing"] by auto
  let ?t1 = "rewritten (st s) (set_status StatusProcessing t0) t0"
  have "view s1 (t_ID t) = Some ?t1" using s1(6) by simp
  then obtain s2 where s2: "tk_Update R (t_ID t) ?f s1 = (Inr (?f ?t1), s2)" "reliable s2" "fresh s2 (t_ID t)"
      "dead s2 = dead s1" "no_clash s2 = no_clash s1" "view s2 = (view s1)(t_ID t \<mapsto> rewritten (st s1) (?f ?t1) ?t1)"
    using update_task [OF s1(2), of "t_ID t" ?t1 ?f] by auto
  let ?t2 = "rewritten (st s1) (?f ?t1) ?t1"
  obtain g s3 where g: "tk_Get R (t_ID t) s2 = (g, s3)" by fastforce
  have s3: "g = Inr ?t2" "reliable s3" "view s3 = view s2" "dead s3 = dead s2" "no_clash s3 = no_clash s2"
    using get_reliable [OF g s2(2,3)] get_frame [OF g] s2(6) by simp_all
  have w: "wrap64 (t_RetryCount t0 + 1) = t_RetryCount t0 + 1"
    using assms(4,5) by (intro wrap64_id) (simp_all add: min_int64_def)
  have run: "Worker_task R D env t s =
      (if t_Status ?t2 = StatusFailed then snd (td_Save D (we_dlq_now env) ?t2 s3) else s3)"
    using s1(1) s2(1) g s3(1) assms(3) by (simp add: Worker_task_def handleFailure_def)
  obtain q s4 where q: "td_Save D (we_dlq_now env) ?t2 s3 = (q, s4)" by fastforce
  have s4: "reliable s4" "view s4 = view s3" using save_reliable [OF q s3(2)] save_frame [OF q] by simp_all
  have v: "view s2 = (view s)(t_ID t \<mapsto> ?t2)" using s1(6) s2(6) by simp
  show ?thesis
  proof (cases "t_RetryCount t0 + 1 > t_MaxRetries t0")
    case True
    then have f: "t_Status ?t2 = StatusFailed" "t_RetryCount ?t2 = t_RetryCount t0 + 1"
      by (simp_all add: failure_update_def w)
    then have "Worker_task R D env t s = s4" "s4 = snd (td_Save D (we_dlq_now env) ?t2 s3)" using run q by simp_all
    then show ?thesis using True f s4 s3 s2(4,5) s1(3,5) v id
      by (intro exI [of _ ?t2]) auto
  next
    case False
    then have f: "t_Status ?t2 = StatusPending" "t_RetryCount ?t2 = t_RetryCount t0 + 1"
        "t_ExecuteAt ?t2 = st s (we_now env + backoff (we_big env) (t_RetryCount t0 + 1))"
      by (simp_all add: failure_update_def w time_add_def s1(4))
    then have "Worker_task R D env t s = s3" using run by simp
    then show ?thesis using False f s3 s2(4) s1(3) v by (intro exI [of _ ?t2]) auto
  qed
qed

end

section \<open>The back-off\<close>

lemma backoff_exact:
  assumes "0 \<le> k" and "k \<le> 32"
  shows "backoff big k = 2 * 2 ^ nat k * second"
proof -
  have p: "(2::int) ^ nat k \<le> 4294967296" using power_increasing [of "nat k" 32 "2::int"] assms by simp
  have q: "(0::int) \<le> 2 ^ nat k" by simp
  have "wrap64 (2 ^ nat k * 2) = 2 ^ nat k * 2"
    by (rule wrap64_id) (use p q in \<open>unfold min_int64_def max_int64_def, linarith+\<close>)
  moreover have "wrap64 (2 ^ nat k * 2 * second) = 2 ^ nat k * 2 * second"
    by (rule wrap64_id) (use p q in \<open>unfold min_int64_def max_int64_def second_def, linarith+\<close>)
  ultimately show ?thesis using assms by (simp add: backoff_def backoffSec_def int_pow2_def mult.commute)
qed

text \<open>Beyond 32 the multiplication of the durations wraps around.\<close>

lemma backoff_cong:
  assumes "0 \<le> k" and "k \<le> 62"
  shows "2 ^ 64 dvd 2 * 2 ^ nat k * second - backoff big k"
proof -
  let ?p = "2 ^ nat k * 2 :: int"
  have "2 ^ 64 dvd (?p - wrap64 ?p) * second" using wrap64_cong [of ?p] by (rule dvd_mult2)
  then have "2 ^ 64 dvd (?p - wrap64 ?p) * second + (wrap64 ?p * second - wrap64 (wrap64 ?p * second))"
    using wrap64_cong by (rule dvd_add)
  moreover have "(?p - wrap64 ?p) * second + (wrap64 ?p * second - wrap64 (wrap64 ?p * second))
      = 2 * 2 ^ nat k * second - backoff big k"
    using assms by (simp add: backoff_def backoffSec_def int_pow2_def algebra_simps)
  ultimately show ?thesis by simp
qed

lemma backoff_short:
  assumes "k > 32"
  shows "backoff big k < 2 * 2 ^ nat k * second"
proof -
  have "(2::int) ^ 33 \<le> 2 ^ nat k" by (rule power_increasing) (use assms in simp_all)
  moreover have "backoff big k \<le> max_int64" using wrap64_range by (simp add: backoff_def)
  ultimately show ?thesis by (simp add: max_int64_def second_def)
qed

lemma backoff_zero:
  assumes "54 \<le> k" and "k \<le> 62"
  shows "backoff big k = 0"
proof -
  have "nat k = 54 + (nat k - 54)" using assms by simp
  then obtain j where "2 ^ nat k = (2::int) ^ 54 * 2 ^ j" by (metis power_add)
  then have "2 * 2 ^ nat k * second = 2 ^ 64 * (1953125 * 2 ^ j)" by (simp add: second_def)
  then have d: "2 ^ 64 dvd 2 * 2 ^ nat k * second" by (rule dvdI)
  have c: "2 ^ 64 dvd 2 * 2 ^ nat k * second - backoff big k" using assms by (intro backoff_cong) simp_all
  have "x - (x - y) = y" for x y :: int by simp
  then have "2 ^ 64 dvd backoff big k" using dvd_diff [OF d c] by (simp only:)
  then have "wrap64 (backoff big k) = 0" by (rule wrap64_multiple)
  moreover have "wrap64 (backoff big k) = backoff big k"
    unfolding backoff_def using wrap64_range by (intro wrap64_id) blast+
  ultimately show ?thesis by simp
qed

text \<open>
  C40. The back-off is the documented \<open>2 ^ k * 2\<close> seconds (4, 8, 16, ...) for every retry count up to 32.
  From 33 on it never is: up to 62 it is the documented duration modulo \<open>2 ^ 64\<close> nanoseconds, always shorter
  than documented, sometimes negative (33) and sometimes positive (36), and zero from 54 to 62, so that the
  next execution is due at once; beyond 62, where the conversion from \<open>float64\<close> is up to the implementation,
  it is shorter than documented too.
\<close>

theorem backoff_bounds:
  "(\<forall>k \<in> {0..32}. backoff big k = 2 * 2 ^ nat k * second)
   \<and> (\<forall>k \<in> {33..62}. 2 ^ 64 dvd 2 * 2 ^ nat k * second - backoff big k)
   \<and> (\<forall>k > 32. min_int64 \<le> backoff big k \<and> backoff big k \<le> max_int64 \<and> backoff big k < 2 * 2 ^ nat k * second)
   \<and> (\<forall>k \<in> {54..62}. backoff big k = 0) \<and> backoff big 33 < 0 \<and> 0 < backoff big 36"
proof (intro conjI ballI allI impI)
  show "backoff big 33 < 0" "0 < backoff big 36"
    by (simp_all add: backoff_def backoffSec_def int_pow2_def wrap64_def second_def)
  show "backoff big k = 2 * 2 ^ nat k * second" if "k \<in> {0..32}" for k using that by (intro backoff_exact) simp_all
  show "2 ^ 64 dvd 2 * 2 ^ nat k * second - backoff big k" if "k \<in> {33..62}" for k using that by (intro backoff_cong) simp_all
  show "backoff big k = 0" if "k \<in> {54..62}" for k using that by (intro backoff_zero) simp_all
  show "min_int64 \<le> backoff big k" "backoff big k \<le> max_int64" for k unfolding backoff_def using wrap64_range by blast+
qed (rule backoff_short)

theorem backoff_bounds_witness: "backoff 0 2 = 8 * second \<and> backoff 0 33 < 0 \<and> backoff 0 60 = 0"
  using backoff_bounds [of 0] by simp

section \<open>The life of a task\<close>

text \<open>One execution of the task \<open>k\<close> once it is due: claimed, so QUEUED, and handed to a worker.\<close>

definition execute :: "bool \<Rightarrow> (gotime \<Rightarrow> string) \<Rightarrow> string \<Rightarrow> work_env \<Rightarrow> tstore \<Rightarrow> tstore" where
  "execute rdb fmt k env s =
     (case tview s k of
        Some t \<Rightarrow> (if t_Status t = StatusPending
                  then Worker_task (NewPostgresRepo rdb) (NewPostgresDLQRepository fmt) env (mark_queued t) s else s)
      | None \<Rightarrow> s)"

definition execution_fails :: "string \<Rightarrow> work_env \<Rightarrow> tstore \<Rightarrow> bool" where
  "execution_fails k env s = (case tview s k of Some t \<Rightarrow> \<not> executeCallback (we_do env) (mark_queued t) | None \<Rightarrow> False)"

definition task_status :: "string \<Rightarrow> tstore \<Rightarrow> TaskStatus option" where
  "task_status k s = map_option t_Status (tview s k)"

definition task_retries :: "string \<Rightarrow> tstore \<Rightarrow> int" where
  "task_retries k s = (case tview s k of Some t \<Rightarrow> t_RetryCount t | None \<Rightarrow> 0)"

definition task_phase :: "string \<Rightarrow> tstore \<Rightarrow> phase" where
  "task_phase k s = (if task_status k s = Some StatusCompleted then Done
     else if task_status k s = Some StatusFailed then Dead else Waiting)"

definition task_ok :: "string \<Rightarrow> int \<Rightarrow> tstore \<Rightarrow> bool" where
  "task_ok k limit s \<longleftrightarrow> all_up s \<and> limit < max_int64 \<and>
     (\<exists>t. tview s k = Some t \<and> t_MaxRetries t = limit \<and>
        (t_Status t = StatusPending \<and> 0 \<le> t_RetryCount t \<and> t_RetryCount t \<le> limit
         \<or> t_Status t = StatusCompleted \<or> t_Status t = StatusFailed))"

lemma tview_id: "tview s k = Some t \<Longrightarrow> t_ID t = k"
  by (auto simp: tview_def dest: row_of_Some_D)

lemma mark_queued_sel [simp]:
  "t_ID (mark_queued t) = t_ID t" "t_CallbackURL (mark_queued t) = t_CallbackURL t" "t_Payload (mark_queued t) = t_Payload t"
  by (simp_all add: mark_queued_def)

lemma execute_cases:
  assumes "task_ok k limit s" and "task_phase k s = Waiting"
  obtains t t' where "tview s k = Some t" "t_Status t = StatusPending" "t_MaxRetries t = limit" "t_MaxRetries t' = limit"
    "t_CallbackURL t' = t_CallbackURL t" "all_up (execute rdb fmt k env s)" "tview (execute rdb fmt k env s) = (tview s)(k \<mapsto> t')"
    "if \<not> execution_fails k env s then t_Status t' = StatusCompleted
     else t_RetryCount t' = t_RetryCount t + 1 \<and> t_Status t' = (if t_RetryCount t + 1 > limit then StatusFailed else StatusPending)"
proof -
  let ?R = "NewPostgresRepo rdb" and ?D = "NewPostgresDLQRepository fmt"
  obtain t where t: "tview s k = Some t" "t_Status t = StatusPending" "t_MaxRetries t = limit" "0 \<le> t_RetryCount t"
      "t_RetryCount t \<le> limit" "all_up s" "limit < max_int64"
    using assms by (auto simp: task_ok_def task_phase_def task_status_def split: if_splits)
  have run: "execute rdb fmt k env s = Worker_task ?R ?D env (mark_queued t) s" using t(1,2) by (simp add: execute_def)
  have v: "tview s (t_ID (mark_queued t)) = Some t" using t(1) tview_id [OF t(1)] by simp
  have f: "execution_fails k env s \<longleftrightarrow> \<not> executeCallback (we_do env) (mark_queued t)" using t(1) by (simp add: execution_fails_def)
  show thesis
  proof (cases "execution_fails k env s")
    case False
    from pg_tasks.worker_success [OF t(6) v, of env rdb fmt] False f obtain t' where
      "tview (Worker_task ?R ?D env (mark_queued t) s) = (tview s)(k \<mapsto> t')" "t_Status t' = StatusCompleted"
      "t_MaxRetries t' = limit" "t_CallbackURL t' = t_CallbackURL t" "all_up (Worker_task ?R ?D env (mark_queued t) s)"
      using tview_id [OF t(1)] t(3) by auto
    then show thesis using that [of t t'] t False run by simp
  next
    case True
    from pg_tasks.worker_failure [OF t(6) v, of env rdb fmt] True f t(4,5,7) tview_id [OF t(1)] obtain t' where
      "tview (Worker_task ?R ?D env (mark_queued t) s) = (tview s)(k \<mapsto> t')" "t_RetryCount t' = t_RetryCount t + 1"
      "t_MaxRetries t' = limit" "t_CallbackURL t' = t_CallbackURL t" "all_up (Worker_task ?R ?D env (mark_queued t) s)"
      "t_Status t' = (if t_RetryCount t + 1 > limit then StatusFailed else StatusPending)"
      using tview_id [OF t(1)] t(3) by (auto split: if_splits)
    then show thesis using that [of t t'] t True run by simp
  qed
qed

lemma execute_final: "task_phase k s \<noteq> Waiting \<Longrightarrow> execute rdb fmt k env s = s"
  by (auto simp: execute_def task_phase_def task_status_def split: option.splits if_splits)

lemma task_ok_waiting:
  "task_ok k limit s \<Longrightarrow> task_phase k s = Waiting \<Longrightarrow> tview s k = Some t \<Longrightarrow> 0 \<le> t_RetryCount t \<and> t_RetryCount t \<le> limit"
  by (auto simp: task_ok_def task_phase_def task_status_def split: if_splits)

interpretation task_life: retry_machine "execute rdb fmt k" "execution_fails k" "task_phase k" "task_retries k" "task_ok k limit" limit
  for rdb fmt k limit
proof (unfold_locales, goal_cases)
  case (1 s e)
  show ?case
  proof (cases "task_phase k s = Waiting")
    case True
    show ?thesis
    proof (rule execute_cases [OF 1 True, of rdb fmt e])
      fix t t'
      assume h: "tview s k = Some t" "t_MaxRetries t' = limit" "all_up (execute rdb fmt k e s)"
        "tview (execute rdb fmt k e s) = (tview s)(k \<mapsto> t')"
        "if \<not> execution_fails k e s then t_Status t' = StatusCompleted
         else t_RetryCount t' = t_RetryCount t + 1 \<and> t_Status t' = (if t_RetryCount t + 1 > limit then StatusFailed else StatusPending)"
      then show ?thesis using 1 task_ok_waiting [OF 1 True h(1)]
        by (auto simp: task_ok_def split: if_splits)
    qed
  qed (use 1 in \<open>simp add: execute_final\<close>)
next
  case (2 s)
  then show ?case using task_ok_waiting [OF 2] by (auto simp: task_ok_def task_retries_def)
next
  case (3 s e)
  then show ?case by (simp add: execute_final)
next
  case (4 s e)
  then show ?case
    by (elim execute_cases [where rdb = rdb and fmt = fmt and env = e]) (simp_all add: task_phase_def task_status_def)
next
  case (5 s e)
  then show ?case
    by (elim execute_cases [where rdb = rdb and fmt = fmt and env = e])
       (simp_all add: task_phase_def task_status_def task_retries_def)
next
  case (6 s e)
  then show ?case
    by (elim execute_cases [where rdb = rdb and fmt = fmt and env = e])
       (simp_all add: task_phase_def task_status_def task_retries_def)
qed

text \<open>
  C7. The life of a task: with its services up, a fresh task that allows \<open>M\<close> retries is, after any
  sequence of executions, PENDING exactly if all of them failed and they were at most \<open>M\<close>; FAILED exactly if
  its first \<open>M + 1\<close> executions failed; and COMPLETED otherwise.
\<close>

theorem task_retry_life:
  assumes "all_up s" and "tview s k = Some t" and "t_Status t = StatusPending" and "t_RetryCount t = 0"
    and M: "t_MaxRetries t = int M" "int M < max_int64" and s': "s' = run_steps (execute rdb fmt k) es s"
  shows "(task_status k s' = Some StatusPending \<longleftrightarrow> length es \<le> M \<and> fail_steps (execute rdb fmt k) (execution_fails k) es s)
     \<and> (task_status k s' = Some StatusFailed \<longleftrightarrow>
          M + 1 \<le> length es \<and> fail_steps (execute rdb fmt k) (execution_fails k) (take (M + 1) es) s)
     \<and> (task_status k s' = Some StatusPending \<or> task_status k s' = Some StatusFailed \<or> task_status k s' = Some StatusCompleted)"
proof -
  have ok: "task_ok k (int M) s" "task_phase k s = Waiting" and r: "task_retries k s = 0"
    using assms(1-6) by (simp_all add: task_ok_def task_phase_def task_status_def task_retries_def)
  have ok': "task_ok k (int M) s'" unfolding s' by (rule task_life.good_run [OF ok(1)])
  have ph: "task_phase k s' = Waiting \<longleftrightarrow> task_status k s' = Some StatusPending"
      "task_phase k s' = Dead \<longleftrightarrow> task_status k s' = Some StatusFailed"
      "task_status k s' = Some StatusPending \<or> task_status k s' = Some StatusFailed \<or> task_status k s' = Some StatusCompleted"
    using ok' by (auto simp: task_ok_def task_phase_def task_status_def)
  have n: "(\<exists>m. m \<le> length es \<and> int m = int M - 0 + 1 \<and> P m) \<longleftrightarrow> M + 1 \<le> length es \<and> P (M + 1)" for P
    by (auto intro!: exI [of _ "M + 1"]) (metis Suc_eq_plus1 of_nat_Suc of_nat_eq_iff add.commute)+
  show ?thesis
    using ph task_life.waiting_iff [OF ok, of rdb fmt es] task_life.dead_iff [OF ok, of rdb fmt es]
    unfolding s' r n by auto
qed

definition demo_task :: "string \<Rightarrow> TaskStatus \<Rightarrow> int \<Rightarrow> int \<Rightarrow> Task" where
  "demo_task ident status retries max_retries = \<lparr>t_ID = ident, t_Title = [], t_Description = [], t_CallbackURL = ''http://cb'', t_Payload = [],
     t_Status = status, t_RetryCount = retries, t_MaxRetries = max_retries, t_ExecuteAt = 1, t_CreatedAt = 1\<rparr>"

definition demo_store :: "Task list \<Rightarrow> tstore" where
  "demo_store ts = \<lparr>base = \<lparr>tables = \<lparr>tasks = ts, dlq_tasks = []\<rparr>, faults = [], db_now = 0, row_locked = (\<lambda>_. False),
     ret_rank = (\<lambda>_. 0), stamp = id\<rparr>, cache = (\<lambda>_. None), redis_now = 0, redis_faults = []\<rparr>"

definition refused :: "gotime \<Rightarrow> work_env" where
  "refused now = \<lparr>we_now = now, we_dlq_now = now, we_big = 0, we_do = (\<lambda>_. Answered 401)\<rparr>"

lemma demo_store_facts:
  "all_up (demo_store ts)" "tview (demo_store ts) k = row_of t_ID k ts" "tdead (demo_store ts) = {}" "tstamp (demo_store ts) = id"
  "tables (base (demo_store ts)) = \<lparr>tasks = ts, dlq_tasks = []\<rparr>" "faults (base (demo_store ts)) = []"
  by (simp_all add: demo_store_def all_up_def no_faults_def tview_def tdead_def tstamp_def)

lemma demo_task_sel [simp]:
  "t_ID (demo_task i st r m) = i" "t_Status (demo_task i st r m) = st" "t_RetryCount (demo_task i st r m) = r"
  "t_MaxRetries (demo_task i st r m) = m" "t_CallbackURL (demo_task i st r m) = ''http://cb''" "t_ExecuteAt (demo_task i st r m) = 1"
  by (simp_all add: demo_task_def)

lemma refused_fails: "execution_fails k (refused now) s \<longleftrightarrow> (\<exists>t. tview s k = Some t \<and> t_CallbackURL t \<noteq> '''')"
  by (auto simp: execution_fails_def executeCallback_def refused_def split: option.splits)

theorem task_retry_life_witness:
  "task_status ''k'' (run_steps (execute False (\<lambda>_. []) ''k'') [refused 10, refused 20] (demo_store [demo_task ''k'' StatusPending 0 1]))
     = Some StatusFailed"
proof -
  let ?s = "demo_store [demo_task ''k'' StatusPending 0 1]" and ?x = "execute False (\<lambda>_. []) ''k''"
  have s: "all_up ?s" "tview ?s ''k'' = Some (demo_task ''k'' StatusPending 0 1)" "t_Status (demo_task ''k'' StatusPending 0 1) = StatusPending"
      "t_RetryCount (demo_task ''k'' StatusPending 0 1) = 0" "t_MaxRetries (demo_task ''k'' StatusPending 0 1) = int 1" "int 1 < max_int64"
    by (simp_all add: demo_store_facts row_of_def max_int64_def)
  have f1: "execution_fails ''k'' (refused 10) ?s" using s(2) by (simp add: refused_fails)
  have "\<not> executeCallback (we_do (refused 10)) (mark_queued (demo_task ''k'' StatusPending 0 1))"
    by (simp add: executeCallback_def refused_def)
  from pg_tasks.worker_failure [OF s(1) _ this, of "demo_task ''k'' StatusPending 0 1" False "\<lambda>_. []"] s
  obtain t' where "tview (?x (refused 10) ?s) ''k'' = Some t'" "t_CallbackURL t' = ''http://cb''"
    by (auto simp: execute_def)
  then have "fail_steps ?x (execution_fails ''k'') [refused 10, refused 20] ?s" using f1 by (simp add: refused_fails)
  then show ?thesis
    using task_retry_life [OF s refl, of False "\<lambda>_. []" "[refused 10, refused 20]"] by simp
qed

text \<open>
  C20. What one processing leaves, with the services up: COMPLETED with everything else kept; or PENDING
  with one retry more and due after the back-off; or, beyond the allowed retries, FAILED and archived
  with its retry count, unless an entry of the same task and second is there already. No other task
  changes.
\<close>

theorem worker_outcome:
  assumes "all_up s" and "tview s (t_ID t) = Some t0" and "0 \<le> t_RetryCount t0" and "t_RetryCount t0 < max_int64"
    and s': "s' = Worker_task (NewPostgresRepo rdb) (NewPostgresDLQRepository fmt) env t s"
  shows "\<exists>t'. tview s' = (tview s)(t_ID t \<mapsto> t') \<and> all_up s' \<and>
     (if executeCallback (we_do env) t
      then t_Status t' = StatusCompleted \<and> t_RetryCount t' = t_RetryCount t0 \<and> tdead s' = tdead s
      else t_RetryCount t' = t_RetryCount t0 + 1 \<and>
        (if t_RetryCount t0 \<ge> t_MaxRetries t0
         then t_Status t' = StatusFailed \<and> (dlq_id_free fmt s (we_dlq_now env) (t_ID t) \<longrightarrow> tdead s' = insert (t_ID t) (tdead s))
         else t_Status t' = StatusPending \<and> tdead s' = tdead s
           \<and> t_ExecuteAt t' = tstamp s (we_now env + backoff (we_big env) (t_RetryCount t0 + 1))))"
proof (cases "executeCallback (we_do env) t")
  case True
  from pg_tasks.worker_success [OF assms(1,2) True, of rdb fmt] show ?thesis unfolding s' using True by auto
next
  case False
  have id: "t_ID t0 = t_ID t" using tview_id [OF assms(2)] .
  obtain t' where t': "tview s' = (tview s)(t_ID t \<mapsto> t')" "t_RetryCount t' = t_RetryCount t0 + 1" "all_up s'"
    and cases: "if t_RetryCount t0 + 1 > t_MaxRetries t0
        then t_Status t' = StatusFailed \<and> (\<exists>s2. tview s2 = tview s' \<and> tdead s2 = tdead s \<and> dlq_id_free fmt s2 = dlq_id_free fmt s \<and>
             s' = snd (td_Save (NewPostgresDLQRepository fmt) (we_dlq_now env) t' s2) \<and> t_ID t' = t_ID t \<and> all_up s2)
        else t_Status t' = StatusPending \<and> tdead s' = tdead s
          \<and> t_ExecuteAt t' = tstamp s (we_now env + backoff (we_big env) (t_RetryCount t0 + 1))"
    using pg_tasks.worker_failure [OF assms(1,2) False assms(3,4) id, of rdb fmt] unfolding s'
    by blast
  show ?thesis
  proof (cases "t_RetryCount t0 + 1 > t_MaxRetries t0")
    case dead: True
    then obtain s2 where s2: "t_Status t' = StatusFailed" "tdead s2 = tdead s" "dlq_id_free fmt s2 = dlq_id_free fmt s"
        "s' = snd (DLQ_Save fmt (we_dlq_now env) t' s2)" "t_ID t' = t_ID t" "all_up s2"
      using cases by auto
    have "dlq_id_free fmt s (we_dlq_now env) (t_ID t) \<longrightarrow> tdead s' = insert (t_ID t) (tdead s)"
      using dlq_save_cases [OF prod.collapse [symmetric], of fmt "we_dlq_now env" t' s2] s2 by simp
    then show ?thesis using t' s2(1) dead False by (intro exI [of _ t']) auto
  next
    case retry: False
    then show ?thesis using t' cases False by (intro exI [of _ t']) auto
  qed
qed

theorem worker_outcome_witness:
  "task_status ''k'' (Worker_task (NewPostgresRepo False) (NewPostgresDLQRepository (\<lambda>_. [])) (refused 10)
     (demo_task ''k'' StatusQueued 0 3) (demo_store [demo_task ''k'' StatusQueued 0 3])) = Some StatusPending"
proof -
  let ?t = "demo_task ''k'' StatusQueued 0 3"
  have "all_up (demo_store [?t])" "tview (demo_store [?t]) (t_ID ?t) = Some ?t" "0 \<le> t_RetryCount ?t" "t_RetryCount ?t < max_int64"
      "\<not> executeCallback (we_do (refused 10)) ?t"
    by (simp_all add: demo_store_facts row_of_def max_int64_def executeCallback_def refused_def)
  from worker_outcome [OF this(1-4) refl, of False "\<lambda>_. []" "refused 10"] this(5) show ?thesis
    by (auto simp: task_status_def)
qed

text \<open>
  Whatever statements and Redis commands fail while a worker processes a task, no task appears or
  vanishes, every other task keeps its row, and no dead letter is removed.
\<close>

lemma worker_contained:
  assumes "s' = Worker_task (NewPostgresRepo rdb) (NewPostgresDLQRepository fmt) env t s"
  shows "dom (tview s') = dom (tview s) \<and> (\<forall>k. k \<noteq> t_ID t \<longrightarrow> tview s' k = tview s k) \<and> tdead s \<subseteq> tdead s'"
  using pg_tasks.Worker_task_frame [of t s rdb fmt env] unfolding assms pg_tasks.task_frame_def .

lemma worker_contained_witness:
  "tview (Worker_task (NewPostgresRepo True) (NewPostgresDLQRepository (\<lambda>_. [])) (refused 10) (demo_task ''k'' StatusQueued 0 3)
     ((demo_store [demo_task ''j'' StatusPending 0 3])\<lparr>redis_faults := [True]\<rparr>)) ''j'' = Some (demo_task ''j'' StatusPending 0 3)"
  using worker_contained [OF refl, of True "\<lambda>_. []" "refused 10" "demo_task ''k'' StatusQueued 0 3"
      "(demo_store [demo_task ''j'' StatusPending 0 3])\<lparr>redis_faults := [True]\<rparr>"]
  by (simp add: demo_store_def tview_def row_of_def)

text \<open>
  With Redis, a dead task can miss the archive: when the two invalidations of its cache entry fail,
  \<open>handleFailure\<close> reads the old copy back instead of the row it has just set to FAILED.
\<close>

lemma stale_cache_skips_archive:
  assumes "no_faults (base s)" and "redis_faults s = [True, True]" and "tview s (t_ID t) = Some t0"
    and "live_entry s (cacheKey (t_ID t)) = Some old" and "t_Status old \<noteq> StatusFailed"
    and "\<not> executeCallback (we_do env) t" and "0 \<le> t_RetryCount t0" and "t_RetryCount t0 < max_int64"
    and "t_RetryCount t0 \<ge> t_MaxRetries t0"
    and s': "s' = Worker_task (NewPostgresRepo True) (NewPostgresDLQRepository fmt) env t s"
  shows "task_status (t_ID t) s' = Some StatusFailed \<and> tdead s' = tdead s"
proof -
  let ?k = "t_ID t" and ?f = "failure_update (we_big env) (we_now env)"
  have id: "t_ID t0 = ?k" using tview_id [OF assms(3)] .
  obtain s1 where s1: "Repo_Update True ?k (set_status StatusProcessing) s = (Inr (set_status StatusProcessing t0), s1)"
      "tview s1 = (tview s)(?k \<mapsto> rewritten (tstamp s) (set_status StatusProcessing t0) t0)" "no_faults (base s1)"
      "redis_faults s1 = [True]" "cache s1 = cache s" "redis_now s1 = redis_now s" "tdead s1 = tdead s" "tstamp s1 = tstamp s"
    using Update_del_fails [OF assms(1) assms(2) assms(3), of "set_status StatusProcessing"] id by auto
  let ?t1 = "rewritten (tstamp s) (set_status StatusProcessing t0) t0"
  have v1: "tview s1 ?k = Some ?t1" using s1(2) by simp
  obtain s2 where s2: "Repo_Update True ?k ?f s1 = (Inr (?f ?t1), s2)"
      "tview s2 = (tview s1)(?k \<mapsto> rewritten (tstamp s1) (?f ?t1) ?t1)" "no_faults (base s2)"
      "redis_faults s2 = []" "cache s2 = cache s1" "redis_now s2 = redis_now s1" "tdead s2 = tdead s1" "tstamp s2 = tstamp s1"
    using Update_del_fails [OF s1(3,4) v1, of ?f] id by auto
  have "live_entry s2 (cacheKey ?k) = Some old" using assms(4) unfolding live_entry_def s2(5,6) s1(5,6) .
  then have g: "Repo_Get True ?k s2 = (Inr old, s2)"
    using s2(3,4) by (simp add: Repo_Get_def all_up_def)
  have "s' = s2" using s1(1) s2(1) g assms(5,6) by (simp add: s' Worker_task_def handleFailure_def)
  moreover have "t_Status (?f ?t1) = StatusFailed"
    using assms(7-9) wrap64_id [of "t_RetryCount t0 + 1"] by (simp add: failure_update_def min_int64_def)
  ultimately show ?thesis using s2(2,7) s1(7) by (simp add: task_status_def)
qed

lemma stale_cache_skips_archive_witness:
  "task_status ''k'' (Worker_task (NewPostgresRepo True) (NewPostgresDLQRepository (\<lambda>_. [])) (refused 10)
     (demo_task ''k'' StatusQueued 3 3)
     ((demo_store [demo_task ''k'' StatusQueued 3 3])\<lparr>redis_faults := [True, True],
        cache := [cacheKey ''k'' \<mapsto> (demo_task ''k'' StatusPending 3 3, 9)]\<rparr>)) = Some StatusFailed"
proof -
  let ?t = "demo_task ''k'' StatusQueued 3 3"
  let ?s = "(demo_store [?t])\<lparr>redis_faults := [True, True], cache := [cacheKey ''k'' \<mapsto> (demo_task ''k'' StatusPending 3 3, 9)]\<rparr>"
  have "no_faults (base ?s)" "redis_faults ?s = [True, True]" "tview ?s (t_ID ?t) = Some ?t"
      "live_entry ?s (cacheKey (t_ID ?t)) = Some (demo_task ''k'' StatusPending 3 3)"
      "\<not> executeCallback (we_do (refused 10)) ?t" "t_RetryCount ?t < max_int64"
    by (simp_all add: demo_store_def no_faults_def tview_def row_of_def live_entry_def executeCallback_def refused_def max_int64_def)
  from stale_cache_skips_archive [OF this(1-4) _ this(5) _ this(6) _ refl, of "\<lambda>_. []"] show ?thesis by simp
qed

end
