(* ===== verification/TaskScheduler.thy ===== *)
theory TaskScheduler
  imports TaskWorker
begin

text \<open>
  The scheduler of \<open>internal/scheduler/service/scheduler.go\<close>: the ticker loop that claims due tasks, the
  bounded channel, the worker pool and \<open>Stop\<close>, as a step relation over everything that can happen next.

  One step is one action of one goroutine: a tick's look at the room in the channel, the claim, one send, one
  receive by a worker, one of the worker's database calls (so that the calls of several workers and of the
  task API interleave), one repository call of the task API, the cancellation and the close of \<open>Stop\<close>, or
  a change of the store by the world outside the service, as far as the relation \<open>E\<close> allows it; a call of the
  repository is one step here, and \<open>TaskCache\<close> shows what its parts let others do in between. The
  fields \<open>h_claimed\<close> and \<open>h_taken\<close> are history: what was claimed and what workers received.
\<close>

section \<open>State\<close>

record 's TaskScheduler =
  ts_repo :: "'s TaskRepo"
  ts_dlqRepo :: "'s TaskDLQRepo"
  ts_workerCount :: int
  ts_queueCapacity :: int

definition NewTaskScheduler :: "'s TaskRepo \<Rightarrow> 's TaskDLQRepo \<Rightarrow> int \<Rightarrow> int \<Rightarrow> 's TaskScheduler" where
  "NewTaskScheduler repo dlqRepo workerCount queueCapacity =
     \<lparr>ts_repo = repo, ts_dlqRepo = dlqRepo,
      ts_workerCount = (if workerCount \<le> 0 then 5 else workerCount),
      ts_queueCapacity = (if queueCapacity \<le> 0 then 10 else queueCapacity)\<rparr>"

definition chan_cap :: "'s TaskScheduler \<Rightarrow> nat" where
  "chan_cap c = nat (ts_queueCapacity c)"

text \<open>The loop waits for a tick, is about to claim up to some number of tasks, has tasks left to send, or has returned.\<close>

datatype loop_state = LoopWaiting | LoopReady nat | LoopSending "Task list" | LoopGone

text \<open>
  A worker waits for a task, has received one, has marked it PROCESSING and is calling back, has recorded a
  failure and is about to inspect the row, or has returned.
\<close>

datatype worker_state = WorkerReady | WorkerBusy Task | WorkerCalling Task | WorkerFailing Task | WorkerGone

record 's sched =
  s_store :: 's
  s_channel :: "Task list"
  s_closed :: bool
  s_cancelled :: bool
  s_loop :: loop_state
  s_workers :: "worker_state list"
  s_crashed :: bool
  s_bypassed :: "Task list"
  h_claimed :: "Task list"
  h_taken :: "Task list"

text \<open>\<open>Start\<close>: recovery, then the workers, then the loop.\<close>

definition Start :: "'s TaskScheduler \<Rightarrow> 's \<Rightarrow> 's sched" where
  "Start c s =
     \<lparr>s_store = snd (tk_RecoverTasks (ts_repo c) s), s_channel = [], s_closed = False, s_cancelled = False,
      s_loop = LoopWaiting, s_workers = replicate (nat (ts_workerCount c)) WorkerReady, s_crashed = False,
      s_bypassed = [], h_claimed = [], h_taken = []\<rparr>"

section \<open>Steps\<close>

text \<open>One iteration of the ticker loop up to the claim, and the claim; workers may receive in between.\<close>

definition tick :: "'s TaskScheduler \<Rightarrow> 's sched \<Rightarrow> 's sched" where
  "tick c S =
     (let remainingCap = int (chan_cap c) - int (length (s_channel S))
      in if remainingCap \<le> 0 then S else S\<lparr>s_loop := LoopReady (nat remainingCap)\<rparr>)"

definition claim_ready :: "'s TaskScheduler \<Rightarrow> gotime \<Rightarrow> nat \<Rightarrow> 's sched \<Rightarrow> 's sched" where
  "claim_ready c now limit S =
     (case tk_ClaimReadyTasks (ts_repo c) now limit (s_store S) of
        (Inl _, s) \<Rightarrow> S\<lparr>s_store := s, s_loop := LoopWaiting\<rparr>
      | (Inr ts, s) \<Rightarrow> S\<lparr>s_store := s, s_loop := LoopSending ts, h_claimed := h_claimed S @ ts\<rparr>)"

text \<open>One turn of \<open>for _, t := range tasks\<close>: a \<open>select\<close> with a \<open>default\<close>, on a channel that may be closed.\<close>

definition send :: "'s TaskScheduler \<Rightarrow> Task \<Rightarrow> Task list \<Rightarrow> 's sched \<Rightarrow> 's sched" where
  "send c t ts S =
     (if s_closed S then S\<lparr>s_crashed := True\<rparr>
      else if length (s_channel S) < chan_cap c
      then S\<lparr>s_channel := s_channel S @ [t], s_loop := LoopSending ts\<rparr>
      else S\<lparr>s_bypassed := s_bypassed S @ [t], s_loop := LoopSending ts\<rparr>)"

definition set_worker :: "nat \<Rightarrow> worker_state \<Rightarrow> 's sched \<Rightarrow> 's sched" where
  "set_worker i w S = S\<lparr>s_workers := (s_workers S)[i := w]\<rparr>"

text \<open>The three parts of \<open>Worker\<close>'s loop body, split where another goroutine may act in between.\<close>

definition begin_work :: "'s TaskScheduler \<Rightarrow> nat \<Rightarrow> Task \<Rightarrow> 's sched \<Rightarrow> 's sched" where
  "begin_work c i t S =
     (case tk_Update (ts_repo c) (t_ID t) (set_status StatusProcessing) (s_store S) of
        (Inl _, s) \<Rightarrow> set_worker i WorkerReady (S\<lparr>s_store := s\<rparr>)
      | (Inr _, s) \<Rightarrow> set_worker i (WorkerCalling t) (S\<lparr>s_store := s\<rparr>))"

definition finish_call :: "'s TaskScheduler \<Rightarrow> work_env \<Rightarrow> nat \<Rightarrow> Task \<Rightarrow> 's sched \<Rightarrow> 's sched" where
  "finish_call c env i t S =
     (if executeCallback (we_do env) t
      then set_worker i WorkerReady (S\<lparr>s_store := snd (tk_Update (ts_repo c) (t_ID t) (set_status StatusCompleted) (s_store S))\<rparr>)
      else case tk_Update (ts_repo c) (t_ID t) (failure_update (we_big env) (we_now env)) (s_store S) of
             (Inl _, s) \<Rightarrow> set_worker i WorkerReady (S\<lparr>s_store := s\<rparr>)
           | (Inr _, s) \<Rightarrow> set_worker i (WorkerFailing t) (S\<lparr>s_store := s\<rparr>))"

definition inspect_failure :: "'s TaskScheduler \<Rightarrow> work_env \<Rightarrow> nat \<Rightarrow> Task \<Rightarrow> 's sched \<Rightarrow> 's sched" where
  "inspect_failure c env i t S =
     set_worker i WorkerReady
       (S\<lparr>s_store := (case tk_Get (ts_repo c) (t_ID t) (s_store S) of
          (Inl _, s) \<Rightarrow> s
        | (Inr updatedTask, s) \<Rightarrow>
            (if t_Status updatedTask = StatusFailed then snd (td_Save (ts_dlqRepo c) (we_dlq_now env) updatedTask s) else s))\<rparr>)"

inductive sched_step :: "('s \<Rightarrow> 's \<Rightarrow> bool) \<Rightarrow> 's TaskScheduler \<Rightarrow> 's sched \<Rightarrow> 's sched \<Rightarrow> bool" for E c where
  tick: "s_loop S = LoopWaiting \<Longrightarrow> sched_step E c S (tick c S)"
| claim_ready: "s_loop S = LoopReady limit \<Longrightarrow> sched_step E c S (claim_ready c now limit S)"
| send: "s_loop S = LoopSending (t # ts) \<Longrightarrow> sched_step E c S (send c t ts S)"
| sent: "s_loop S = LoopSending [] \<Longrightarrow> sched_step E c S (S\<lparr>s_loop := LoopWaiting\<rparr>)"
| loop_exit: "s_loop S = LoopWaiting \<Longrightarrow> s_cancelled S \<Longrightarrow> sched_step E c S (S\<lparr>s_loop := LoopGone\<rparr>)"
| take: "i < length (s_workers S) \<Longrightarrow> s_workers S ! i = WorkerReady \<Longrightarrow> s_channel S = t # ts \<Longrightarrow>
    sched_step E c S (set_worker i (WorkerBusy t) (S\<lparr>s_channel := ts, h_taken := h_taken S @ [t]\<rparr>))"
| begin_work: "i < length (s_workers S) \<Longrightarrow> s_workers S ! i = WorkerBusy t \<Longrightarrow> sched_step E c S (begin_work c i t S)"
| finish_call: "i < length (s_workers S) \<Longrightarrow> s_workers S ! i = WorkerCalling t \<Longrightarrow> sched_step E c S (finish_call c env i t S)"
| inspect_failure: "i < length (s_workers S) \<Longrightarrow> s_workers S ! i = WorkerFailing t \<Longrightarrow>
    sched_step E c S (inspect_failure c env i t S)"
| leave: "i < length (s_workers S) \<Longrightarrow> s_workers S ! i = WorkerReady \<Longrightarrow> s_channel S = [] \<Longrightarrow> s_closed S \<Longrightarrow>
    sched_step E c S (set_worker i WorkerGone S)"
| cancel: "sched_step E c S (S\<lparr>s_cancelled := True\<rparr>)"
| close_channel: "s_cancelled S \<Longrightarrow> \<not> s_closed S \<Longrightarrow> sched_step E c S (S\<lparr>s_closed := True\<rparr>)"
| http_create: "sched_step E c S (S\<lparr>s_store := snd (tk_Create (ts_repo c) t (s_store S))\<rparr>)"
| http_get: "sched_step E c S (S\<lparr>s_store := snd (tk_Get (ts_repo c) k (s_store S))\<rparr>)"
| http_update: "(\<And>t. t_ID (f t) = t_ID t) \<Longrightarrow> sched_step E c S (S\<lparr>s_store := snd (tk_Update (ts_repo c) k f (s_store S))\<rparr>)"
| world: "E (s_store S) s \<Longrightarrow> sched_step E c S (S\<lparr>s_store := s\<rparr>)"

text \<open>A crashed process takes no further step.\<close>

inductive reachable :: "('s \<Rightarrow> 's \<Rightarrow> bool) \<Rightarrow> 's TaskScheduler \<Rightarrow> 's \<Rightarrow> 's sched \<Rightarrow> bool" for E c s0 where
  start: "reachable E c s0 (Start c s0)"
| step: "reachable E c s0 S \<Longrightarrow> \<not> s_crashed S \<Longrightarrow> sched_step E c S S' \<Longrightarrow> reachable E c s0 S'"

inductive_cases sched_stepE: "sched_step E c S S'"

text \<open>Undisturbed, the parts of the loop body are the worker's processing of a task.\<close>

definition undisturbed :: "'s TaskScheduler \<Rightarrow> work_env \<Rightarrow> nat \<Rightarrow> Task \<Rightarrow> 's sched \<Rightarrow> 's sched" where
  "undisturbed c env i t S =
     (let S = begin_work c i t S;
          S = (if s_workers S ! i = WorkerCalling t then finish_call c env i t S else S)
      in if s_workers S ! i = WorkerFailing t then inspect_failure c env i t S else S)"

lemma undisturbed_work:
  assumes "i < length (s_workers S)"
  shows "undisturbed c env i t S =
    set_worker i WorkerReady (S\<lparr>s_store := Worker_task (ts_repo c) (ts_dlqRepo c) env t (s_store S)\<rparr>)"
proof -
  obtain r s1 where b: "tk_Update (ts_repo c) (t_ID t) (set_status StatusProcessing) (s_store S) = (r, s1)" by fastforce
  obtain q s2 where f: "tk_Update (ts_repo c) (t_ID t) (failure_update (we_big env) (we_now env)) s1 = (q, s2)" by fastforce
  obtain g s3 where g: "tk_Get (ts_repo c) (t_ID t) s2 = (g, s3)" by fastforce
  show ?thesis
    using assms b f g
    by (cases r; cases q; cases g)
       (simp_all add: undisturbed_def begin_work_def finish_call_def inspect_failure_def Worker_task_def handleFailure_def
         set_worker_def Let_def)
qed

fun sending :: "loop_state \<Rightarrow> Task list" where
  "sending (LoopSending ts) = ts"
| "sending (LoopReady limit) = []"
| "sending LoopWaiting = []"
| "sending LoopGone = []"

text \<open>The room in the channel that the loop counts on.\<close>

fun reserved :: "loop_state \<Rightarrow> nat" where
  "reserved (LoopSending ts) = length ts"
| "reserved (LoopReady limit) = limit"
| "reserved LoopWaiting = 0"
| "reserved LoopGone = 0"

text \<open>A tick and its claim, undisturbed.\<close>

lemma tick_claims:
  assumes "reachable E c s0 S" and "\<not> s_crashed S" and "s_loop S = LoopWaiting" and "length (s_channel S) < chan_cap c"
    and "tk_ClaimReadyTasks (ts_repo c) now (chan_cap c - length (s_channel S)) (s_store S) = (Inr ts, s)"
  shows "reachable E c s0 (S\<lparr>s_store := s, s_loop := LoopSending ts, h_claimed := h_claimed S @ ts\<rparr>)"
proof -
  let ?S = "S\<lparr>s_loop := LoopReady (chan_cap c - length (s_channel S))\<rparr>"
  have "tick c S = ?S" using assms(4) by (simp add: tick_def Let_def nat_minus_as_int)
  then have "reachable E c s0 ?S" using reachable.step [OF assms(1,2) sched_step.tick [OF assms(3)]] by simp
  from reachable.step [OF this _ sched_step.claim_ready, of _ now] show ?thesis using assms(2,5) by (simp add: claim_ready_def)
qed

section \<open>The contract of the source of tasks\<close>

text \<open>A claim returns no more than it is asked for, in every state that satisfies \<open>ok\<close>, which all operations keep.\<close>

locale claim_source =
  fixes R :: "'s TaskRepo"
    and D :: "'s TaskDLQRepo"
    and E :: "'s \<Rightarrow> 's \<Rightarrow> bool"
    and ok :: "'s \<Rightarrow> bool"
  assumes claim_length: "ok s \<Longrightarrow> tk_ClaimReadyTasks R now n s = (Inr ts, s') \<Longrightarrow> length ts \<le> n"
    and claim_ok: "ok s \<Longrightarrow> ok (snd (tk_ClaimReadyTasks R now n s))"
    and create_ok: "ok s \<Longrightarrow> ok (snd (tk_Create R t s))"
    and get_ok: "ok s \<Longrightarrow> ok (snd (tk_Get R k s))"
    and update_ok: "ok s \<Longrightarrow> (\<And>t. t_ID (f t) = t_ID t) \<Longrightarrow> ok (snd (tk_Update R k f s))"
    and recover_ok: "ok s \<Longrightarrow> ok (snd (tk_RecoverTasks R s))"
    and world_ok: "ok s \<Longrightarrow> E s s' \<Longrightarrow> ok s'"
    and save_ok: "ok s \<Longrightarrow> ok (snd (td_Save D now t s))"
begin

lemma updated_ok: "ok s \<Longrightarrow> tk_Update R k f s = (r, s') \<Longrightarrow> (\<And>t. t_ID (f t) = t_ID t) \<Longrightarrow> ok s'"
  using update_ok [of s f k] by simp

lemma inspected_ok: "ok s \<Longrightarrow> tk_Get R k s = (r, s') \<Longrightarrow> ok s' \<and> ok (snd (td_Save D now t s'))"
  using get_ok [of s k] save_ok [of s' now t] by simp

definition sched_inv :: "'s TaskScheduler \<Rightarrow> 's sched \<Rightarrow> bool" where
  "sched_inv c S \<longleftrightarrow> ok (s_store S)
     \<and> length (s_channel S) + reserved (s_loop S) \<le> chan_cap c
     \<and> s_bypassed S = []
     \<and> h_claimed S = h_taken S @ s_channel S @ sending (s_loop S)
     \<and> (s_closed S \<longrightarrow> s_cancelled S) \<and> (s_crashed S \<longrightarrow> s_closed S)"

lemma start_inv: "ts_repo c = R \<Longrightarrow> ok s0 \<Longrightarrow> sched_inv c (Start c s0)"
  by (simp add: sched_inv_def Start_def recover_ok)

lemma claim_inv:
  assumes "ts_repo c = R" and "sched_inv c S" and "s_loop S = LoopReady limit"
  shows "sched_inv c (claim_ready c now limit S)"
proof -
  obtain r s where r: "tk_ClaimReadyTasks R now limit (s_store S) = (r, s)" by fastforce
  have "ok s" using claim_ok [of "s_store S" now limit] r assms(2) by (simp add: sched_inv_def)
  moreover have "r = Inr ts \<Longrightarrow> length ts \<le> limit" for ts
    using claim_length [of "s_store S"] r assms(2) by (auto simp: sched_inv_def)
  ultimately show ?thesis
    using r assms by (cases r) (auto simp: claim_ready_def sched_inv_def)
qed

lemma step_inv:
  assumes "ts_repo c = R" and "ts_dlqRepo c = D" and "sched_inv c S" and "sched_step E c S S'"
  shows "sched_inv c S'"
  using assms(4)
proof (cases rule: sched_step.cases)
  case tick
  then show ?thesis using assms(3) by (auto simp: tick_def Let_def sched_inv_def)
next
  case (claim_ready limit now)
  then show ?thesis using claim_inv assms by simp
next
  case (begin_work i t)
  then show ?thesis using assms(1-3) updated_ok [of "s_store S" "t_ID t" "set_status StatusProcessing"]
    by (auto simp: begin_work_def sched_inv_def set_worker_def split: prod.split sum.split)
next
  case (finish_call i t env)
  then show ?thesis using assms(1-3) updated_ok [of "s_store S" "t_ID t" "failure_update (we_big env) (we_now env)"]
      update_ok [of "s_store S" "set_status StatusCompleted" "t_ID t"]
    by (auto simp: finish_call_def sched_inv_def set_worker_def split: prod.split sum.split)
next
  case (inspect_failure i t env)
  then show ?thesis using assms(1-3) inspected_ok [of "s_store S" "t_ID t"]
    by (auto simp: inspect_failure_def sched_inv_def set_worker_def split: prod.split sum.split)
next
  case (http_create t)
  then show ?thesis using assms(1-3) create_ok by (simp add: sched_inv_def)
next
  case (http_get k)
  then show ?thesis using assms(1-3) get_ok by (simp add: sched_inv_def)
next
  case (http_update f k)
  then show ?thesis using assms(1-3) update_ok [of "s_store S" f k] by (simp add: sched_inv_def)
next
  case (world s)
  then show ?thesis using assms(3) world_ok [of "s_store S" s] by (simp add: sched_inv_def)
qed (use assms(3) in \<open>auto simp: sched_inv_def send_def set_worker_def\<close>)

lemma reachable_inv:
  "reachable E c s0 S \<Longrightarrow> ts_repo c = R \<Longrightarrow> ts_dlqRepo c = D \<Longrightarrow> ok s0 \<Longrightarrow> sched_inv c S"
  by (induction rule: reachable.induct) (auto intro: start_inv step_inv)

end

section \<open>The PostgreSQL repository as a source of tasks\<close>

text \<open>
  What happens to the store beside the service's own calls: clocks advance, other clients take and release
  row locks, faults come and go, Redis loses entries. The rows are the service's own (one instance of it).
\<close>

definition world :: "tstore \<Rightarrow> tstore \<Rightarrow> bool" where
  "world s s' \<longleftrightarrow> tables (base s') = tables (base s) \<and> stamp (base s') = stamp (base s)
     \<and> (\<forall>k. cache s' k = cache s k \<or> cache s' k = None)"

definition tasks_keyed :: "tstore \<Rightarrow> bool" where
  "tasks_keyed s \<longleftrightarrow> keyed t_ID (tasks (tables (base s)))"

lemma rows_err_tables: "rows_err d = (r, d') \<Longrightarrow> tables d' = tables d"
  unfolding rows_err_def by (rule view_of_read)

lemma Claim_cases:
  assumes "Repo_ClaimReadyTasks now n s = (r, s')"
  shows "(tables (base s') = tables (base s) \<and> (\<exists>e. r = Inl e)
     \<or> tables (base s') = (tables (base s))\<lparr>tasks := snd (claim_tasks (base s) now n (tasks (tables (base s))))\<rparr>)
     \<and> (\<forall>ts. r = Inr ts \<longrightarrow> ts = fst (claim_tasks (base s) now n (tasks (tables (base s)))) \<and>
          tables (base s') = (tables (base s))\<lparr>tasks := snd (claim_tasks (base s) now n (tasks (tables (base s))))\<rparr>)
     \<and> cache s' = cache s \<and> redis_now s' = redis_now s \<and> redis_faults s' = redis_faults s"
proof -
  let ?stmt = "\<lambda>T. (let (rows, rest) = claim_tasks (base s) now n (tasks T) in (Inr rows, T\<lparr>tasks := rest\<rparr>))"
  obtain q s1 where q: "on_base ?stmt s = (q, s1)" by fastforce
  note t = on_base_tables [OF q] on_base_rest [OF q]
  show ?thesis
  proof (cases q)
    case (Inl e)
    then show ?thesis using assms q t by (auto simp: Repo_ClaimReadyTasks_def split: prod.splits)
  next
    case (Inr rows)
    obtain e d where e: "rows_err (base s1) = (e, d)" by fastforce
    show ?thesis using assms q t Inr e rows_err_tables [OF e] on_base_ok [OF q [unfolded Inr]]
      by (cases e) (auto simp: Repo_ClaimReadyTasks_def split: prod.splits)
  qed
qed

lemma keyed_claim: "keyed t_ID t \<Longrightarrow> keyed t_ID (snd (claim_tasks d now n t))"
  unfolding claim_tasks_def by (rule task_queue.claim_keyed)

interpretation pg_source: claim_source "NewPostgresRepo rdb" "NewPostgresDLQRepository fmt" world tasks_keyed for rdb fmt
proof (unfold_locales, goal_cases)
  case (1 s now n ts s')
  then show ?case using Claim_cases [of now n s "Inr ts" s'] task_queue.claim_result_length
    by (simp add: tasks_keyed_def claim_tasks_def)
next
  case (2 s now n)
  then show ?case using Claim_cases [OF prod.collapse [symmetric], of now n s] keyed_claim
    by (auto simp: tasks_keyed_def)
next
  case (3 s t)
  let ?stmt = "\<lambda>T. (let (r, rows) = insert_row t_ID (stored (stamp (base s)) t) (tasks T) in (r, T\<lparr>tasks := rows\<rparr>))"
  obtain q s1 where q: "on_base ?stmt s = (q, s1)" by fastforce
  have "snd (Repo_Create t s) = s1" using q by (auto simp: Repo_Create_def split: sum.splits db_error.splits)
  moreover have "keyed t_ID (tasks (tables (base s1)))"
    using on_base_tables [OF q] 3 keyed_insert_row [of t_ID "tasks (tables (base s))" "stored (stamp (base s)) t"]
    by (auto simp: tasks_keyed_def split: prod.splits)
  ultimately show ?case by (simp add: tasks_keyed_def)
next
  case (4 s k)
  then show ?case using Get_frame [OF prod.collapse [symmetric], of rdb k s] by (simp add: tasks_keyed_def)
next
  case (5 s f k)
  have "Repo_Update rdb k f s = (fst (Repo_Update rdb k f s), snd (Repo_Update rdb k f s))" by simp
  then show ?case
    by (cases rule: Update_split) (use 5 in \<open>auto simp: tasks_keyed_def keyed_update_key\<close>)
next
  case (6 s)
  let ?stmt = "\<lambda>T. (Inr (), T\<lparr>tasks := update_where stuck (\<lambda>t. t\<lparr>t_Status := StatusPending\<rparr>) (tasks T)\<rparr>)"
  obtain q s1 where q: "on_base ?stmt s = (q, s1)" by fastforce
  have "snd (Repo_RecoverTasks s) = s1" using q by (auto simp: Repo_RecoverTasks_def split: sum.splits)
  then show ?case using on_base_tables [OF q] 6 by (auto simp: tasks_keyed_def keyed_update_where)
next
  case (7 s s')
  then show ?case by (simp add: tasks_keyed_def world_def)
next
  case (8 s now t)
  then show ?case using dlq_save_cases [OF prod.collapse [symmetric], of fmt now t s] by (simp add: tasks_keyed_def)
qed

section \<open>Properties\<close>

text \<open>
  C10. In every reachable state the channel is within its capacity, no claimed task is ever bypassed (the
  \<open>default\<close> branch of the send is dead code, since only the free room is claimed), and nothing is lost,
  duplicated or reordered on the way: what was claimed is what the workers received, then the channel,
  then what the loop is still sending. The process crashes only after \<open>Stop\<close> has closed the channel.
\<close>

theorem scheduler_channel_invariant:
  assumes "reachable world (NewTaskScheduler (NewPostgresRepo rdb) (NewPostgresDLQRepository fmt) wc qc) s0 S"
    and "tasks_keyed s0"
  shows "length (s_channel S) \<le> nat (if qc \<le> 0 then 10 else qc) \<and> s_bypassed S = []
     \<and> h_claimed S = h_taken S @ s_channel S @ sending (s_loop S) \<and> (s_crashed S \<longrightarrow> s_closed S)"
proof -
  let ?c = "NewTaskScheduler (NewPostgresRepo rdb) (NewPostgresDLQRepository fmt) wc qc"
  have "ts_repo ?c = NewPostgresRepo rdb" "ts_dlqRepo ?c = NewPostgresDLQRepository fmt"
    and "chan_cap ?c = nat (if qc \<le> 0 then 10 else qc)" by (simp_all add: NewTaskScheduler_def chan_cap_def)
  with pg_source.reachable_inv [OF assms(1) this(1,2) assms(2)] show ?thesis by (simp add: pg_source.sched_inv_def)
qed

definition demo_scheduler :: "tstore TaskScheduler" where
  "demo_scheduler = NewTaskScheduler (NewPostgresRepo False) (NewPostgresDLQRepository (\<lambda>_. [])) 1 0"

definition due_store :: tstore where
  "due_store = demo_store [demo_task ''k'' StatusPending 0 3]"

lemma due_start: "s_store (Start demo_scheduler due_store) = due_store"
  by (simp add: Start_def demo_scheduler_def NewTaskScheduler_def Repo_RecoverTasks_def due_store_def demo_store_def
      on_base_def exec_sql_no_faults update_where_def stuck_def)

lemma due_claim:
  "tk_ClaimReadyTasks (ts_repo demo_scheduler) 5 10 due_store =
     (Inr [demo_task ''k'' StatusQueued 0 3], demo_store [demo_task ''k'' StatusQueued 0 3])"
  by (simp add: demo_scheduler_def NewTaskScheduler_def Repo_ClaimReadyTasks_def due_store_def demo_store_def on_base_def
      exec_sql_no_faults claim_tasks_def claim_rows_def claim_keys_def task_ready_def update_where_def mark_queued_def
      rows_err_def demo_task_def Let_def)

theorem scheduler_channel_invariant_witness:
  "\<exists>S. reachable world demo_scheduler due_store S \<and> h_claimed S = [demo_task ''k'' StatusQueued 0 3] \<and> s_bypassed S = []"
proof -
  let ?I = "Start demo_scheduler due_store" and ?t = "demo_task ''k'' StatusQueued 0 3"
  let ?S = "?I\<lparr>s_store := demo_store [?t], s_loop := LoopSending [?t], h_claimed := h_claimed ?I @ [?t]\<rparr>"
  have I: "\<not> s_crashed ?I" "s_loop ?I = LoopWaiting" "s_channel ?I = []" "h_claimed ?I = []" by (simp_all add: Start_def)
  have "chan_cap demo_scheduler = 10" by (simp add: demo_scheduler_def NewTaskScheduler_def chan_cap_def)
  with I have r: "reachable world demo_scheduler due_store ?S"
    by (intro tick_claims [OF reachable.start, where now = 5]) (simp_all add: due_start due_claim)
  have "h_claimed ?S = [?t]" using I by simp
  moreover have k: "tasks_keyed due_store" by (simp add: tasks_keyed_def due_store_def demo_store_facts keyed_def)
  moreover have "s_bypassed ?S = []"
    using scheduler_channel_invariant [where S = ?S, OF _ k, of False "\<lambda>_. []" 1 0] r by (simp only: demo_scheduler_def)
  ultimately show ?thesis using r by (intro exI [of _ ?S] conjI)
qed

text \<open>
  C30. \<open>Stop\<close> does not wait for the ticker loop: from any start in which a task is due, the loop can have
  claimed it when the channel is closed, and then its send panics. The process is down and the task is
  left QUEUED in the database, in no channel and with no worker.
\<close>

theorem stop_panics:
  assumes c: "c = NewTaskScheduler (NewPostgresRepo rdb) (NewPostgresDLQRepository fmt) wc qc" and "tasks_keyed s0"
    and claim: "tk_ClaimReadyTasks (ts_repo c) now (chan_cap c) (s_store (Start c s0)) = (Inr (t # ts), s1)"
  shows "\<exists>S. reachable world c s0 S \<and> s_crashed S \<and> task_status (t_ID t) (s_store S) = Some StatusQueued
     \<and> s_channel S = [] \<and> h_taken S = []"
proof -
  let ?S0 = "Start c s0"
  have S0: "s_loop ?S0 = LoopWaiting" "\<not> s_crashed ?S0" "s_channel ?S0 = []" "h_taken ?S0 = []" by (simp_all add: Start_def)
  have cap: "chan_cap c > 0" by (simp add: c chan_cap_def NewTaskScheduler_def)
  let ?S1 = "?S0\<lparr>s_store := s1, s_loop := LoopSending (t # ts), h_claimed := h_claimed ?S0 @ t # ts\<rparr>"
  have r1: "reachable world c s0 ?S1"
    using tick_claims [OF reachable.start S0(2,1), of now "t # ts" s1] claim cap S0(3) by simp
  have S1f: "\<not> s_crashed ?S1" "\<not> s_closed ?S1" "s_loop ?S1 = LoopSending (t # ts)" "s_store ?S1 = s1"
      "s_channel ?S1 = []" "h_taken ?S1 = []"
    by (simp_all add: S0) (simp add: Start_def)
  let ?S2 = "?S1\<lparr>s_cancelled := True\<rparr>" and ?S3 = "?S1\<lparr>s_cancelled := True, s_closed := True\<rparr>"
  have r2: "reachable world c s0 ?S2"
    by (rule reachable.step [OF r1 S1f(1) sched_step.cancel])
  have r3: "reachable world c s0 ?S3"
    using reachable.step [OF r2 _ sched_step.close_channel [of ?S2 world c]] S1f(1,2) by simp
  have l3: "s_loop ?S3 = LoopSending (t # ts)" using S1f(3) by simp
  have r4: "reachable world c s0 (send c t ts ?S3)"
    by (rule reachable.step [OF r3 _ sched_step.send [OF l3]]) (simp add: S0)
  have claim': "Repo_ClaimReadyTasks now (chan_cap c) (s_store ?S0) = (Inr (t # ts), s1)"
    using claim by (simp add: c NewTaskScheduler_def)
  have k0: "tasks_keyed (s_store ?S0)"
    using pg_source.recover_ok [OF assms(2), of rdb] by (simp add: Start_def c NewTaskScheduler_def)
  note cl = Claim_cases [OF claim']
  let ?rows = "tasks (tables (base (s_store ?S0)))"
  have front: "t # ts = fst (claim_tasks (base (s_store ?S0)) now (chan_cap c) ?rows)" using cl by simp
  have "t \<in> set (fst (claim_tasks (base (s_store ?S0)) now (chan_cap c) ?rows))"
    by (simp only: front [symmetric] list.set_intros)
  moreover have stored: "tables (base s1) = (tables (base (s_store ?S0)))\<lparr>tasks := snd (claim_tasks (base (s_store ?S0)) now (chan_cap c) ?rows)\<rparr>"
    using cl by simp
  ultimately obtain r where r: "r \<in> set ?rows" "t = mark_queued r" "t_ID r \<in> set (claim_keys t_ID (task_ready now) t_ExecuteAt (row_locked (base (s_store ?S0))) (chan_cap c) ?rows)"
    using task_queue.claimed_iff k0 by (auto simp: claim_tasks_def tasks_keyed_def)
  have "row_of t_ID (t_ID r) ?rows = Some r" using k0 r(1) by (simp add: tasks_keyed_def row_of_keyed)
  then have "tview s1 (t_ID t) = Some (mark_queued r)"
    using stored r(2,3) by (simp add: tview_def claim_tasks_def task_queue.claim_row_of)
  then have "task_status (t_ID t) s1 = Some StatusQueued" by (simp add: task_status_def mark_queued_def)
  with r4 show ?thesis using S1f(4-6) by (intro exI [of _ "send c t ts ?S3"]) (simp add: send_def)
qed

theorem stop_panics_witness: "\<exists>S. reachable world demo_scheduler due_store S \<and> s_crashed S"
proof -
  have "tasks_keyed due_store" by (simp add: tasks_keyed_def due_store_def demo_store_facts keyed_def)
  moreover have "chan_cap demo_scheduler = 10" by (simp add: demo_scheduler_def NewTaskScheduler_def chan_cap_def)
  ultimately show ?thesis
    using stop_panics [OF demo_scheduler_def, of due_store 5 "demo_task ''k'' StatusQueued 0 3" "[]"] due_claim due_start by auto
qed

fun worker_work :: "worker_state \<Rightarrow> nat" where
  "worker_work WorkerReady = 1"
| "worker_work (WorkerBusy t) = 4"
| "worker_work (WorkerCalling t) = 3"
| "worker_work (WorkerFailing t) = 2"
| "worker_work WorkerGone = 0"

definition drain_work :: "'s sched \<Rightarrow> nat" where
  "drain_work S = 4 * length (s_channel S) + sum_list (map worker_work (s_workers S))"

inductive worker_step :: "('s \<Rightarrow> 's \<Rightarrow> bool) \<Rightarrow> 's TaskScheduler \<Rightarrow> 's sched \<Rightarrow> 's sched \<Rightarrow> bool" for E c where
  "sched_step E c S S' \<Longrightarrow> s_workers S' \<noteq> s_workers S \<Longrightarrow> worker_step E c S S'"

lemma sum_list_update_less:
  assumes "i < length ws" and "worker_work w + n < worker_work (ws ! i) + m"
  shows "sum_list (map worker_work (ws[i := w])) + n < sum_list (map worker_work ws) + m"
  using assms
proof (induction ws arbitrary: i)
  case Nil
  then show ?case by simp
next
  case (Cons x ws)
  then show ?case by (cases i) fastforce+
qed

lemma set_worker_sel [simp]:
  "s_channel (set_worker i w S) = s_channel S" "s_closed (set_worker i w S) = s_closed S" "s_loop (set_worker i w S) = s_loop S"
  "s_workers (set_worker i w S) = (s_workers S)[i := w]"
  by (simp_all add: set_worker_def)

lemma begin_work_moves:
  obtains w where "w \<in> {WorkerReady, WorkerCalling t}" and "s_workers (begin_work c i t S) = (s_workers S)[i := w]"
    and "s_channel (begin_work c i t S) = s_channel S" "s_closed (begin_work c i t S) = s_closed S"
    and "s_loop (begin_work c i t S) = s_loop S"
proof -
  obtain r s where "tk_Update (ts_repo c) (t_ID t) (set_status StatusProcessing) (s_store S) = (r, s)" by fastforce
  then show thesis
    by (intro that [of "case r of Inl _ \<Rightarrow> WorkerReady | Inr _ \<Rightarrow> WorkerCalling t"]) (simp_all add: begin_work_def split: sum.split)
qed

lemma finish_call_moves:
  obtains w where "w \<in> {WorkerReady, WorkerFailing t}" and "s_workers (finish_call c env i t S) = (s_workers S)[i := w]"
    and "s_channel (finish_call c env i t S) = s_channel S" "s_closed (finish_call c env i t S) = s_closed S"
    and "s_loop (finish_call c env i t S) = s_loop S"
proof -
  obtain r s where "tk_Update (ts_repo c) (t_ID t) (failure_update (we_big env) (we_now env)) (s_store S) = (r, s)" by fastforce
  then show thesis
    by (intro that [of "if executeCallback (we_do env) t then WorkerReady else case r of Inl _ \<Rightarrow> WorkerReady | Inr _ \<Rightarrow> WorkerFailing t"])
       (simp_all add: finish_call_def split: sum.split)
qed

lemma worker_moves:
  assumes "sched_step E c S S'" and "s_workers S' \<noteq> s_workers S"
  obtains i w where "i < length (s_workers S)" and "s_workers S' = (s_workers S)[i := w]"
    and "s_channel S' = s_channel S \<and> worker_work w < worker_work (s_workers S ! i)
         \<or> length (s_channel S) = Suc (length (s_channel S')) \<and> worker_work w < worker_work (s_workers S ! i) + 4"
    and "s_closed S' = s_closed S" and "s_loop S' = s_loop S"
  using assms(1)
proof (cases rule: sched_step.cases)
  case (begin_work i t)
  obtain w where "w \<in> {WorkerReady, WorkerCalling t}" "s_workers (begin_work c i t S) = (s_workers S)[i := w]"
    "s_channel (begin_work c i t S) = s_channel S" "s_closed (begin_work c i t S) = s_closed S"
    "s_loop (begin_work c i t S) = s_loop S" by (rule begin_work_moves)
  then show thesis using begin_work by (intro that [of i w]) auto
next
  case (finish_call i t env)
  obtain w where "w \<in> {WorkerReady, WorkerFailing t}" "s_workers (finish_call c env i t S) = (s_workers S)[i := w]"
    "s_channel (finish_call c env i t S) = s_channel S" "s_closed (finish_call c env i t S) = s_closed S"
    "s_loop (finish_call c env i t S) = s_loop S" by (rule finish_call_moves)
  then show thesis using finish_call by (intro that [of i w]) auto
next
  case (inspect_failure i t env)
  then show thesis by (intro that [of i WorkerReady]) (simp_all add: inspect_failure_def)
next
  case (take i t ts)
  then show thesis by (intro that [of i "WorkerBusy t"]) simp_all
next
  case (leave i)
  then show thesis by (intro that [of i WorkerGone]) simp_all
qed (use assms(2) in \<open>auto simp: tick_def claim_ready_def send_def Let_def split: if_splits prod.splits sum.splits\<close>)

text \<open>
  C29. When the loop is gone, \<open>Stop\<close> drains the queue and returns: with the channel closed, each step of a
  worker brings the end nearer, and as long as a worker is there one of them can take a step; so all of
  them leave, and they leave an empty channel.
\<close>

theorem stop_drains:
  assumes "s_closed S" and "s_loop S = LoopGone"
  shows "(\<forall>S'. worker_step E c S S' \<longrightarrow> drain_work S' < drain_work S \<and> s_closed S' \<and> s_loop S' = LoopGone)
     \<and> ((\<exists>w \<in> set (s_workers S). w \<noteq> WorkerGone) \<longrightarrow> (\<exists>S'. worker_step E c S S'))"
proof (intro conjI allI impI)
  fix S'
  assume "worker_step E c S S'"
  then have "sched_step E c S S'" "s_workers S' \<noteq> s_workers S" by (simp_all add: worker_step.simps)
  then obtain i w where m: "i < length (s_workers S)" "s_workers S' = (s_workers S)[i := w]"
    "s_channel S' = s_channel S \<and> worker_work w < worker_work (s_workers S ! i)
         \<or> length (s_channel S) = Suc (length (s_channel S')) \<and> worker_work w < worker_work (s_workers S ! i) + 4"
    and same: "s_closed S' = s_closed S" "s_loop S' = s_loop S" by (rule worker_moves)
  show "s_closed S'" "s_loop S' = LoopGone" using assms same by simp_all
  show "drain_work S' < drain_work S"
    using m sum_list_update_less [OF m(1), of w 0 0] sum_list_update_less [OF m(1), of w 0 4] by (auto simp: drain_work_def)
next
  assume "\<exists>w \<in> set (s_workers S). w \<noteq> WorkerGone"
  then obtain i where i: "i < length (s_workers S)" "s_workers S ! i \<noteq> WorkerGone" by (auto simp: in_set_conv_nth)
  have changed: "worker_step E c S S'" if "sched_step E c S S'" "s_workers S' = (s_workers S)[i := w]" "w \<noteq> s_workers S ! i" for S' w
    using that i(1) by (simp add: worker_step.simps) (metis nth_list_update_eq)
  show "\<exists>S'. worker_step E c S S'"
  proof (cases "s_workers S ! i")
    case WorkerReady
    show ?thesis
    proof (cases "s_channel S")
      case Nil
      show ?thesis
        by (rule exI, rule changed [OF sched_step.leave [OF i(1) WorkerReady Nil assms(1)], of WorkerGone]) (simp_all add: WorkerReady)
    next
      case (Cons t ts)
      show ?thesis
        by (rule exI, rule changed [OF sched_step.take [OF i(1) WorkerReady Cons], of "WorkerBusy t"]) (simp_all add: WorkerReady)
    qed
  next
    case (WorkerBusy t)
    obtain w where "w \<in> {WorkerReady, WorkerCalling t}" "s_workers (begin_work c i t S) = (s_workers S)[i := w]"
      by (rule begin_work_moves)
    then have "w \<noteq> s_workers S ! i" "s_workers (begin_work c i t S) = (s_workers S)[i := w]" by (auto simp: WorkerBusy)
    then show ?thesis using changed [OF sched_step.begin_work [OF i(1) WorkerBusy, of E c]] by blast
  next
    case (WorkerCalling t)
    obtain w where "w \<in> {WorkerReady, WorkerFailing t}" "s_workers (finish_call c (refused 0) i t S) = (s_workers S)[i := w]"
      by (rule finish_call_moves)
    then have "w \<noteq> s_workers S ! i" "s_workers (finish_call c (refused 0) i t S) = (s_workers S)[i := w]"
      by (auto simp: WorkerCalling)
    then show ?thesis using changed [OF sched_step.finish_call [OF i(1) WorkerCalling, of E c "refused 0"]] by blast
  next
    case (WorkerFailing t)
    show ?thesis
      by (rule exI, rule changed [OF sched_step.inspect_failure [OF i(1) WorkerFailing, of E c "refused 0"], of WorkerReady])
         (simp_all add: inspect_failure_def WorkerFailing)
  next
    case WorkerGone
    then show ?thesis using i(2) by simp
  qed
qed

definition stopped :: "tstore sched" where
  "stopped = (Start demo_scheduler due_store)\<lparr>s_cancelled := True, s_closed := True, s_loop := LoopGone\<rparr>"

theorem stop_drains_witness: "\<exists>S'. worker_step world demo_scheduler stopped S' \<and> drain_work S' < drain_work stopped"
proof -
  have "s_closed stopped" "s_loop stopped = LoopGone" by (simp_all add: stopped_def)
  moreover have "\<exists>w \<in> set (s_workers stopped). w \<noteq> WorkerGone"
    by (simp add: stopped_def Start_def demo_scheduler_def NewTaskScheduler_def)
  ultimately show ?thesis using stop_drains [of stopped world demo_scheduler] by blast
qed

section \<open>The life of the store's tasks\<close>

lemma claimed_task:
  assumes "tasks_keyed s" and "Repo_ClaimReadyTasks now n s = (Inr ts, s')" and "t \<in> set ts"
  obtains t0 where "tview s (t_ID t) = Some t0" and "task_ready now t0" and "t = mark_queued t0"
    and "tview s' (t_ID t) = Some t"
    and "t_ID t \<in> set (claim_keys t_ID (task_ready now) t_ExecuteAt (row_locked (base s)) n (tasks (tables (base s))))"
proof -
  let ?rows = "tasks (tables (base s))"
  let ?ks = "claim_keys t_ID (task_ready now) t_ExecuteAt (row_locked (base s)) n ?rows"
  note cl = Claim_cases [OF assms(2)]
  have k: "keyed t_ID ?rows" using assms(1) by (simp add: tasks_keyed_def)
  have "t \<in> set (fst (claim_tasks (base s) now n ?rows))" using assms(3) cl by simp
  then obtain r where r: "r \<in> set ?rows" "t_ID r \<in> set ?ks" "t = mark_queued r"
    using task_queue.claimed_iff [OF k] by (auto simp: claim_tasks_def)
  then have row: "row_of t_ID (t_ID r) ?rows = Some r" using row_of_keyed [OF k] by blast
  obtain r' where "r' \<in> set ?rows" "t_ID r' = t_ID r" "task_ready now r'" using task_queue.claim_keys_subset [OF r(2)] by blast
  then have "task_ready now r" using row row_of_keyed [OF k] by fastforce
  moreover have "tview s' (t_ID r) = Some (mark_queued r)"
    using cl row r(2) by (simp add: tview_def claim_tasks_def task_queue.claim_row_of)
  ultimately show thesis using that [of r] row r by (simp add: tview_def)
qed

text \<open>
  C16. What a claim returns: at most as many tasks as asked for, each once, each QUEUED in the copy and in the
  table and due and PENDING before; no task that was passed over, though due and not locked, was due
  before a claimed one; and every task that was not claimed keeps its row.
\<close>

theorem task_claim_exact:
  assumes k: "tasks_keyed s" and cl: "Repo_ClaimReadyTasks now n s = (Inr ts, s')"
  shows "length ts \<le> n \<and> distinct (map t_ID ts)
     \<and> (\<forall>t \<in> set ts. t_Status t = StatusQueued \<and> tview s' (t_ID t) = Some t
          \<and> (\<exists>t0. tview s (t_ID t) = Some t0 \<and> t_Status t0 = StatusPending \<and> t_ExecuteAt t0 \<le> now))
     \<and> (\<forall>t \<in> set ts. \<forall>r \<in> set (tasks (tables (base s))). task_ready now r \<longrightarrow> \<not> row_locked (base s) (t_ID r) \<longrightarrow>
          t_ID r \<notin> set (map t_ID ts) \<longrightarrow> t_ExecuteAt t \<le> t_ExecuteAt r)
     \<and> (\<forall>j. j \<notin> set (map t_ID ts) \<longrightarrow> tview s' j = tview s j)"
proof -
  let ?rows = "tasks (tables (base s))"
  let ?ks = "claim_keys t_ID (task_ready now) t_ExecuteAt (row_locked (base s)) n ?rows"
  have key: "keyed t_ID ?rows" using k by (simp add: tasks_keyed_def)
  have ts: "ts = fst (claim_tasks (base s) now n ?rows)"
    and after: "tables (base s') = (tables (base s))\<lparr>tasks := snd (claim_tasks (base s) now n ?rows)\<rparr>"
    using Claim_cases [OF cl] by simp_all
  have ids: "set (map t_ID ts) = set ?ks" using task_queue.claim_result_keys [OF key] by (simp add: ts claim_tasks_def)
  have "length ts \<le> n" "distinct (map t_ID ts)"
    using task_queue.claim_result_length [OF key] task_queue.claim_result_distinct [OF key] by (simp_all add: ts claim_tasks_def)
  moreover have "t_Status t = StatusQueued \<and> tview s' (t_ID t) = Some t
      \<and> (\<exists>t0. tview s (t_ID t) = Some t0 \<and> t_Status t0 = StatusPending \<and> t_ExecuteAt t0 \<le> now)" if "t \<in> set ts" for t
    by (rule claimed_task [OF k cl that]) (auto simp: task_ready_def mark_queued_def)
  moreover have "t_ExecuteAt t \<le> t_ExecuteAt r" if t: "t \<in> set ts" and r: "r \<in> set ?rows" "task_ready now r"
      "\<not> row_locked (base s) (t_ID r)" "t_ID r \<notin> set (map t_ID ts)" for t r
  proof (rule claimed_task [OF k cl t])
    fix t0
    assume t0: "tview s (t_ID t) = Some t0" "t = mark_queued t0" "t_ID t \<in> set ?ks"
    then have "t0 \<in> set ?rows" "t_ID t0 \<in> set ?ks" by (auto simp: tview_def dest: row_of_Some_D)
    then show ?thesis
      using task_queue.claim_oldest_first [where locked = "row_locked (base s)" and r' = r, OF key _ _ r(1-3), of t0 n] r(4) t0(2)
      unfolding ids by (simp add: mark_queued_def)
  qed
  moreover have "tview s' j = tview s j" if "j \<notin> set (map t_ID ts)" for j
    using that unfolding ids by (simp add: tview_def after claim_tasks_def task_queue.claim_row_of)
  ultimately show ?thesis by blast
qed

theorem task_claim_exact_witness:
  "\<exists>ts s'. Repo_ClaimReadyTasks 5 10 due_store = (Inr ts, s') \<and> map t_ID ts = [''k'']
     \<and> map_option t_Status (tview s' ''k'') = Some StatusQueued"
proof -
  have k: "tasks_keyed due_store" by (simp add: tasks_keyed_def due_store_def demo_store_facts keyed_def)
  have cl: "Repo_ClaimReadyTasks 5 10 due_store =
      (Inr [demo_task ''k'' StatusQueued 0 3], demo_store [demo_task ''k'' StatusQueued 0 3])"
    using due_claim by (simp add: demo_scheduler_def NewTaskScheduler_def)
  show ?thesis using task_claim_exact [OF k cl] cl by simp
qed

text \<open>
  C26. A crash loses no task: \<open>Start\<close> on a store that is up turns every QUEUED or PROCESSING task back to
  PENDING, with its retry count, its payload and its due time, and leaves all others alone; the first claim
  after it, when the queue has room for all that is due, takes all of the unlocked due ones. (It makes no
  difference between the tasks of a dead process and those of another one that is running.)
\<close>

theorem start_recovers:
  assumes "all_up s0" and "tasks_keyed s0"
    and c: "c = NewTaskScheduler (NewPostgresRepo rdb) (NewPostgresDLQRepository fmt) wc qc"
    and room: "length (tasks (tables (base s0))) \<le> chan_cap c"
  shows "(\<forall>k. tview (s_store (Start c s0)) k =
        map_option (\<lambda>t. if stuck t then t\<lparr>t_Status := StatusPending\<rparr> else t) (tview s0 k))
     \<and> (\<forall>k t ts s'. tview s0 k = Some t \<and> stuck t \<and> t_ExecuteAt t \<le> now \<and> \<not> row_locked (base (s_store (Start c s0))) k
          \<and> Repo_ClaimReadyTasks now (chan_cap c) (s_store (Start c s0)) = (Inr ts, s') \<longrightarrow> k \<in> set (map t_ID ts))"
proof -
  let ?S = "s_store (Start c s0)"
  let ?rows = "update_where stuck (\<lambda>t. t\<lparr>t_Status := StatusPending\<rparr>) (tasks (tables (base s0)))"
  have "?S = s0\<lparr>base := (base s0)\<lparr>tables := (tables (base s0))\<lparr>tasks := ?rows\<rparr>\<rparr>\<rparr>"
    using assms(1) by (simp add: Start_def c NewTaskScheduler_def Repo_RecoverTasks_def on_base_run)
  then have rows: "tasks (tables (base ?S)) = ?rows" by simp
  have key: "keyed t_ID ?rows" using assms(2) by (simp add: tasks_keyed_def keyed_update_where)
  have view: "tview ?S k = map_option (\<lambda>t. if stuck t then t\<lparr>t_Status := StatusPending\<rparr> else t) (tview s0 k)" for k
    by (cases "row_of t_ID k (tasks (tables (base s0)))") (simp_all add: tview_def rows row_of_update_where)
  have "k \<in> set (map t_ID ts)" if a: "tview s0 k = Some t" "stuck t" "t_ExecuteAt t \<le> now" "\<not> row_locked (base ?S) k"
      "Repo_ClaimReadyTasks now (chan_cap c) ?S = (Inr ts, s')" for k t ts s'
  proof -
    have t': "row_of t_ID k ?rows = Some (t\<lparr>t_Status := StatusPending\<rparr>)"
      using view [of k] a(1,2) by (simp add: tview_def rows)
    then have in_rows: "t\<lparr>t_Status := StatusPending\<rparr> \<in> set ?rows" "t_ID t = k" by (auto dest: row_of_Some_D)
    have "length (filter (\<lambda>r. task_ready now r \<and> \<not> row_locked (base ?S) (t_ID r)) ?rows) \<le> chan_cap c"
      using room length_filter_le [of _ ?rows] order_trans by fastforce
    then have "k \<in> set (claim_keys t_ID (task_ready now) t_ExecuteAt (row_locked (base ?S)) (chan_cap c) ?rows)"
      using task_queue.claim_all [of now "row_locked (base ?S)" ?rows "chan_cap c", OF _ in_rows(1)] a(3,4) in_rows(2)
      by (simp add: task_ready_def)
    then show ?thesis
      using task_queue.claim_result_keys [OF key] Claim_cases [OF a(5)] by (simp add: claim_tasks_def rows)
  qed
  with view show ?thesis by blast
qed

theorem start_recovers_witness:
  "tview (s_store (Start demo_scheduler (demo_store [demo_task ''k'' StatusProcessing 1 3]))) ''k''
     = Some (demo_task ''k'' StatusPending 1 3)"
proof -
  let ?s = "demo_store [demo_task ''k'' StatusProcessing 1 3]"
  have up: "all_up ?s" "tasks_keyed ?s" by (simp_all add: tasks_keyed_def demo_store_facts keyed_def)
  have room: "length (tasks (tables (base ?s))) \<le> chan_cap demo_scheduler"
    by (simp add: demo_store_facts demo_scheduler_def NewTaskScheduler_def chan_cap_def)
  show ?thesis
    using start_recovers [OF up demo_scheduler_def room, of 0]
    by (simp add: tview_def demo_store_facts row_of_def stuck_def demo_task_def)
qed

text \<open>
  Neither the claim nor the recovery invalidates Redis: while a copy read before is unexpired, \<open>Get\<close>
  goes on answering with it - status PENDING - although the row is QUEUED.
\<close>

lemma claim_leaves_stale_cache:
  assumes "tasks_keyed s" and "Repo_ClaimReadyTasks now n s = (Inr ts, s')" and "t \<in> set ts"
    and "live_entry s (cacheKey (t_ID t)) = tview s (t_ID t)" and "redis_faults s = []"
  shows "\<exists>old. fst (Repo_Get True (t_ID t) s') = Inr old \<and> t_Status old = StatusPending
     \<and> task_status (t_ID t) s' = Some StatusQueued"
proof (rule claimed_task [OF assms(1-3)])
  fix t0
  assume t0: "tview s (t_ID t) = Some t0" "task_ready now t0" "t = mark_queued t0" "tview s' (t_ID t) = Some t"
  have same: "cache s' = cache s" "redis_now s' = redis_now s" "redis_faults s' = []"
    using Claim_cases [OF assms(2)] assms(5) by simp_all
  have "live_entry s' (cacheKey (t_ID t)) = live_entry s (cacheKey (t_ID t))" by (simp only: live_entry_def same)
  then have "live_entry s' (cacheKey (t_ID t)) = Some t0" using assms(4) t0(1) by simp
  then have "fst (Repo_Get True (t_ID t) s') = Inr t0" using same by (simp add: Repo_Get_def redis_cmd_def)
  moreover have "t_Status t0 = StatusPending" using t0(2) by (simp add: task_ready_def)
  moreover have "task_status (t_ID t) s' = Some StatusQueued" using t0(3,4) by (simp add: task_status_def mark_queued_def)
  ultimately show ?thesis by blast
qed

definition cached_store :: tstore where
  "cached_store = due_store\<lparr>cache := [cacheKey ''k'' \<mapsto> (demo_task ''k'' StatusPending 0 3, 100)]\<rparr>"

lemma claim_leaves_stale_cache_witness:
  "\<exists>ts s'. Repo_ClaimReadyTasks 5 10 cached_store = (Inr ts, s') \<and> (\<exists>t \<in> set ts. t_ID t = ''k'' \<and>
     (\<exists>old. fst (Repo_Get True (t_ID t) s') = Inr old \<and> t_Status old = StatusPending))"
proof -
  have k: "tasks_keyed cached_store" by (simp add: tasks_keyed_def cached_store_def due_store_def demo_store_facts keyed_def)
  obtain s' where cl: "Repo_ClaimReadyTasks 5 10 cached_store = (Inr [demo_task ''k'' StatusQueued 0 3], s')"
    by (simp add: Repo_ClaimReadyTasks_def cached_store_def due_store_def demo_store_def on_base_def
        exec_sql_no_faults claim_tasks_def claim_rows_def claim_keys_def task_ready_def update_where_def mark_queued_def
        rows_err_def demo_task_def Let_def)
  have live: "live_entry cached_store (cacheKey ''k'') = tview cached_store ''k''" "redis_faults cached_store = []"
    by (simp_all add: live_entry_def cached_store_def due_store_def demo_store_def tview_def row_of_def demo_task_def)
  show ?thesis using claim_leaves_stale_cache [OF k cl, of "demo_task ''k'' StatusQueued 0 3"] live cl by fastforce
qed

end
