(* ===== verification/TaskHandlers.thy ===== *)
theory TaskHandlers
  imports TaskScheduler Auth
begin

text \<open>
  The task API: \<open>internal/scheduler/handler/task_handler.go\<close>.

  A bound JSON body arrives as \<open>Inr\<close>, a binding failure as \<open>Inl\<close> of its message. \<open>fmt\<close> is
  \<open>Time.Format("20060102150405")\<close>, the time to the second; \<open>now\<close> and \<open>now_id\<close> are the two calls of \<open>time.Now()\<close>.
\<close>

section \<open>Handlers\<close>

datatype task_body = TaskBody Task | TaskErrorBody string | TaskHealthBody string

type_synonym task_response = "status_code \<times> task_body"

record updatePayload =
  up_Title :: "string option"
  up_Description :: "string option"
  up_ExecuteAt :: "gotime option"

definition error_text :: "task_error \<Rightarrow> string" where
  "error_text e = (case e of ErrTaskNotFound \<Rightarrow> ''task not found'' | ErrTaskAlreadyExists \<Rightarrow> ''task already exists'' | RepoError msg \<Rightarrow> msg)"

definition generateID :: "(gotime \<Rightarrow> string) \<Rightarrow> gotime \<Rightarrow> string" where
  "generateID fmt now = fmt now"

text \<open>The task as it is handed to the repository.\<close>

definition prepare_task :: "(gotime \<Rightarrow> string) \<Rightarrow> gotime \<Rightarrow> gotime \<Rightarrow> Task \<Rightarrow> Task" where
  "prepare_task fmt now_id now t =
     (let t = (if t_ID t = '''' then t\<lparr>t_ID := generateID fmt now_id\<rparr> else t);
          t = t\<lparr>t_CreatedAt := now, t_Status := StatusPending, t_RetryCount := 0\<rparr>;
          t = (if is_zero (t_ExecuteAt t) then t\<lparr>t_ExecuteAt := t_CreatedAt t\<rparr> else t)
      in if t_MaxRetries t \<le> 0 then t\<lparr>t_MaxRetries := 3\<rparr> else t)"

definition CreateTask ::
  "'s TaskRepo \<Rightarrow> (gotime \<Rightarrow> string) \<Rightarrow> gotime \<Rightarrow> gotime \<Rightarrow> string + Task \<Rightarrow> 's \<Rightarrow> task_response \<times> 's" where
  "CreateTask repo fmt now_id now bound s =
     (case bound of
        Inl msg \<Rightarrow> ((StatusBadRequest, TaskErrorBody msg), s)
      | Inr t \<Rightarrow>
          (let t = prepare_task fmt now_id now t
           in case tk_Create repo t s of
                (Inr _, s) \<Rightarrow> ((StatusCreated, TaskBody t), s)
              | (Inl err, s) \<Rightarrow>
                  (if err = ErrTaskAlreadyExists
                   then (case tk_Get repo (t_ID t) s of
                           (Inr existingTask, s) \<Rightarrow> ((StatusOK, TaskBody existingTask), s)
                         | (Inl _, s) \<Rightarrow> ((StatusInternalServerError, TaskErrorBody (error_text err)), s))
                   else ((StatusInternalServerError, TaskErrorBody (error_text err)), s))))"

definition GetTask :: "'s TaskRepo \<Rightarrow> gin_context \<Rightarrow> 's \<Rightarrow> task_response \<times> 's" where
  "GetTask repo c s =
     (case tk_Get repo (c_param_id c) s of
        (Inl err, s) \<Rightarrow> (if err = ErrTaskNotFound then ((StatusNotFound, TaskErrorBody ''task not found''), s)
                        else ((StatusInternalServerError, TaskErrorBody (error_text err)), s))
      | (Inr t, s) \<Rightarrow> ((StatusOK, TaskBody t), s))"

definition apply_update :: "updatePayload \<Rightarrow> Task \<Rightarrow> Task" where
  "apply_update p task =
     (let task = (case up_Title p of None \<Rightarrow> task | Some x \<Rightarrow> task\<lparr>t_Title := x\<rparr>);
          task = (case up_Description p of None \<Rightarrow> task | Some x \<Rightarrow> task\<lparr>t_Description := x\<rparr>)
      in case up_ExecuteAt p of
           None \<Rightarrow> task
         | Some x \<Rightarrow> task\<lparr>t_ExecuteAt := x, t_Status := StatusPending, t_RetryCount := 0\<rparr>)"

definition UpdateTask :: "'s TaskRepo \<Rightarrow> string + updatePayload \<Rightarrow> gin_context \<Rightarrow> 's \<Rightarrow> task_response \<times> 's" where
  "UpdateTask repo bound c s =
     (case bound of
        Inl msg \<Rightarrow> ((StatusBadRequest, TaskErrorBody msg), s)
      | Inr p \<Rightarrow>
          (case tk_Update repo (c_param_id c) (apply_update p) s of
             (Inl err, s) \<Rightarrow> (if err = ErrTaskNotFound then ((StatusNotFound, TaskErrorBody ''task not found''), s)
                             else ((StatusInternalServerError, TaskErrorBody (error_text err)), s))
           | (Inr t, s) \<Rightarrow> ((StatusOK, TaskBody t), s)))"

definition Health :: task_response where
  "Health = (StatusOK, TaskHealthBody ''healthy'')"

section \<open>Routes\<close>

text \<open>The requests of the API and what they carry; the group \<open>/tasks\<close> has the key check only when a key is set.\<close>

datatype api_request = GetHealth | PostTasks gotime gotime "string + Task" | GetTasksId | PutTasksId "string + updatePayload"

definition task_middleware :: "unicode \<Rightarrow> string \<Rightarrow> gin_context \<Rightarrow> mw_result" where
  "task_middleware U apiKey c = (if apiKey \<noteq> '''' then APIKeyAuth U apiKey c else Next c)"

fun task_handler :: "'s TaskRepo \<Rightarrow> (gotime \<Rightarrow> string) \<Rightarrow> api_request \<Rightarrow> gin_context \<Rightarrow> 's \<Rightarrow> task_response \<times> 's" where
  "task_handler repo fmt GetHealth c s = (Health, s)"
| "task_handler repo fmt (PostTasks now_id now bound) c s = CreateTask repo fmt now_id now bound s"
| "task_handler repo fmt GetTasksId c s = GetTask repo c s"
| "task_handler repo fmt (PutTasksId bound) c s = UpdateTask repo bound c s"

definition serve_task ::
  "unicode \<Rightarrow> string \<Rightarrow> 's TaskRepo \<Rightarrow> (gotime \<Rightarrow> string) \<Rightarrow> api_request \<Rightarrow> gin_context \<Rightarrow> 's \<Rightarrow> task_response \<times> 's" where
  "serve_task U apiKey repo fmt q c s =
     (if q = GetHealth then task_handler repo fmt q c s
      else case task_middleware U apiKey c of
             Abort code msg \<Rightarrow> ((code, TaskErrorBody msg), s)
           | Next c \<Rightarrow> task_handler repo fmt q c s)"

section \<open>Requests and the store\<close>

lemma apply_update_id [simp]: "t_ID (apply_update p t) = t_ID t"
  by (simp add: apply_update_def Let_def split: option.split)

lemma prepare_task_sel [simp]:
  "t_ID (prepare_task fmt now_id now t) = (if t_ID t = '''' then fmt now_id else t_ID t)"
  "t_Status (prepare_task fmt now_id now t) = StatusPending" "t_RetryCount (prepare_task fmt now_id now t) = 0"
  "t_MaxRetries (prepare_task fmt now_id now t) = (if t_MaxRetries t \<le> 0 then 3 else t_MaxRetries t)"
  "t_CreatedAt (prepare_task fmt now_id now t) = now" "t_CallbackURL (prepare_task fmt now_id now t) = t_CallbackURL t"
  "t_Payload (prepare_task fmt now_id now t) = t_Payload t"
  "t_ExecuteAt (prepare_task fmt now_id now t) = (if is_zero (t_ExecuteAt t) then now else t_ExecuteAt t)"
  by (simp_all add: prepare_task_def generateID_def Let_def)

lemma Create_up:
  assumes "all_up s"
  shows "Repo_Create t s =
     (case tview s (t_ID t) of
        Some _ \<Rightarrow> (Inl ErrTaskAlreadyExists, s)
      | None \<Rightarrow> (Inr (), s\<lparr>base := (base s)\<lparr>tables := (tables (base s))\<lparr>tasks := tasks (tables (base s)) @ [stored (tstamp s) t]\<rparr>\<rparr>\<rparr>))"
  using assms
  by (cases "tview s (t_ID t)")
     (simp_all add: Repo_Create_def on_base_run insert_row_def has_key_row_of tview_def tstamp_def stored_def
        unique_violation_def Let_def)

lemma tview_append:
  assumes "tasks (tables (base s')) = tasks (tables (base s)) @ [t]" and "tview s (t_ID t) = None"
  shows "tview s' = (tview s)(t_ID t \<mapsto> t)"
proof -
  have "insert_row t_ID t (tasks (tables (base s))) = (Inr (), tasks (tables (base s)) @ [t])"
    using assms(2) by (simp add: insert_row_def has_key_row_of tview_def)
  then show ?thesis
    using row_of_insert_row [of t_ID t "tasks (tables (base s))"] assms(1) by (auto simp: tview_def fun_eq_iff)
qed

lemma stored_sel [simp]:
  "t_ID (stored st t) = t_ID t" "t_Status (stored st t) = t_Status t" "t_RetryCount (stored st t) = t_RetryCount t"
  "t_MaxRetries (stored st t) = t_MaxRetries t" "t_CallbackURL (stored st t) = t_CallbackURL t"
  "t_Payload (stored st t) = t_Payload t" "t_ExecuteAt (stored st t) = st (t_ExecuteAt t)"
  by (simp_all add: stored_def)

lemma CreateTask_up:
  assumes "all_up s"
  obtains (created) s' where "tview s (t_ID (prepare_task fmt now_id now t)) = None"
      "CreateTask (NewPostgresRepo rdb) fmt now_id now (Inr t) s = ((StatusCreated, TaskBody (prepare_task fmt now_id now t)), s')"
      "tview s' = (tview s)(t_ID (prepare_task fmt now_id now t) \<mapsto> stored (tstamp s) (prepare_task fmt now_id now t))"
      "all_up s'" "cache s' = cache s" "redis_now s' = redis_now s" "tdead s' = tdead s" "tstamp s' = tstamp s"
  | (known) old where "tview s (t_ID (prepare_task fmt now_id now t)) = Some old"
      "CreateTask (NewPostgresRepo rdb) fmt now_id now (Inr t) s =
         (case Repo_Get rdb (t_ID (prepare_task fmt now_id now t)) s of
            (Inr existingTask, s) \<Rightarrow> ((StatusOK, TaskBody existingTask), s)
          | (Inl _, s) \<Rightarrow> ((StatusInternalServerError, TaskErrorBody (error_text ErrTaskAlreadyExists)), s))"
proof (cases "tview s (t_ID (prepare_task fmt now_id now t))")
  case None
  let ?t = "prepare_task fmt now_id now t"
  let ?s = "s\<lparr>base := (base s)\<lparr>tables := (tables (base s))\<lparr>tasks := tasks (tables (base s)) @ [stored (tstamp s) ?t]\<rparr>\<rparr>\<rparr>"
  have "CreateTask (NewPostgresRepo rdb) fmt now_id now (Inr t) s = ((StatusCreated, TaskBody ?t), ?s)"
    unfolding CreateTask_def using Create_up [OF assms, of ?t] None by (simp add: Let_def del: prepare_task_sel)
  moreover have "tview ?s = (tview s)(t_ID ?t \<mapsto> stored (tstamp s) ?t)"
    using tview_append [of ?s s "stored (tstamp s) ?t"] None by simp
  ultimately show thesis using created None assms by (simp add: all_up_def no_faults_def tdead_def tstamp_def)
next
  case (Some old)
  then show thesis
    using known Create_up [OF assms, of "prepare_task fmt now_id now t"]
    by (simp add: CreateTask_def Let_def del: prepare_task_sel)
qed

section \<open>Properties\<close>

text \<open>
  C22. \<open>CreateTask\<close> is idempotent by id, in any state in which the services are up: on a new id it answers
  201 and the task is stored PENDING with no retries, whatever status the client sent; on a known id it
  answers 200 and changes neither a task nor a dead letter. The task it answers with is the one a read shows:
  the stored one, unless Redis holds a copy that has not expired - claims and recovery do not touch that copy,
  so it may be older than the row. In particular, sending any request with the new id again yields 200 and
  the task as it was created (or such a copy, if a task of that id was cached before it was created).
\<close>

theorem create_task_idempotent:
  assumes "all_up s" and "CreateTask (NewPostgresRepo rdb) fmt now_id now (Inr t) s = (r, s')"
  shows "tdead s' = tdead s \<and>
    (case tview s (t_ID (prepare_task fmt now_id now t)) of
       Some old \<Rightarrow> r = (StatusOK, TaskBody (shown rdb s (t_ID (prepare_task fmt now_id now t)) old)) \<and> tview s' = tview s
     | None \<Rightarrow> r = (StatusCreated, TaskBody (prepare_task fmt now_id now t))
         \<and> tview s' = (tview s)(t_ID (prepare_task fmt now_id now t) \<mapsto> stored (tstamp s) (prepare_task fmt now_id now t))
         \<and> (\<forall>u now_id2 now2. t_ID (prepare_task fmt now_id2 now2 u) = t_ID (prepare_task fmt now_id now t) \<longrightarrow>
               fst (CreateTask (NewPostgresRepo rdb) fmt now_id2 now2 (Inr u) s')
                 = (StatusOK, TaskBody (shown rdb s (t_ID (prepare_task fmt now_id now t))
                      (stored (tstamp s) (prepare_task fmt now_id now t))))))"
proof -
  have again: "fst (CreateTask (NewPostgresRepo rdb) fmt n1 n2 (Inr u) z) = (StatusOK, TaskBody (shown rdb z k old))
      \<and> tview (snd (CreateTask (NewPostgresRepo rdb) fmt n1 n2 (Inr u) z)) = tview z
      \<and> tdead (snd (CreateTask (NewPostgresRepo rdb) fmt n1 n2 (Inr u) z)) = tdead z"
    if z: "all_up z" "tview z k = Some old" "t_ID (prepare_task fmt n1 n2 u) = k" for z k old n1 n2 u
    using z(1)
  proof (cases rule: CreateTask_up [where fmt = fmt and now_id = n1 and now = n2 and t = u and rdb = rdb])
    case (known old')
    obtain g s3 where g: "Repo_Get rdb k z = (g, s3)" by fastforce
    then have "g = Inr (shown rdb z k old)" using Get_shown [OF z(1,2), of rdb] by simp
    then show ?thesis
      using known(2) g z(3) Get_frame [OF g] by (simp add: tview_def [abs_def] tdead_def del: prepare_task_sel)
  qed (use z in \<open>simp del: prepare_task_sel\<close>)
  show ?thesis
    using assms(1)
  proof (cases rule: CreateTask_up [where fmt = fmt and now_id = now_id and now = now and t = t and rdb = rdb])
    case (created s2)
    have s2: "r = (StatusCreated, TaskBody (prepare_task fmt now_id now t))" "s' = s2" using assms(2) created(2) by simp_all
    let ?k = "t_ID (prepare_task fmt now_id now t)" and ?new = "stored (tstamp s) (prepare_task fmt now_id now t)"
    have v: "tview s2 ?k = Some ?new" using created(3) by simp
    have "shown rdb s2 ?k ?new = shown rdb s ?k ?new" using created(5,6) by (simp only: shown_def live_entry_def)
    then show ?thesis using created(1,3,7) s2 again [OF created(4) v] by (simp del: prepare_task_sel)
  next
    case (known old)
    have "r = (StatusOK, TaskBody (shown rdb s (t_ID (prepare_task fmt now_id now t)) old)) \<and> tview s' = tview s \<and> tdead s' = tdead s"
      using again [OF assms(1) known(1) refl] unfolding assms(2) by simp
    then show ?thesis using known(1) by (simp del: prepare_task_sel)
  qed
qed

theorem create_task_idempotent_witness:
  "\<exists>r s'. CreateTask (NewPostgresRepo False) (\<lambda>_. ''id'') 5 5 (Inr (demo_task ''n'' StatusFailed 7 0)) (demo_store []) = (r, s')
     \<and> r = (StatusCreated, TaskBody (prepare_task (\<lambda>_. ''id'') 5 5 (demo_task ''n'' StatusFailed 7 0)))
     \<and> map_option t_Status (tview s' ''n'') = Some StatusPending"
proof -
  let ?t = "demo_task ''n'' StatusFailed 7 0"
  obtain r s' where c: "CreateTask (NewPostgresRepo False) (\<lambda>_. ''id'') 5 5 (Inr ?t) (demo_store []) = (r, s')" by fastforce
  have up: "all_up (demo_store [])" by (simp add: demo_store_facts)
  have "tview (demo_store []) ''n'' = None" by (simp add: tview_def demo_store_facts row_of_def)
  then show ?thesis using create_task_idempotent [OF up c] c by simp
qed

text \<open>
  Generated ids collide: of two clients that send no id within the same second, the second is
  answered 200 with the first one's task, and its own task is not stored.
\<close>

lemma generated_ids_collide:
  assumes "all_up s" and "\<not> rdb \<or> live_entry s (cacheKey (fmt i1)) = None" and "tview s (fmt i1) = None"
    and "t_ID t = ''''" and "t_ID u = ''''" and "fmt i1 = fmt i2" and "fmt i1 \<noteq> ''''"
    and "CreateTask (NewPostgresRepo rdb) fmt i1 n1 (Inr t) s = (r1, s1)"
    and "CreateTask (NewPostgresRepo rdb) fmt i2 n2 (Inr u) s1 = (r2, s2)"
  shows "fst r1 = StatusCreated \<and> (\<exists>old. r2 = (StatusOK, TaskBody old) \<and> t_CallbackURL old = t_CallbackURL t \<and> t_Payload old = t_Payload t)
     \<and> tview s2 = tview s1"
  using assms(1)
proof (cases rule: CreateTask_up [where fmt = fmt and now_id = i1 and now = n1 and t = t and rdb = rdb])
  case (created s')
  have s1: "r1 = (StatusCreated, TaskBody (prepare_task fmt i1 n1 t))" "s1 = s'" using assms(8) created(2) by simp_all
  let ?old = "stored (tstamp s) (prepare_task fmt i1 n1 t)"
  have v: "tview s1 (fmt i1) = Some ?old" using created(3) s1 assms(4) by simp
  have "live_entry s1 (cacheKey (fmt i1)) = live_entry s (cacheKey (fmt i1))" using created(5,6) s1 by (simp only: live_entry_def)
  then have f: "cache_fresh rdb s1 (fmt i1)" using assms(2) by (auto simp: cache_fresh_def)
  obtain g s3 where g: "Repo_Get rdb (fmt i1) s1 = (g, s3)" by fastforce
  then have "g = Inr ?old" using Get_up [of s1 rdb "fmt i1"] created(4) s1(2) f v by simp
  show ?thesis
    using created(4)
  proof (cases rule: CreateTask_up [where fmt = fmt and now_id = i2 and now = n2 and t = u and rdb = rdb])
    case (created s'')
    then show ?thesis using v s1(2) assms(5,6) by simp
  next
    case (known old)
    then have "(r2, s2) = ((StatusOK, TaskBody ?old), s3)"
      using assms(5,6,9) s1(2) g \<open>g = Inr ?old\<close> by simp
    then show ?thesis using s1 Get_frame [OF g] by (simp add: tview_def [abs_def])
  qed
next
  case (known old)
  then show ?thesis using assms(3,4) by simp
qed

lemma generated_ids_collide_witness:
  "\<exists>r1 s1 r2 s2. CreateTask (NewPostgresRepo False) (\<lambda>_. ''20240101000000'') 5 5 (Inr (demo_task '''' StatusPending 0 3)) (demo_store []) = (r1, s1)
     \<and> CreateTask (NewPostgresRepo False) (\<lambda>_. ''20240101000000'') 6 6 (Inr ((demo_task '''' StatusPending 0 3)\<lparr>t_Payload := ''other''\<rparr>)) s1 = (r2, s2)
     \<and> fst r1 = StatusCreated \<and> fst r2 = StatusOK \<and> tview s2 = tview s1"
proof -
  let ?f = "\<lambda>_::gotime. ''20240101000000''" and ?t = "demo_task '''' StatusPending 0 3"
  let ?u = "?t\<lparr>t_Payload := ''other''\<rparr>"
  obtain r1 s1 where c1: "CreateTask (NewPostgresRepo False) ?f 5 5 (Inr ?t) (demo_store []) = (r1, s1)" by fastforce
  obtain r2 s2 where c2: "CreateTask (NewPostgresRepo False) ?f 6 6 (Inr ?u) s1 = (r2, s2)" by fastforce
  have up: "all_up (demo_store [])" "tview (demo_store []) (?f 5) = None"
    by (simp_all add: demo_store_facts tview_def row_of_def)
  have "fst r1 = StatusCreated \<and> (\<exists>old. r2 = (StatusOK, TaskBody old) \<and> t_CallbackURL old = t_CallbackURL ?t \<and> t_Payload old = t_Payload ?t)
     \<and> tview s2 = tview s1"
    by (rule generated_ids_collide [OF up(1) _ up(2) _ _ _ _ c1 c2]) simp_all
  with c1 c2 show ?thesis by auto
qed

text \<open>
  \<open>UpdateTask\<close>: 404 for an unknown id; otherwise 200, and of this one task exactly the fields sent are
  rewritten. With a time among them the task is PENDING again with its retries back at zero, so it is
  ready when the stored time comes; without one, status, retries and time are as before.
\<close>

lemma update_task_exact:
  assumes "all_up s" and "UpdateTask (NewPostgresRepo rdb) (Inr p) c s = (r, s')"
  shows "case tview s (c_param_id c) of
       None \<Rightarrow> r = (StatusNotFound, TaskErrorBody ''task not found'') \<and> s' = s
     | Some t \<Rightarrow> r = (StatusOK, TaskBody (apply_update p t))
         \<and> tview s' = (tview s)(c_param_id c \<mapsto> rewritten (tstamp s) (apply_update p t) t)
         \<and> t_Title (apply_update p t) = (case up_Title p of Some x \<Rightarrow> x | None \<Rightarrow> t_Title t)
         \<and> t_Description (apply_update p t) = (case up_Description p of Some x \<Rightarrow> x | None \<Rightarrow> t_Description t)
         \<and> t_CallbackURL (apply_update p t) = t_CallbackURL t \<and> t_Payload (apply_update p t) = t_Payload t
         \<and> (case up_ExecuteAt p of
              None \<Rightarrow> t_Status (apply_update p t) = t_Status t \<and> t_RetryCount (apply_update p t) = t_RetryCount t
                \<and> t_ExecuteAt (apply_update p t) = t_ExecuteAt t
            | Some x \<Rightarrow> t_RetryCount (apply_update p t) = 0
                \<and> (\<forall>now t'. tview s' (c_param_id c) = Some t' \<longrightarrow> (task_ready now t' \<longleftrightarrow> tstamp s x \<le> now)))"
proof (cases "tview s (c_param_id c)")
  case None
  then show ?thesis using assms by (auto simp: UpdateTask_def Update_up)
next
  case (Some t)
  have "t_ID t = c_param_id c" using Some by (auto simp: tview_def dest: row_of_Some_D)
  then have r: "r = (StatusOK, TaskBody (apply_update p t))"
    and rows: "tasks (tables (base s')) = update_key t_ID (c_param_id c) (rewritten (tstamp s) (apply_update p t)) (tasks (tables (base s)))"
    using assms Some by (auto simp: UpdateTask_def Update_up tstamp_def)
  show ?thesis
    using Some r tview_update [OF rows Some]
    by (cases "up_Title p"; cases "up_Description p"; cases "up_ExecuteAt p")
       (simp_all add: apply_update_def task_ready_def)
qed

definition put_context :: gin_context where
  "put_context = \<lparr>c_header_authorization = ''Bearer k1'', c_param_id = ''k'', c_client_ip = ''1.2.3.4'', c_user_id = None\<rparr>"

definition put_time :: updatePayload where
  "put_time = \<lparr>up_Title = None, up_Description = None, up_ExecuteAt = Some 90\<rparr>"

lemma demo_view: "tview (demo_store [demo_task k st r m]) k = Some (demo_task k st r m)"
  by (simp add: tview_def demo_store_facts row_of_def)

lemma update_task_exact_witness:
  "\<exists>s'. UpdateTask (NewPostgresRepo False) (Inr put_time) put_context (demo_store [demo_task ''k'' StatusFailed 4 3])
       = ((StatusOK, TaskBody (apply_update put_time (demo_task ''k'' StatusFailed 4 3))), s')
     \<and> t_RetryCount (apply_update put_time (demo_task ''k'' StatusFailed 4 3)) = 0"
proof -
  let ?s = "demo_store [demo_task ''k'' StatusFailed 4 3]"
  obtain r s' where u: "UpdateTask (NewPostgresRepo False) (Inr put_time) put_context ?s = (r, s')" by fastforce
  have up: "all_up ?s" by (simp add: demo_store_facts)
  have "c_param_id put_context = ''k''" "up_ExecuteAt put_time = Some 90" by (simp_all add: put_context_def put_time_def)
  then show ?thesis using update_task_exact [OF up u] u by (simp add: demo_view)
qed

text \<open>
  A reschedule can be lost: when a task is rescheduled while its callback is under way, the client is
  answered 200 with the task PENDING at the new time, and the worker's last update then makes it COMPLETED;
  no claim will ever take it at the new time.
\<close>

lemma reschedule_lost:
  assumes c: "c = NewTaskScheduler (NewPostgresRepo rdb) dlq wc qc" and up: "all_up (s_store S)"
    and t: "tview (s_store S) (t_ID t) = Some t0" and p: "up_ExecuteAt p = Some x"
    and i: "i < length (s_workers S)" "s_workers S ! i = WorkerCalling t"
    and ok: "executeCallback (we_do env) t" and k: "c_param_id ctx = t_ID t"
    and put: "UpdateTask (ts_repo c) (Inr p) ctx (s_store S) = (r, s1)"
  shows "sched_step world c S (S\<lparr>s_store := s1\<rparr>)
     \<and> sched_step world c (S\<lparr>s_store := s1\<rparr>) (finish_call c env i t (S\<lparr>s_store := s1\<rparr>))
     \<and> r = (StatusOK, TaskBody (apply_update p t0)) \<and> t_Status (apply_update p t0) = StatusPending
     \<and> (\<exists>t2. tview (s_store (finish_call c env i t (S\<lparr>s_store := s1\<rparr>))) (t_ID t) = Some t2
          \<and> t_Status t2 = StatusCompleted \<and> (\<forall>now. \<not> task_ready now t2))"
proof -
  have id: "t_ID t0 = t_ID t" using t by (auto simp: tview_def dest: row_of_Some_D)
  have R: "ts_repo c = NewPostgresRepo rdb" by (simp add: c NewTaskScheduler_def)
  obtain q where q: "Repo_Update rdb (t_ID t) (apply_update p) (s_store S) = (q, s1)" "q = Inr (apply_update p t0)"
    "r = (StatusOK, TaskBody (apply_update p t0))"
    using put t k by (auto simp: UpdateTask_def R Update_up [OF up] split: sum.splits)
  have u1: "all_up s1" using pg_tasks.update_reliable [of rdb _ "apply_update p"] q(1) up by simp
  have v1: "tview s1 (t_ID t) = Some (rewritten (tstamp (s_store S)) (apply_update p t0) t0)"
    using pg_tasks.update_view [of rdb "t_ID t" "apply_update p" "s_store S" q s1] q t by auto
  have "s_store (finish_call c env i t (S\<lparr>s_store := s1\<rparr>)) = snd (Repo_Update rdb (t_ID t) (set_status StatusCompleted) s1)"
    using ok by (simp add: finish_call_def R set_worker_def)
  then obtain t2 where "tview (s_store (finish_call c env i t (S\<lparr>s_store := s1\<rparr>))) (t_ID t) = Some t2" "t_Status t2 = StatusCompleted"
    using pg_tasks.update_view [of rdb "t_ID t" "set_status StatusCompleted" s1] pg_tasks.update_reliable [of rdb "t_ID t" "set_status StatusCompleted" s1]
      u1 v1 by (fastforce simp: prod_eq_iff)
  moreover have "sched_step world c S (S\<lparr>s_store := s1\<rparr>)"
    using sched_step.http_update [of "apply_update p" world c S "t_ID t"] q(1) R by simp
  moreover have "sched_step world c (S\<lparr>s_store := s1\<rparr>) (finish_call c env i t (S\<lparr>s_store := s1\<rparr>))"
    by (rule sched_step.finish_call) (simp_all add: i)
  ultimately show ?thesis using q(3) p by (auto simp: task_ready_def apply_update_def Let_def)
qed

definition calling :: "tstore sched" where
  "calling = (Start demo_scheduler (demo_store []))\<lparr>s_store := demo_store [demo_task ''k'' StatusProcessing 0 3],
     s_workers := [WorkerCalling (demo_task ''k'' StatusQueued 0 3)]\<rparr>"

lemma reschedule_lost_witness:
  "\<exists>r s1. UpdateTask (ts_repo demo_scheduler) (Inr put_time) put_context (s_store calling) = (r, s1) \<and> fst r = StatusOK
     \<and> (\<exists>S2. sched_step world demo_scheduler (calling\<lparr>s_store := s1\<rparr>) S2 \<and> task_status ''k'' (s_store S2) = Some StatusCompleted)"
proof -
  let ?t = "demo_task ''k'' StatusQueued 0 3"
  let ?env = "(refused 0)\<lparr>we_do := \<lambda>_. Answered 200\<rparr>"
  obtain r s1 where u: "UpdateTask (ts_repo demo_scheduler) (Inr put_time) put_context (s_store calling) = (r, s1)" by fastforce
  have "sched_step world demo_scheduler calling (calling\<lparr>s_store := s1\<rparr>)
     \<and> sched_step world demo_scheduler (calling\<lparr>s_store := s1\<rparr>) (finish_call demo_scheduler ?env 0 ?t (calling\<lparr>s_store := s1\<rparr>))
     \<and> r = (StatusOK, TaskBody (apply_update put_time (demo_task ''k'' StatusProcessing 0 3)))
     \<and> t_Status (apply_update put_time (demo_task ''k'' StatusProcessing 0 3)) = StatusPending
     \<and> (\<exists>t2. tview (s_store (finish_call demo_scheduler ?env 0 ?t (calling\<lparr>s_store := s1\<rparr>))) (t_ID ?t) = Some t2
          \<and> t_Status t2 = StatusCompleted \<and> (\<forall>now. \<not> task_ready now t2))"
    by (rule reschedule_lost [OF demo_scheduler_def _ _ _ _ _ _ _ u])
       (simp_all add: calling_def demo_store_facts tview_def row_of_def put_time_def put_context_def executeCallback_def)
  then show ?thesis using u by (auto simp: task_status_def intro!: exI)
qed

text \<open>
  The key check guards the whole task API except \<open>/health\<close>: with a key set, a request whose bearer
  token is not the key is answered 401 and reaches neither a handler nor the store; one whose token is the
  key is served. With no key set - the default - everything is served.
\<close>

lemma task_api_guard:
  assumes "q \<noteq> GetHealth"
  shows "(apiKey \<noteq> '''' \<and> bearer_token U (c_header_authorization c) \<noteq> Some apiKey \<longrightarrow>
        (\<exists>msg. serve_task U apiKey repo fmt q c s = ((StatusUnauthorized, TaskErrorBody msg), s)))
     \<and> (apiKey = '''' \<or> bearer_token U (c_header_authorization c) = Some apiKey \<longrightarrow>
        serve_task U apiKey repo fmt q c s = task_handler repo fmt q c s)"
  using assms by (auto simp: serve_task_def task_middleware_def APIKeyAuth_def Let_def split: option.splits)

lemma task_api_guard_witness:
  "\<exists>msg. serve_task ascii_only ''k2'' (NewPostgresRepo False) (\<lambda>_. []) GetTasksId put_context (demo_store [])
     = ((StatusUnauthorized, TaskErrorBody msg), demo_store [])"
proof -
  have "bearer_token ascii_only (c_header_authorization put_context) \<noteq> Some ''k2''"
    using bearer_token_built [of ascii_only "''k1''"] by (simp add: put_context_def)
  then show ?thesis
    using task_api_guard [of GetTasksId "''k2''" ascii_only put_context "NewPostgresRepo False" "\<lambda>_. []" "demo_store []"] by simp
qed

end
