(* ===== verification/TaskExclusive.thy ===== *)
theory TaskExclusive
  imports TaskHandlers "HOL-Library.Multiset"
begin

text \<open>
  Exclusive processing: the tasks in flight - being sent, in the channel, or with a worker that is calling
  back - each with the number of times it is there. Every task is in flight at most once and its row says
  QUEUED or PROCESSING, as long as no request of the task API changes the status of a task in flight; a
  rescheduling \<open>PUT\<close> does change it, and then the task is claimed and delivered a second time.
\<close>

section \<open>Tasks in flight\<close>

fun held :: "worker_state \<Rightarrow> string multiset" where
  "held (WorkerBusy t) = {#t_ID t#}"
| "held (WorkerCalling t) = {#t_ID t#}"
| "held _ = {#}"

definition flight :: "'s sched \<Rightarrow> string multiset" where
  "flight S = mset (map t_ID (s_channel S @ sending (s_loop S))) + sum_list (map held (s_workers S))"

text \<open>A request that changes the status of a task in flight.\<close>

inductive reschedules :: "'s TaskScheduler \<Rightarrow> 's sched \<Rightarrow> 's sched \<Rightarrow> bool" for c where
  "(\<And>t. t_ID (f t) = t_ID t) \<Longrightarrow> k \<in># flight S \<Longrightarrow> t_Status (f t) \<noteq> t_Status t \<Longrightarrow>
   reschedules c S (S\<lparr>s_store := snd (tk_Update (ts_repo c) k f (s_store S))\<rparr>)"

inductive calm :: "'s TaskScheduler \<Rightarrow> ('s \<Rightarrow> 's \<Rightarrow> bool) \<Rightarrow> 's \<Rightarrow> 's sched \<Rightarrow> bool" for c E s0 where
  start: "calm c E s0 (Start c s0)"
| step: "calm c E s0 S \<Longrightarrow> \<not> s_crashed S \<Longrightarrow> sched_step E c S S' \<Longrightarrow> \<not> reschedules c S S' \<Longrightarrow> calm c E s0 S'"

lemma calm_reachable: "calm c E s0 S \<Longrightarrow> reachable E c s0 S"
  by (induction rule: calm.induct) (auto intro: reachable.intros)

lemma held_update:
  "i < length ws \<Longrightarrow> sum_list (map held (ws[i := w])) + held (ws ! i) = sum_list (map held ws) + held w"
proof (induction ws arbitrary: i)
  case Nil
  then show ?case by simp
next
  case (Cons x ws)
  then show ?case by (cases i) (simp_all add: ac_simps)
qed

lemma held_member: "i < length ws \<Longrightarrow> held (ws ! i) \<subseteq># sum_list (map held ws)"
  using held_update [of i ws WorkerReady] by (metis held.simps(3) add.right_neutral mset_subset_eq_add_right)

text \<open>A worker that changes its state gives up what it holds and takes up what it will hold.\<close>

lemma flight_set_worker:
  "i < length (s_workers S) \<Longrightarrow> flight (set_worker i w S) + held (s_workers S ! i) = flight S + held w"
  using held_update [of i "s_workers S" w] by (simp add: flight_def add.assoc)

definition exclusive :: "tstore sched \<Rightarrow> bool" where
  "exclusive S \<longleftrightarrow> (\<forall>k. count (flight S) k \<le> 1
     \<and> (k \<in># flight S \<longrightarrow> task_status k (s_store S) \<in> {Some StatusQueued, Some StatusProcessing}))"

lemma exclusive_mono:
  assumes "exclusive S" and "flight S' \<subseteq># flight S"
    and "\<And>k. k \<in># flight S' \<Longrightarrow> task_status k (s_store S) \<in> {Some StatusQueued, Some StatusProcessing} \<Longrightarrow>
           task_status k (s_store S') \<in> {Some StatusQueued, Some StatusProcessing}"
  shows "exclusive S'"
  unfolding exclusive_def
proof (intro allI conjI impI)
  fix k
  show "count (flight S') k \<le> 1"
    using assms(1) mset_subset_eq_count [OF assms(2), of k] le_trans by (fastforce simp: exclusive_def)
next
  fix k
  assume k: "k \<in># flight S'"
  then have "k \<in># flight S" using assms(2) mset_subset_eqD by fast
  then show "task_status k (s_store S') \<in> {Some StatusQueued, Some StatusProcessing}"
    using assms(1,3) k by (simp add: exclusive_def)
qed

section \<open>What the calls do to the status of the tasks\<close>

lemma update_status:
  assumes "Repo_Update rdb k f s = (r, s')" and "\<And>t. t_ID (f t) = t_ID t"
  shows "task_status j s' = task_status j s \<or> j = k \<and> (\<exists>t. tview s k = Some t \<and> task_status k s' = Some (t_Status (f t)))"
proof -
  have "tview s' = tview s \<or> (\<exists>t. tview s k = Some t \<and> tview s' = (tview s)(k \<mapsto> rewritten (tstamp s) (f t) t))"
    using pg_tasks.update_view [of rdb k f s r s'] assms by fastforce
  then show ?thesis by (cases "j = k") (auto simp: task_status_def rewritten_def)
qed

lemma tables_status: "tables (base s') = tables (base s) \<Longrightarrow> task_status k s' = task_status k s"
  by (simp add: task_status_def tview_def)

lemma get_status: "Repo_Get rdb k s = (r, s') \<Longrightarrow> task_status j s' = task_status j s"
  using Get_frame tables_status by blast

lemma dlq_status: "task_status j (snd (DLQ_Save fmt now t s)) = task_status j s"
  using dlq_save_cases [OF prod.collapse [symmetric], of fmt now t s] by (simp add: task_status_def tview_def)

lemma create_status:
  assumes "Repo_Create t s = (r, s')" and "task_status k s = Some st"
  shows "task_status k s' = Some st"
proof -
  let ?row = "stored (stamp (base s)) t"
  let ?stmt = "\<lambda>T. (let (r, rows) = insert_row t_ID ?row (tasks T) in (r, T\<lparr>tasks := rows\<rparr>))"
  obtain q s1 where q: "on_base ?stmt s = (q, s1)" by fastforce
  have "s' = s1" using assms(1) q by (auto simp: Repo_Create_def split: sum.splits db_error.splits if_splits)
  then have "tasks (tables (base s')) = tasks (tables (base s)) \<or> tasks (tables (base s')) = tasks (tables (base s)) @ [?row]"
    using on_base_tables [OF q] by (auto simp: insert_row_def split: if_splits)
  then show ?thesis using assms(2) by (auto simp: task_status_def tview_def row_of_append)
qed

lemma claim_status:
  assumes "tasks_keyed s" and "Repo_ClaimReadyTasks now n s = (r, s')"
    and "task_status k s \<in> {Some StatusQueued, Some StatusProcessing}"
  shows "task_status k s' = task_status k s" and "\<And>ts. r = Inr ts \<Longrightarrow> k \<notin> set (map t_ID ts)"
proof -
  let ?rows = "tasks (tables (base s))"
  let ?ks = "claim_keys t_ID (task_ready now) t_ExecuteAt (row_locked (base s)) n ?rows"
  have key: "keyed t_ID ?rows" using assms(1) by (simp add: tasks_keyed_def)
  note cl = Claim_cases [OF assms(2)]
  have k: "k \<notin> set ?ks"
  proof
    assume "k \<in> set ?ks"
    then obtain t where "t \<in> set ?rows" "t_ID t = k" "task_ready now t" using task_queue.claim_keys_subset by blast
    then have "tview s k = Some t" using row_of_keyed [OF key] by (auto simp: tview_def)
    then show False using assms(3) \<open>task_ready now t\<close> by (auto simp: task_status_def task_ready_def)
  qed
  then have "tview s' k = tview s k"
    using cl by (auto simp: tview_def claim_tasks_def task_queue.claim_row_of)
  then show "task_status k s' = task_status k s" by (simp add: task_status_def)
  show "k \<notin> set (map t_ID ts)" if "r = Inr ts" for ts
    using cl that task_queue.claim_result_keys [OF key] k by (simp add: claim_tasks_def)
qed

lemma task_claim_facts:
  assumes "tasks_keyed s" and "Repo_ClaimReadyTasks now n s = (Inr ts, s')"
  shows "distinct (map t_ID ts)" and "\<And>k. k \<in> set (map t_ID ts) \<Longrightarrow> task_status k s' = Some StatusQueued"
proof -
  have key: "keyed t_ID (tasks (tables (base s)))" using assms(1) by (simp add: tasks_keyed_def)
  show "distinct (map t_ID ts)"
    using Claim_cases [OF assms(2)] task_queue.claim_result_distinct [OF key] by (simp add: claim_tasks_def)
  show "task_status k s' = Some StatusQueued" if "k \<in> set (map t_ID ts)" for k
  proof -
    from that obtain t where t: "t \<in> set ts" "k = t_ID t" by auto
    show ?thesis by (rule claimed_task [OF assms t(1)]) (simp add: t(2) task_status_def mark_queued_def)
  qed
qed

section \<open>Every step keeps the tasks in flight exclusive\<close>

lemma exclusive_claim:
  assumes c: "ts_repo c = NewPostgresRepo rdb" and x: "exclusive S" and k: "tasks_keyed (s_store S)"
    and ready: "s_loop S = LoopReady limit"
  shows "exclusive (claim_ready c now limit S)" (is "exclusive ?S")
proof -
  obtain r s where r: "Repo_ClaimReadyTasks now limit (s_store S) = (r, s)" by fastforce
  have old: "task_status j s \<in> {Some StatusQueued, Some StatusProcessing}" "r = Inr ts \<Longrightarrow> j \<notin> set (map t_ID ts)"
    if "j \<in># flight S" for j ts
    using claim_status [OF k r, of j] x that by (simp_all add: exclusive_def)
  show ?thesis
  proof (cases r)
    case (Inl e)
    then have "?S = S\<lparr>s_store := s, s_loop := LoopWaiting\<rparr>" using r c by (simp add: claim_ready_def)
    then show ?thesis using old(1) ready by (intro exclusive_mono [OF x]) (simp_all add: flight_def)
  next
    case (Inr ts)
    then have t: "?S = S\<lparr>s_store := s, s_loop := LoopSending ts, h_claimed := h_claimed S @ ts\<rparr>"
      using r c by (simp add: claim_ready_def)
    have f: "flight ?S = flight S + mset (map t_ID ts)" by (simp add: t flight_def ready)
    note claimed = task_claim_facts [OF k r [unfolded Inr]]
    show ?thesis
      unfolding exclusive_def
    proof (intro allI)
      fix j
      show "count (flight ?S) j \<le> 1 \<and> (j \<in># flight ?S \<longrightarrow>
          task_status j (s_store ?S) \<in> {Some StatusQueued, Some StatusProcessing})"
      proof (cases "j \<in> set (map t_ID ts)")
        case True
        then have "j \<notin># flight S" using old(2) [OF _ Inr] by blast
        then have "count (flight ?S) j = 1"
          using True claimed(1) by (simp add: f not_in_iff distinct_count_atmost_1 del: mset_map)
        moreover have "task_status j s = Some StatusQueued" using True claimed(2) by auto
        ultimately show ?thesis by (simp add: t)
      next
        case False
        then have "j \<notin># mset (map t_ID ts)" by simp
        then have "count (flight ?S) j = count (flight S) j" by (simp add: f not_in_iff del: mset_map)
        moreover have "j \<in># flight ?S \<Longrightarrow> j \<in># flight S" using False by (simp add: f)
        ultimately show ?thesis using x old(1) [of j] by (simp add: t exclusive_def)
      qed
    qed
  qed
qed

text \<open>A worker that moves on: the statuses change at most for the task it held, to one that suits what it holds then.\<close>

lemma exclusive_worker:
  assumes "exclusive S" and i: "i < length (s_workers S)" and h: "held (s_workers S ! i) = {#k#}"
    and w: "held w = {#} \<or> held w = {#k#} \<and> task_status k s \<in> {Some StatusQueued, Some StatusProcessing}"
    and other: "\<And>j. j \<noteq> k \<Longrightarrow> task_status j s = task_status j (s_store S)"
  shows "exclusive (set_worker i w (S\<lparr>s_store := s\<rparr>))"
proof (rule exclusive_mono [OF assms(1)])
  let ?S' = "set_worker i w (S\<lparr>s_store := s\<rparr>)"
  have f: "flight ?S' + {#k#} = flight S + held w"
    using flight_set_worker [of i "S\<lparr>s_store := s\<rparr>" w] i h by (simp add: flight_def)
  then show "flight ?S' \<subseteq># flight S"
    using w by (auto intro: mset_subset_eq_add_left) (metis mset_subset_eq_add_left add_mset_add_single)
  fix j
  assume j: "j \<in># flight ?S'" "task_status j (s_store S) \<in> {Some StatusQueued, Some StatusProcessing}"
  have gone: "k \<notin># flight ?S'" if "held w = {#}"
  proof -
    have "flight S = add_mset k (flight ?S')" using f that by simp
    then have "count (flight ?S') k = 0" using assms(1) by (auto simp: exclusive_def dest: spec [of _ k])
    then show ?thesis by (simp add: not_in_iff)
  qed
  have s: "s_store ?S' = s" by (simp add: set_worker_def)
  show "task_status j (s_store ?S') \<in> {Some StatusQueued, Some StatusProcessing}"
  proof (cases "j = k")
    case True
    then have "held w \<noteq> {#}" using j(1) gone by blast
    then show ?thesis using w True by (simp add: s)
  next
    case False
    then show ?thesis using j(2) other by (simp add: s)
  qed
qed

lemma exclusive_step:
  assumes c: "ts_repo c = NewPostgresRepo rdb" "ts_dlqRepo c = NewPostgresDLQRepository fmt"
    and x: "exclusive S" and k: "tasks_keyed (s_store S)"
    and step: "sched_step world c S S'" "\<not> reschedules c S S'"
  shows "exclusive S'"
  using step(1)
proof (cases rule: sched_step.cases)
  case tick
  then show ?thesis by (intro exclusive_mono [OF x]) (simp_all add: tick_def Let_def flight_def)
next
  case (claim_ready limit now)
  then show ?thesis using exclusive_claim c x k by simp
next
  case (send t ts)
  then show ?thesis by (intro exclusive_mono [OF x]) (auto simp: send_def flight_def)
next
  case sent
  then show ?thesis by (intro exclusive_mono [OF x]) (simp_all add: flight_def)
next
  case loop_exit
  then show ?thesis by (intro exclusive_mono [OF x]) (simp_all add: flight_def)
next
  case (take i t ts)
  have "flight S' = flight S"
    using flight_set_worker [of i "S\<lparr>s_channel := ts, h_taken := h_taken S @ [t]\<rparr>" "WorkerBusy t"] take
    by (simp add: flight_def)
  then show ?thesis using take by (intro exclusive_mono [OF x]) (simp_all add: set_worker_def)
next
  case (begin_work i t)
  obtain r s where u: "Repo_Update rdb (t_ID t) (set_status StatusProcessing) (s_store S) = (r, s)" by fastforce
  note st = update_status [OF u]
  have other: "task_status j s = task_status j (s_store S)" if "j \<noteq> t_ID t" for j using st [of j] that by simp
  have "task_status (t_ID t) (s_store S) \<in> {Some StatusQueued, Some StatusProcessing}"
    using x held_member [OF begin_work(2)] begin_work(3) by (auto simp: exclusive_def flight_def mset_subset_eqD)
  then have new: "task_status (t_ID t) s \<in> {Some StatusQueued, Some StatusProcessing}" using st [of "t_ID t"] by auto
  have "S' = set_worker i (case r of Inl _ \<Rightarrow> WorkerReady | Inr _ \<Rightarrow> WorkerCalling t) (S\<lparr>s_store := s\<rparr>)"
    using begin_work(1) u c by (simp add: begin_work_def split: sum.split)
  then show ?thesis
    using exclusive_worker [OF x begin_work(2), where s = s and k = "t_ID t"] begin_work(3) new other
    by (cases r) simp_all
next
  case (finish_call i t env)
  let ?f = "if executeCallback (we_do env) t then set_status StatusCompleted else failure_update (we_big env) (we_now env)"
  obtain r s where u: "Repo_Update rdb (t_ID t) ?f (s_store S) = (r, s)" by fastforce
  have st: "task_status j s = task_status j (s_store S)" if "j \<noteq> t_ID t" for j
    using update_status [OF u, of j] that by (simp split: if_splits)
  obtain w where "S' = set_worker i w (S\<lparr>s_store := s\<rparr>)" "held w = {#}"
    using finish_call(1) u c by (auto simp: finish_call_def split: if_splits sum.splits)
  then show ?thesis
    using exclusive_worker [OF x finish_call(2), where s = s and k = "t_ID t" and w = w] finish_call(3) st by simp
next
  case (inspect_failure i t env)
  have "flight S' = flight S"
    using flight_set_worker [of i S WorkerReady] inspect_failure
    by (simp add: inspect_failure_def flight_def set_worker_def)
  moreover have "task_status j (s_store S') = task_status j (s_store S)" for j
    using inspect_failure(1) c get_status dlq_status
    by (auto simp: inspect_failure_def set_worker_def split: prod.split sum.split)
  ultimately show ?thesis by (intro exclusive_mono [OF x]) simp_all
next
  case (leave i)
  have "flight S' = flight S" using flight_set_worker [of i S WorkerGone] leave by simp
  then show ?thesis using leave by (intro exclusive_mono [OF x]) (simp_all add: set_worker_def)
next
  case cancel
  then show ?thesis by (intro exclusive_mono [OF x]) (simp_all add: flight_def)
next
  case close_channel
  then show ?thesis by (intro exclusive_mono [OF x]) (simp_all add: flight_def)
next
  case (http_create t)
  then show ?thesis using c create_status [OF prod.collapse [symmetric]]
    by (intro exclusive_mono [OF x]) (auto simp: flight_def)
next
  case (http_get j)
  then show ?thesis using c get_status [OF prod.collapse [symmetric]]
    by (intro exclusive_mono [OF x]) (simp_all add: flight_def)
next
  case (http_update f j)
  obtain r s where u: "Repo_Update rdb j f (s_store S) = (r, s)" by fastforce
  have "j \<notin># flight S \<or> (\<forall>t. t_Status (f t) = t_Status t)"
    using step(2) http_update reschedules.intros [of f j S _ c] by blast
  then have "task_status i s = task_status i (s_store S)" if "i \<in># flight S" for i
    using update_status [OF u, of i] http_update(2) that by (auto simp: task_status_def)
  then show ?thesis using http_update u c by (intro exclusive_mono [OF x]) (simp_all add: flight_def)
next
  case (world s)
  have "tables (base s) = tables (base (s_store S))" using world(2) by (simp add: world_def)
  note st = tables_status [OF this]
  show ?thesis using world(1) by (intro exclusive_mono [OF x]) (simp_all add: flight_def st)
qed

lemma start_flight: "flight (Start c s0) = {#}"
proof -
  have "sum_list (map held (replicate n WorkerReady)) = {#}" for n by (induction n) simp_all
  then show ?thesis by (simp add: flight_def Start_def)
qed

lemma calm_exclusive:
  assumes "calm c world s0 S" and "ts_repo c = NewPostgresRepo rdb" and "ts_dlqRepo c = NewPostgresDLQRepository fmt"
    and "tasks_keyed s0"
  shows "exclusive S"
  using assms(1)
proof (induction rule: calm.induct)
  case start
  show ?case by (simp add: exclusive_def start_flight)
next
  case (step S S')
  have "tasks_keyed (s_store S)"
    using pg_source.reachable_inv [OF calm_reachable [OF step(1)] assms(2-4)] by (simp add: pg_source.sched_inv_def)
  then show ?case using exclusive_step [OF assms(2,3) step(5)] step(3,4) by blast
qed

section \<open>Properties\<close>

text \<open>A \<open>PUT\<close> that sets no new time changes no status.\<close>

lemma apply_update_calm: "up_ExecuteAt p = None \<Longrightarrow> t_Status (apply_update p t) = t_Status t"
  by (simp add: apply_update_def Let_def split: option.splits)

text \<open>
  C3. No task is processed twice at the same time: in every state the service reaches without a request
  that changes the status of a task in flight - with any number of workers, faults of the database at any
  call, failing callbacks, retries, creations and reads in any order - each task is at most once among those
  being sent, waiting in the channel or with a worker before or during its callback, and its row says QUEUED
  or PROCESSING.
\<close>

theorem no_double_processing:
  assumes "calm (NewTaskScheduler (NewPostgresRepo rdb) (NewPostgresDLQRepository fmt) wc qc) world s0 S"
    and "tasks_keyed s0"
  shows "count (flight S) k \<le> 1
     \<and> (k \<in># flight S \<longrightarrow> task_status k (s_store S) \<in> {Some StatusQueued, Some StatusProcessing})"
  using calm_exclusive [OF assms(1) _ _ assms(2), of rdb fmt] by (simp add: NewTaskScheduler_def exclusive_def)

lemma due_fields:
  "chan_cap demo_scheduler = 10" "\<not> s_crashed (Start demo_scheduler due_store)" "s_channel (Start demo_scheduler due_store) = []"
  "\<not> s_closed (Start demo_scheduler due_store)" "s_loop (Start demo_scheduler due_store) = LoopWaiting"
  "h_claimed (Start demo_scheduler due_store) = []" "sum_list (map held (s_workers (Start demo_scheduler due_store))) = {#}"
  using start_flight [of demo_scheduler due_store]
  by (simp_all add: Start_def flight_def demo_scheduler_def NewTaskScheduler_def chan_cap_def)

definition put_now :: updatePayload where
  "put_now = \<lparr>up_Title = None, up_Description = None, up_ExecuteAt = Some 1\<rparr>"

lemma put_now_update:
  "snd (tk_Update (ts_repo demo_scheduler) ''k'' (apply_update put_now) (demo_store [demo_task ''k'' StatusQueued 0 3])) = due_store"
proof -
  have up: "all_up (demo_store [demo_task ''k'' StatusQueued 0 3])" by (simp add: demo_store_facts)
  show ?thesis
    by (simp add: demo_scheduler_def NewTaskScheduler_def Update_up [OF up] demo_view)
       (simp add: demo_store_def due_store_def demo_task_def apply_update_def put_now_def rewritten_def update_key_def update_where_def)
qed

lemma due_claim_again:
  "tk_ClaimReadyTasks (ts_repo demo_scheduler) 5 9 due_store =
     (Inr [demo_task ''k'' StatusQueued 0 3], demo_store [demo_task ''k'' StatusQueued 0 3])"
  by (simp add: demo_scheduler_def NewTaskScheduler_def Repo_ClaimReadyTasks_def due_store_def demo_store_def on_base_def
      exec_sql_no_faults claim_tasks_def claim_rows_def claim_keys_def task_ready_def update_where_def mark_queued_def
      rows_err_def demo_task_def Let_def)

text \<open>
  The exception is real: a task that is rescheduled for now while it is being enqueued is PENDING again,
  the next tick claims it again, and the service has it twice.
\<close>

lemma reschedule_doubles:
  "\<exists>S. reachable world demo_scheduler due_store S \<and> flight S = {#''k'', ''k''#} \<and> s_channel S = [demo_task ''k'' StatusQueued 0 3]"
proof -
  let ?t = "demo_task ''k'' StatusQueued 0 3"
  let ?S0 = "Start demo_scheduler due_store"
  let ?S1 = "?S0\<lparr>s_store := demo_store [?t], s_loop := LoopSending [?t], h_claimed := h_claimed ?S0 @ [?t]\<rparr>"
  let ?S2 = "?S1\<lparr>s_store := due_store\<rparr>"
  let ?S3 = "send demo_scheduler ?t [] ?S2"
  let ?S4 = "?S3\<lparr>s_loop := LoopWaiting\<rparr>"
  let ?S5 = "?S4\<lparr>s_store := demo_store [?t], s_loop := LoopSending [?t], h_claimed := h_claimed ?S4 @ [?t]\<rparr>"
  note sel = send_def due_fields
  have id: "t_ID ?t = ''k''" by (simp add: demo_task_def)
  have "reachable world demo_scheduler due_store ?S1"
    by (intro tick_claims [OF reachable.start, where now = 5]) (simp_all add: due_fields due_start due_claim)
  then have "reachable world demo_scheduler due_store ?S2"
    by (rule reachable.step) (use sched_step.http_update [of "apply_update put_now" world demo_scheduler ?S1 "''k''"]
        in \<open>simp_all add: due_fields put_now_update\<close>)
  then have "reachable world demo_scheduler due_store ?S3"
    by (rule reachable.step [OF _ _ sched_step.send]) (simp_all add: due_fields)
  then have "reachable world demo_scheduler due_store ?S4"
    by (rule reachable.step [OF _ _ sched_step.sent]) (simp_all add: sel)
  then have "reachable world demo_scheduler due_store ?S5"
    by (rule tick_claims [where now = 5]) (simp_all add: sel due_claim_again)
  moreover have "flight ?S5 = {#''k'', ''k''#}" "s_channel ?S5 = [?t]" by (simp_all add: sel flight_def id)
  ultimately show ?thesis by blast
qed

theorem no_double_processing_witness:
  "\<exists>S. calm demo_scheduler world due_store S \<and> ''k'' \<in># flight S \<and> count (flight S) ''k'' \<le> 1
     \<and> task_status ''k'' (s_store S) \<in> {Some StatusQueued, Some StatusProcessing}"
proof -
  let ?I = "Start demo_scheduler due_store" and ?t = "demo_task ''k'' StatusQueued 0 3"
  let ?J = "?I\<lparr>s_loop := LoopReady 10\<rparr>"
  let ?S = "?J\<lparr>s_store := demo_store [?t], s_loop := LoopSending [?t], h_claimed := h_claimed ?J @ [?t]\<rparr>"
  have calm: "\<not> reschedules demo_scheduler ?I S'" "\<not> reschedules demo_scheduler ?J S'" for S'
  proof -
    have "flight ?J = {#}" using start_flight [of demo_scheduler due_store] by (simp add: flight_def due_fields)
    then show "\<not> reschedules demo_scheduler ?I S'" "\<not> reschedules demo_scheduler ?J S'"
      by (simp_all add: reschedules.simps start_flight)
  qed
  have "tick demo_scheduler ?I = ?J" by (simp add: tick_def due_fields)
  then have r1: "calm demo_scheduler world due_store ?J"
    using calm.step [OF calm.start _ sched_step.tick] calm(1) due_fields by metis
  have "claim_ready demo_scheduler 5 10 ?J = ?S" by (simp add: claim_ready_def due_start due_claim)
  then have r: "calm demo_scheduler world due_store ?S"
    using calm.step [OF r1 _ sched_step.claim_ready [of _ 10 _ _ 5] calm(2)] due_fields(2) by simp
  have k: "tasks_keyed due_store" by (simp add: tasks_keyed_def due_store_def demo_store_facts keyed_def)
  have f: "''k'' \<in># flight ?S" by (simp add: due_fields flight_def demo_task_def)
  show ?thesis
    using no_double_processing [of False "\<lambda>_. []" 1 0 due_store ?S "''k''", folded demo_scheduler_def, OF r k] r f by blast
qed

end
