(* ===== verification/TaskExit.thy ===== *)
theory TaskExit
  imports TaskScheduler
begin

text \<open>
  The end of \<open>cmd/task-scheduler/main.go\<close>: \<open>main\<close> waits for the end of the context, stops the scheduler - which
  cancels the loop, closes the channel and waits for the workers - then shuts the HTTP server down and
  returns, or exits with an error when the server's timeout passes.
\<close>

section \<open>Stages of main\<close>

datatype task_stage = TaskServing | TaskStopping | TaskDraining | TaskExited bool

text \<open>
  Until the process exits the scheduler and the handlers go on; of the two parts of \<open>Stop\<close> that
  \<open>sched_step\<close> allows at any time, the close is \<open>main\<close>'s own.
\<close>

inductive task_main_step ::
  "('s \<Rightarrow> 's \<Rightarrow> bool) \<Rightarrow> 's TaskScheduler \<Rightarrow> 's sched \<times> task_stage \<Rightarrow> 's sched \<times> task_stage \<Rightarrow> bool" for E c where
  run: "sched_step E c S S' \<Longrightarrow> s_closed S' = s_closed S \<Longrightarrow> g \<notin> range TaskExited \<Longrightarrow> task_main_step E c (S, g) (S', g)"
| stop: "s_cancelled S \<Longrightarrow> task_main_step E c (S, TaskServing) (S\<lparr>s_closed := True\<rparr>, TaskStopping)"
| joined: "set (s_workers S) \<subseteq> {WorkerGone} \<Longrightarrow> task_main_step E c (S, TaskStopping) (S, TaskDraining)"
| shut: "task_main_step E c (S, TaskDraining) (S, TaskExited in_time)"

inductive task_main :: "('s \<Rightarrow> 's \<Rightarrow> bool) \<Rightarrow> 's TaskScheduler \<Rightarrow> 's \<Rightarrow> 's sched \<times> task_stage \<Rightarrow> bool" for E c s0 where
  start: "task_main E c s0 (Start c s0, TaskServing)"
| step: "task_main E c s0 (S, g) \<Longrightarrow> \<not> s_crashed S \<Longrightarrow> task_main_step E c (S, g) (S', g') \<Longrightarrow> task_main E c s0 (S', g')"

inductive_simps task_main_step_iff: "task_main_step E c (S, g) (S', g')"

lemma task_main_moves:
  assumes "task_main_step E c (S, g) (S', g')"
  obtains (run) "sched_step E c S S'" "s_closed S' = s_closed S" "g' = g"
    | (stop) "s_cancelled S" "S' = S\<lparr>s_closed := True\<rparr>" "g = TaskServing" "g' = TaskStopping"
    | (joined) "set (s_workers S) \<subseteq> {WorkerGone}" "S' = S" "g = TaskStopping" "g' = TaskDraining"
    | (shut) in_time where "S' = S" "g = TaskDraining" "g' = TaskExited in_time"
  using assms by (auto simp: task_main_step_iff)

section \<open>Invariants\<close>

text \<open>A worker leaves only an empty channel that is closed, so nothing is sent any more.\<close>

definition left_empty :: "'s sched \<Rightarrow> bool" where
  "left_empty S \<longleftrightarrow> (WorkerGone \<in> set (s_workers S) \<longrightarrow> s_closed S \<and> s_channel S = [])"

lemma gone_kept:
  assumes "WorkerGone \<in> set ((s_workers S)[i := w])" and "w \<noteq> WorkerGone"
  shows "WorkerGone \<in> set (s_workers S)"
  using assms set_update_subset_insert [of "s_workers S" i w] by auto

lemma left_empty_step:
  assumes step: "sched_step E c S S'" and inv: "left_empty S" and live: "\<not> s_crashed S"
  shows "left_empty S'"
  using step
proof (cases rule: sched_step.cases)
  case tick
  then show ?thesis using inv by (auto simp: left_empty_def tick_def Let_def)
next
  case (claim_ready limit now)
  then show ?thesis using inv by (auto simp: left_empty_def claim_ready_def split: prod.split sum.split)
next
  case (send t ts)
  then show ?thesis using inv by (auto simp: left_empty_def send_def)
next
  case (take i t ts)
  then have "WorkerGone \<notin> set (s_workers S)" using inv by (auto simp: left_empty_def)
  then show ?thesis using take(1) gone_kept [of S i "WorkerBusy t"] by (auto simp: left_empty_def set_worker_def)
next
  case (begin_work i t)
  then show ?thesis using inv gone_kept [of S i]
    by (auto simp: left_empty_def begin_work_def set_worker_def split: prod.split sum.split)
next
  case (finish_call i t env)
  then show ?thesis using inv gone_kept [of S i]
    by (auto simp: left_empty_def finish_call_def set_worker_def split: prod.split sum.split)
next
  case (inspect_failure i t env)
  then show ?thesis using inv gone_kept [of S i] by (auto simp: left_empty_def inspect_failure_def set_worker_def)
qed (use inv in \<open>auto simp: left_empty_def set_worker_def\<close>)

lemma all_gone_step:
  assumes step: "sched_step E c S S'" and gone: "set (s_workers S) \<subseteq> {WorkerGone}"
  shows "s_workers S' = s_workers S"
proof -
  have "s_workers S ! i = WorkerGone" if "i < length (s_workers S)" for i using gone nth_mem [OF that] by auto
  then have "w = WorkerGone" if "i < length (s_workers S)" "s_workers S ! i = w" for i w using that by simp
  with step show ?thesis
    by (cases rule: sched_step.cases) (fastforce simp: tick_def claim_ready_def send_def Let_def split: prod.split sum.split)+
qed

lemma worker_count: "reachable E c s0 S \<Longrightarrow> length (s_workers S) = nat (ts_workerCount c)"
proof (induction rule: reachable.induct)
  case start
  then show ?case by (simp add: Start_def)
next
  case (step S S')
  have "length (s_workers S') = length (s_workers S)"
    using step(3)
    by (cases rule: sched_step.cases)
       (auto simp: tick_def claim_ready_def send_def begin_work_def finish_call_def inspect_failure_def set_worker_def Let_def split: prod.split sum.split)
  then show ?case using step.IH by simp
qed

definition main_inv :: "'s sched \<times> task_stage \<Rightarrow> bool" where
  "main_inv M = (case M of (S, g) \<Rightarrow> left_empty S
     \<and> (g = TaskServing \<longleftrightarrow> \<not> s_closed S) \<and> (g \<notin> {TaskServing, TaskStopping} \<longrightarrow> set (s_workers S) \<subseteq> {WorkerGone}))"

lemma main_inv_step:
  assumes "task_main_step E c (S, g) (S', g')" and inv: "main_inv (S, g)" and "\<not> s_crashed S"
  shows "main_inv (S', g')"
  using assms(1)
proof (cases rule: task_main_moves)
  case run
  have "left_empty S" using inv by (simp add: main_inv_def)
  then have "left_empty S'" using left_empty_step [OF run(1)] assms(3) by simp
  moreover have "set (s_workers S') \<subseteq> {WorkerGone}" if "set (s_workers S) \<subseteq> {WorkerGone}"
    using all_gone_step [OF _ that] run that by metis
  ultimately show ?thesis using run inv by (auto simp: main_inv_def)
qed (use inv in \<open>auto simp: main_inv_def left_empty_def\<close>)

text \<open>The scheduler of a run of \<open>main\<close> is one of the runs of the scheduler.\<close>

lemma task_main_reachable: "task_main E c s0 (S, g) \<Longrightarrow> reachable E c s0 S \<and> main_inv (S, g)"
proof (induction "(S, g)" arbitrary: S g rule: task_main.induct)
  case start
  have "WorkerGone \<notin> set (s_workers (Start c s0))" "\<not> s_closed (Start c s0)" by (simp_all add: Start_def)
  then show ?case by (simp add: reachable.start main_inv_def left_empty_def)
next
  case (step S g S' g')
  note ih = step(2)
  have "reachable E c s0 S'"
    using step(4)
  proof (cases rule: task_main_moves)
    case run
    then show ?thesis using reachable.step [OF _ step(3)] ih by blast
  next
    case stop
    then have "\<not> s_closed S" using ih by (simp add: main_inv_def)
    then show ?thesis using reachable.step [OF _ step(3) sched_step.close_channel] ih stop by simp
  qed (use ih in simp_all)
  then show ?case using main_inv_step [OF step(4) _ step(3)] ih by blast
qed

section \<open>Property\<close>

text \<open>
  C12. An orderly exit loses nothing from the queue: when \<open>main\<close> of the task scheduler has waited for the workers,
  all of them have returned, each after the task in its hands was finished, the channel is closed and
  empty, and of all tasks ever claimed only those that the loop was still about to send have not been
  received by a worker.
\<close>

theorem exit_drained:
  assumes c: "c = NewTaskScheduler (NewPostgresRepo rdb) (NewPostgresDLQRepository fmt) wc qc"
    and "tasks_keyed s0" and "task_main world c s0 (S, g)" and "g \<in> {TaskDraining, TaskExited in_time}"
  shows "set (s_workers S) = {WorkerGone} \<and> s_closed S \<and> s_channel S = [] \<and> h_claimed S = h_taken S @ sending (s_loop S)"
proof -
  note r = task_main_reachable [OF assms(3)]
  have "ts_repo c = NewPostgresRepo rdb" "ts_dlqRepo c = NewPostgresDLQRepository fmt" by (simp_all add: c NewTaskScheduler_def)
  then have h: "h_claimed S = h_taken S @ s_channel S @ sending (s_loop S)"
    using pg_source.reachable_inv [OF conjunct1 [OF r] _ _ assms(2)] by (simp add: pg_source.sched_inv_def)
  have "length (s_workers S) = nat (ts_workerCount c)"
    using conjunct1 [OF r] by (rule worker_count)
  then have "s_workers S \<noteq> []" by (auto simp: c NewTaskScheduler_def split: if_splits)
  moreover have "set (s_workers S) \<subseteq> {WorkerGone}" using r assms(4) by (auto simp: main_inv_def)
  ultimately have "set (s_workers S) = {WorkerGone}" by (cases "s_workers S") auto
  with r h show ?thesis by (simp add: main_inv_def left_empty_def)
qed


definition exited :: "tstore sched" where
  "exited = set_worker 0 WorkerGone (Start demo_scheduler due_store\<lparr>s_cancelled := True, s_closed := True\<rparr>)"

lemma exited_run: "task_main world demo_scheduler due_store (exited, TaskDraining)"
proof -
  define S where "S = Start demo_scheduler due_store"
  have s: "\<not> s_crashed S" "s_channel S = []" "s_workers S = [WorkerReady]"
    by (simp_all add: S_def Start_def demo_scheduler_def NewTaskScheduler_def)
  have e: "exited = set_worker 0 WorkerGone (S\<lparr>s_cancelled := True, s_closed := True\<rparr>)" by (simp add: exited_def S_def)
  have es: "\<not> s_crashed exited" "s_closed exited" "s_workers exited = [WorkerGone]" by (simp_all add: e set_worker_def s)
  have r0: "task_main world demo_scheduler due_store (S, TaskServing)" unfolding S_def by (rule task_main.start)
  have "task_main_step world demo_scheduler (S, TaskServing) (S\<lparr>s_cancelled := True\<rparr>, TaskServing)"
    by (rule task_main_step.run [OF sched_step.cancel]) auto
  from task_main.step [OF r0 s(1) this] have r1: "task_main world demo_scheduler due_store (S\<lparr>s_cancelled := True\<rparr>, TaskServing)" .
  have "task_main_step world demo_scheduler (S\<lparr>s_cancelled := True\<rparr>, TaskServing) (S\<lparr>s_cancelled := True\<rparr>\<lparr>s_closed := True\<rparr>, TaskStopping)"
    by (rule task_main_step.stop) simp
  from task_main.step [OF r1 _ this] s(1)
  have r2: "task_main world demo_scheduler due_store (S\<lparr>s_cancelled := True, s_closed := True\<rparr>, TaskStopping)" by simp
  have "sched_step world demo_scheduler (S\<lparr>s_cancelled := True, s_closed := True\<rparr>) exited"
    unfolding e by (rule sched_step.leave) (simp_all add: s)
  then have "task_main_step world demo_scheduler (S\<lparr>s_cancelled := True, s_closed := True\<rparr>, TaskStopping) (exited, TaskStopping)"
    by (rule task_main_step.run) (use es(2) in auto)
  from task_main.step [OF r2 _ this] s(1) have r3: "task_main world demo_scheduler due_store (exited, TaskStopping)" by simp
  have "task_main_step world demo_scheduler (exited, TaskStopping) (exited, TaskDraining)"
    by (rule task_main_step.joined) (simp add: es(3))
  from task_main.step [OF r3 es(1) this] show ?thesis .
qed

theorem exit_drained_witness: "set (s_workers exited) = {WorkerGone} \<and> h_claimed exited = h_taken exited @ sending (s_loop exited)"
proof -
  have "tasks_keyed due_store" by (simp add: tasks_keyed_def due_store_def demo_store_facts keyed_def)
  from exit_drained [OF demo_scheduler_def this exited_run] show ?thesis by blast
qed

end
