(* ===== verification/TaskCache.thy ===== *)
theory TaskCache
  imports TaskScheduler
begin

text \<open>
  The parts of \<open>Get\<close> of \<open>internal/scheduler/repository/postgres.go\<close>: \<open>TaskScheduler\<close> takes a call of the
  repository as one step, but a read that misses the cache is two Redis commands around a query, and what
  others do between the query and the write to Redis decides what later reads see.
\<close>

definition cache_lookup :: "string \<Rightarrow> tstore \<Rightarrow> Task option \<times> tstore" where
  "cache_lookup ident s = (let (ok, s) = redis_cmd s in (if ok then live_entry s (cacheKey ident) else None, s))"

definition read_row :: "string \<Rightarrow> tstore \<Rightarrow> (task_error + Task) \<times> tstore" where
  "read_row ident s =
     (case on_base (\<lambda>T. (select_task ident T, T)) s of
        (Inl e, s) \<Rightarrow> (Inl (if e = ErrNoRows then ErrTaskNotFound else repo_error e), s)
      | (Inr t, s) \<Rightarrow> (Inr t, s))"

definition cache_write :: "string \<Rightarrow> Task \<Rightarrow> tstore \<Rightarrow> tstore" where
  "cache_write ident t s =
     (let (ok, s) = redis_cmd s
      in if ok then s\<lparr>cache := (cache s)(cacheKey ident \<mapsto> (t, redis_now s + cacheTTL))\<rparr> else s)"

text \<open>A \<open>Get\<close> of another goroutine; \<open>f\<close> is what happens between its query and its write to Redis.\<close>

definition Get_around :: "(tstore \<Rightarrow> tstore) \<Rightarrow> string \<Rightarrow> tstore \<Rightarrow> (task_error + Task) \<times> tstore" where
  "Get_around f ident s =
     (case cache_lookup ident s of
        (Some task, s) \<Rightarrow> (Inr task, f s)
      | (None, s) \<Rightarrow>
          (case read_row ident s of
             (Inl e, s) \<Rightarrow> (Inl e, f s)
           | (Inr t, s) \<Rightarrow> (Inr t, cache_write ident t (f s))))"

lemma Get_parts: "Get_around id ident s = Repo_Get True ident s"
  by (simp add: Get_around_def Repo_Get_def cache_lookup_def read_row_def cache_write_def Let_def
      split: prod.splits sum.splits option.splits)

lemma cache_write_up:
  assumes "all_up s"
  shows "all_up (cache_write k t s)" and "tview (cache_write k t s) = tview s" and "tdead (cache_write k t s) = tdead s"
    and "live_entry (cache_write k t s) (cacheKey k) = Some t"
    and "later < redis_now (cache_write k t s) + cacheTTL \<Longrightarrow> live_entry (cache_write k t s\<lparr>redis_now := later\<rparr>) (cacheKey k) = Some t"
    and "all_up (cache_write k t s\<lparr>redis_now := later\<rparr>)"
  using assms
  by (simp_all add: cache_write_def all_up_def no_faults_def tview_def [abs_def] tdead_def live_entry_def cacheTTL_def
      minute_def second_def)

lemma Get_cached:
  assumes "all_up s" and "live_entry s (cacheKey k) = Some t"
  shows "Repo_Get True k s = (Inr t, s)"
  using assms by (simp add: Repo_Get_def)

lemma Get_around_miss:
  assumes "all_up s" and "tview s k = Some t" and "live_entry s (cacheKey k) = None"
  shows "Get_around f k s = (Inr t, cache_write k t (f s))"
  using assms by (simp add: Get_around_def cache_lookup_def read_row_def on_base_run select_task_def tview_def)

text \<open>The update after a failed callback, when the services are up and the retries are used up.\<close>

lemma last_failure:
  assumes c: "c = NewTaskScheduler (NewPostgresRepo True) D wc qc" and up: "all_up (s_store S)"
    and t0: "tview (s_store S) (t_ID t) = Some t0" and fails: "\<not> executeCallback (we_do env) t"
    and retries: "0 \<le> t_RetryCount t0" "t_RetryCount t0 < max_int64" "t_MaxRetries t0 \<le> t_RetryCount t0"
    and s: "s = s_store (finish_call c env i t S)"
  shows "all_up s \<and> task_status (t_ID t) s = Some StatusFailed \<and> tdead s = tdead (s_store S)"
proof -
  let ?f = "failure_update (we_big env) (we_now env)"
  have "t_ID t0 = t_ID t" using tview_id [OF t0] .
  moreover have "t_Status (?f t0) = StatusFailed"
    using retries wrap64_id [of "t_RetryCount t0 + 1"] by (simp add: failure_update_def min_int64_def)
  moreover obtain r s' where u: "Repo_Update True (t_ID t) ?f (s_store S) = (r, s')" by fastforce
  moreover have "all_up s'" using pg_tasks.update_reliable [of True "t_ID t" ?f "s_store S" r s'] u up by simp
  moreover have "tdead s' = tdead (s_store S)"
    using pg_tasks.update_frame [of True "t_ID t" ?f "s_store S" r s'] u by simp
  moreover have "s = s'" using u fails by (cases r) (simp_all add: s c finish_call_def NewTaskScheduler_def set_worker_def)
  ultimately show ?thesis
    using pg_tasks.update_view [of True "t_ID t" ?f "s_store S" r s'] up t0
    by (auto simp: task_status_def rewritten_def Update_up)
qed

section \<open>Property\<close>

text \<open>
  C35. A read can keep a dead task from the archive, with nothing failing: when a client's \<open>Get\<close> has queried the
  row before the worker's last update and writes its copy to Redis after it, the worker reads that copy
  back, sees no FAILED task and does not archive it; and unless the task is written again, every read until
  the copy expires, ten minutes after the write, answers with the status from before.
\<close>

theorem overlapping_read_skips_archive:
  assumes c: "c = NewTaskScheduler (NewPostgresRepo True) (NewPostgresDLQRepository fmt) wc qc"
    and "all_up (s_store S)" and "tview (s_store S) (t_ID t) = Some t0" and "t_Status t0 \<noteq> StatusFailed"
    and "live_entry (s_store S) (cacheKey (t_ID t)) = None" and "\<not> executeCallback (we_do env) t"
    and "0 \<le> t_RetryCount t0" and "t_RetryCount t0 < max_int64" and "t_MaxRetries t0 \<le> t_RetryCount t0"
    and read: "Get_around (\<lambda>s. s_store (finish_call c env i t (S\<lparr>s_store := s\<rparr>))) (t_ID t) (s_store S) = (r, s1)"
    and s2: "s2 = s_store (inspect_failure c env i t (S\<lparr>s_store := s1\<rparr>))"
  shows "r = Inr t0 \<and> task_status (t_ID t) s2 = Some StatusFailed \<and> tdead s2 = tdead (s_store S)
     \<and> Repo_Get True (t_ID t) s2 = (Inr t0, s2)
     \<and> (\<forall>later < redis_now s2 + cacheTTL. Repo_Get True (t_ID t) (s2\<lparr>redis_now := later\<rparr>) = (Inr t0, s2\<lparr>redis_now := later\<rparr>))"
proof -
  let ?s = "s_store (finish_call c env i t S)"
  have s1: "r = Inr t0" "s1 = cache_write (t_ID t) t0 ?s"
    using read Get_around_miss [OF assms(2,3,5)] by simp_all
  have u: "all_up ?s" "task_status (t_ID t) ?s = Some StatusFailed" "tdead ?s = tdead (s_store S)"
    using last_failure [OF c assms(2,3,6-9) refl] by simp_all
  note w = cache_write_up [OF u(1), where k = "t_ID t" and t = t0, folded s1(2)]
  have g: "Repo_Get True (t_ID t) s1 = (Inr t0, s1)" by (rule Get_cached [OF w(1,4)])
  then have "s2 = s1" using assms(4) by (simp add: s2 c inspect_failure_def NewTaskScheduler_def set_worker_def)
  moreover have "Repo_Get True (t_ID t) (s1\<lparr>redis_now := later\<rparr>) = (Inr t0, s1\<lparr>redis_now := later\<rparr>)"
    if "later < redis_now s1 + cacheTTL" for later
    using Get_cached [OF w(6)] w(5) that by simp
  ultimately show ?thesis using s1(1) w(2,3) u(2,3) g by (simp add: task_status_def)
qed

definition last_call :: "tstore sched" where
  "last_call = (Start demo_scheduler due_store)\<lparr>s_store := demo_store [demo_task ''k'' StatusProcessing 3 3],
     s_workers := [WorkerCalling (demo_task ''k'' StatusQueued 3 3)]\<rparr>"

theorem overlapping_read_skips_archive_witness:
  "\<exists>c s2. task_status ''k'' s2 = Some StatusFailed \<and> tdead s2 = {}
     \<and> (\<exists>old. Repo_Get True ''k'' s2 = (Inr old, s2) \<and> t_Status old = StatusProcessing)
     \<and> s2 = s_store (inspect_failure c (refused 10) 0 (demo_task ''k'' StatusQueued 3 3) (last_call\<lparr>s_store :=
         snd (Get_around (\<lambda>s. s_store (finish_call c (refused 10) 0 (demo_task ''k'' StatusQueued 3 3) (last_call\<lparr>s_store := s\<rparr>)))
           ''k'' (s_store last_call))\<rparr>))"
proof -
  let ?c = "NewTaskScheduler (NewPostgresRepo True) (NewPostgresDLQRepository (\<lambda>_. [])) 1 0"
  let ?t = "demo_task ''k'' StatusQueued 3 3" and ?old = "demo_task ''k'' StatusProcessing 3 3"
  have s: "s_store last_call = demo_store [?old]" by (simp add: last_call_def)
  have k: "t_ID ?t = ''k''" by (simp add: demo_task_def)
  have "all_up (s_store last_call)" "tview (s_store last_call) (t_ID ?t) = Some ?old" "t_Status ?old \<noteq> StatusFailed"
    "live_entry (s_store last_call) (cacheKey (t_ID ?t)) = None" "\<not> executeCallback (we_do (refused 10)) ?t"
    "0 \<le> t_RetryCount ?old" "t_RetryCount ?old < max_int64" "t_MaxRetries ?old \<le> t_RetryCount ?old"
    by (simp_all add: s all_up_def no_faults_def tview_def row_of_def max_int64_def executeCallback_def refused_def demo_task_def
        demo_store_def live_entry_def)
  note p = overlapping_read_skips_archive [OF refl this prod.collapse [symmetric] refl]
  have "tdead (s_store last_call) = {}" by (simp add: s demo_store_def tdead_def)
  moreover have "t_Status ?old = StatusProcessing" by (simp add: demo_task_def)
  ultimately show ?thesis
    using p [of "\<lambda>_. []" 1 0 0] unfolding k by (intro exI [of _ ?c] exI) blast
qed

end
