(* ===== verification/ServiceRun.thy ===== *)
theory ServiceRun
  imports NotificationHandlers
begin

text \<open>
  The notification service as a whole: its workers, the retry scheduler, the requests in progress, the
  shutdown and the world around them, as a step relation. A step is one database call, one send or
  receive on the channel or one change of a flag, so the parts of \<open>Process\<close>, \<open>CreateNotification\<close>,
  \<open>Handler_Create\<close>, \<open>Handler_DispatchCallback\<close> and \<open>RetryScheduler\<close> interleave as goroutines do.
\<close>

section \<open>State\<close>

text \<open>
  A worker is idle, has received a notification, has marked it PROCESSING, has the sender's answer, has
  recorded the last failure and is about to archive, or has returned.
\<close>

datatype courier = Idle | Received Notification | Marked Notification | Told Notification "string + unit"
  | Archiving Notification | Gone

text \<open>The retry scheduler waits for a tick, holds claimed jobs, has found \<open>ShuttingDown\<close> false for the first of them, or has returned.\<close>

datatype poller = PollWaiting | PollClaimed "Notification list" | PollChecked Notification "Notification list" | PollGone

text \<open>
  Requests in progress: in \<open>CreateNotification\<close> past the flag \<open>ShuttingDown\<close>, past the count, past the lookup of
  the template; saved and before the \<open>select\<close>; saved and before the delegation; a dispatch callback before
  its update and before its send.
\<close>

datatype api_call = Entered create_args | Counted create_args | Checked create_args | Saved Notification | Delegating Notification gotime
  | Dispatching Notification | Pushing Notification

text \<open>
  \<open>main\<close> waits for the end of the context, then in \<open>server.Shutdown\<close> for the requests, which either all end
  or outlast the timeout, then in \<open>system.Shutdown\<close> for the workers, and returns.
\<close>

datatype main_stage = Serving | Draining | Drained | TimedOut | Exited

record svc =
  rt :: "ndb runtime"
  couriers :: "courier list"
  poll :: poller
  calls :: "api_call list"
  stage :: main_stage
  crashed :: bool
  h_in :: "Notification list"
  h_out :: "Notification list"

definition start_service :: "ndb NotificationSystem \<Rightarrow> ndb \<Rightarrow> svc" where
  "start_service n d =
     \<lparr>rt = NotificationSystem.Start n (main_runtime d), couriers = replicate (nat (ns_WorkerCount n)) Idle,
      poll = PollWaiting, calls = [], stage = Serving, crashed = False, h_in = [], h_out = []\<rparr>"

section \<open>Steps of a worker\<close>

definition put :: "ndb \<Rightarrow> svc \<Rightarrow> svc" where
  "put d S = S\<lparr>rt := (rt S)\<lparr>store := d\<rparr>\<rparr>"

definition set_courier :: "nat \<Rightarrow> courier \<Rightarrow> svc \<Rightarrow> svc" where
  "set_courier i w S = S\<lparr>couriers := (couriers S)[i := w]\<rparr>"

definition mark :: "ndb NotificationSystem \<Rightarrow> nat \<Rightarrow> Notification \<Rightarrow> svc \<Rightarrow> svc" where
  "mark n i x S =
     (let x = x\<lparr>n_Status := Processing\<rparr>;
          (_, d) = nr_Update (ns_NotificationRepo n) x (store (rt S))
      in set_courier i (Marked x) (put d S))"

definition ask_sender :: "ndb NotificationSystem \<Rightarrow> send_env \<Rightarrow> nat \<Rightarrow> Notification \<Rightarrow> svc \<Rightarrow> svc" where
  "ask_sender n env i x S =
     (let (err, d) = Job n env x (store (rt S)) in set_courier i (Told x err) (put d S))"

definition record_outcome :: "ndb NotificationSystem \<Rightarrow> gotime \<Rightarrow> nat \<Rightarrow> Notification \<Rightarrow> string + unit \<Rightarrow> svc \<Rightarrow> svc" where
  "record_outcome n now i x err S =
     (case err of
        Inl e \<Rightarrow>
          (let x = x\<lparr>n_RetryCount := wrap64 (n_RetryCount x + 1), n_ErrorMessage := e\<rparr>
           in if n_RetryCount x > ns_MaxRetryCount n
              then (let x = x\<lparr>n_Status := DLQ\<rparr>;
                        (_, d) = nr_Update (ns_NotificationRepo n) x (store (rt S))
                    in set_courier i (Archiving x) (put d S))
              else (case retry_delay (n_RetryCount x) of
                      None \<Rightarrow> set_courier i Idle S
                    | Some delay \<Rightarrow>
                        (let x = x\<lparr>n_NextRetryAt := time_add now delay, n_Status := Pending\<rparr>;
                             (_, d) = nr_Update (ns_NotificationRepo n) x (store (rt S))
                         in set_courier i Idle (put d S))))
      | Inr _ \<Rightarrow>
          (let x = x\<lparr>n_Status := Sent, n_ErrorMessage := ''''\<rparr>;
               (_, d) = nr_Update (ns_NotificationRepo n) x (store (rt S))
           in set_courier i Idle (put d S)))"

definition archive :: "ndb NotificationSystem \<Rightarrow> nat \<Rightarrow> Notification \<Rightarrow> svc \<Rightarrow> svc" where
  "archive n i x S = (let (_, d) = dr_Save (ns_DLQRepo n) x (store (rt S)) in set_courier i Idle (put d S))"

section \<open>Steps of the retry scheduler\<close>

definition poll_jobs :: "ndb NotificationSystem \<Rightarrow> svc \<Rightarrow> svc" where
  "poll_jobs n S =
     (case nr_GetReadyJobs (ns_NotificationRepo n) (store (rt S)) of
        (Inl _, d) \<Rightarrow> put d S
      | (Inr jobs, d) \<Rightarrow> (put d S)\<lparr>poll := PollClaimed jobs\<rparr>)"

definition check_shutdown :: "Notification \<Rightarrow> Notification list \<Rightarrow> svc \<Rightarrow> svc" where
  "check_shutdown job jobs S = S\<lparr>poll := (if shutting_down (rt S) then PollGone else PollChecked job jobs)\<rparr>"

definition enqueue :: "Notification \<Rightarrow> svc \<Rightarrow> svc" where
  "enqueue x S = S\<lparr>rt := push x (rt S), h_in := h_in S @ [x]\<rparr>"

definition poll_select :: "bool \<Rightarrow> Notification \<Rightarrow> Notification list \<Rightarrow> svc \<Rightarrow> svc" where
  "poll_select pick job jobs S =
     (case select_send_or_done pick (rt S) of
        SendChosen \<Rightarrow> (enqueue job S)\<lparr>poll := PollClaimed jobs\<rparr>
      | DoneChosen \<Rightarrow> S\<lparr>poll := PollGone\<rparr>
      | WouldBlock \<Rightarrow> S
      | SendOnClosed \<Rightarrow> S\<lparr>crashed := True\<rparr>)"

section \<open>Steps of requests\<close>

text \<open>A request ends when its entry is dropped; a panic of a handler is recovered by Gin and ends it too.\<close>

definition drop_call :: "nat \<Rightarrow> svc \<Rightarrow> svc" where
  "drop_call i S = S\<lparr>calls := take i (calls S) @ drop (Suc i) (calls S)\<rparr>"

definition set_call :: "nat \<Rightarrow> api_call \<Rightarrow> svc \<Rightarrow> svc" where
  "set_call i a S = S\<lparr>calls := (calls S)[i := a]\<rparr>"

definition begin_create :: "create_args \<Rightarrow> svc \<Rightarrow> svc" where
  "begin_create a S = (if shutting_down (rt S) then S else S\<lparr>calls := calls S @ [Entered a]\<rparr>)"

definition count_create :: "ndb NotificationSystem \<Rightarrow> nat \<Rightarrow> create_args \<Rightarrow> svc \<Rightarrow> svc" where
  "count_create n i a S =
     (case nr_GetTotalCount (ns_NotificationRepo n) (store (rt S)) of
        (Inl _, d) \<Rightarrow> drop_call i (put d S)
      | (Inr totalCount, d) \<Rightarrow>
          if totalCount \<ge> max_total then drop_call i (put d S) else set_call i (Counted a) (put d S))"

definition check_template :: "ndb NotificationSystem \<Rightarrow> nat \<Rightarrow> create_args \<Rightarrow> svc \<Rightarrow> svc" where
  "check_template n i a S =
     (case tr_Get (ns_TemplateRepo n) (ca_template a) (ca_userID a) (store (rt S)) of
        (Inl _, d) \<Rightarrow> drop_call i (put d S)
      | (Inr _, d) \<Rightarrow> set_call i (Checked a) (put d S))"

definition save_create :: "ndb NotificationSystem \<Rightarrow> gotime \<Rightarrow> gotime \<Rightarrow> string \<Rightarrow> nat \<Rightarrow> create_args \<Rightarrow> svc \<Rightarrow> svc" where
  "save_create n now1 now2 uuid i a S =
     (let x = new_notification now1 now2 uuid a
      in case nr_Save (ns_NotificationRepo n) x (store (rt S)) of
           (Inl _, d) \<Rightarrow> drop_call i (put d S)
         | (Inr _, d) \<Rightarrow> set_call i (if is_zero (ca_executeAt a) then Saved x else Delegating x (ca_executeAt a)) (put d S))"

definition push_created :: "bool \<Rightarrow> nat \<Rightarrow> Notification \<Rightarrow> svc \<Rightarrow> svc" where
  "push_created pick i x S =
     (case select_send_or_done pick (rt S) of
        SendChosen \<Rightarrow> drop_call i (enqueue x S)
      | DoneChosen \<Rightarrow> drop_call i S
      | WouldBlock \<Rightarrow> S
      | SendOnClosed \<Rightarrow> drop_call i S)"

definition delegate :: "ndb NotificationSystem \<Rightarrow> (gotime \<Rightarrow> string) \<Rightarrow> (task_request \<Rightarrow> http_reply) \<Rightarrow> nat \<Rightarrow> Notification
    \<Rightarrow> gotime \<Rightarrow> svc \<Rightarrow> svc" where
  "delegate n fmt http i x t S =
     (case ScheduleNotification n fmt http x t of
        Inl err \<Rightarrow>
          (let x = x\<lparr>n_Status := DLQ, n_ErrorMessage := ''failed to schedule task: '' @ err\<rparr>;
               (_, d) = nr_Update (ns_NotificationRepo n) x (store (rt S))
           in drop_call i (put d S))
      | Inr _ \<Rightarrow> drop_call i S)"

definition get_dispatch :: "ndb NotificationSystem \<Rightarrow> gotime \<Rightarrow> string \<Rightarrow> svc \<Rightarrow> svc" where
  "get_dispatch n now k S =
     (case nr_Get (ns_NotificationRepo n) k system_user (store (rt S)) of
        (Inl _, d) \<Rightarrow> put d S
      | (Inr x, d) \<Rightarrow>
          (if n_Status x \<noteq> Scheduled then put d S
           else (put d S)\<lparr>calls := calls S @ [Dispatching (x\<lparr>n_Status := Pending, n_NextRetryAt := now\<rparr>)]\<rparr>))"

definition update_dispatch :: "ndb NotificationSystem \<Rightarrow> nat \<Rightarrow> Notification \<Rightarrow> svc \<Rightarrow> svc" where
  "update_dispatch n i x S =
     (case nr_Update (ns_NotificationRepo n) x (store (rt S)) of
        (Inl _, d) \<Rightarrow> drop_call i (put d S)
      | (Inr _, d) \<Rightarrow> set_call i (Pushing x) (put d S))"

definition push_dispatch :: "nat \<Rightarrow> Notification \<Rightarrow> svc \<Rightarrow> svc" where
  "push_dispatch i x S =
     (if \<not> ch_closed (rt S) \<and> length (channel (rt S)) < capacity (rt S) then drop_call i (enqueue x S) else drop_call i S)"

section \<open>The step relation\<close>

text \<open>
  Once \<open>server.Shutdown\<close> has seen all connections idle, no request begins; until then one may, on a
  connection that was accepted before. Beside the service's own calls the store may change in everything
  but the two notification tables: time passes, locks and faults come and go, templates are saved.
\<close>

definition outside :: "ndb \<Rightarrow> ndb \<Rightarrow> bool" where
  "outside d d' \<longleftrightarrow> notifications (tables d') = notifications (tables d)
     \<and> dlq_notifications (tables d') = dlq_notifications (tables d) \<and> stamp d' = stamp d"

inductive svc_step :: "ndb NotificationSystem \<Rightarrow> svc \<Rightarrow> svc \<Rightarrow> bool" for n where
  take: "i < length (couriers S) \<Longrightarrow> couriers S ! i = Idle \<Longrightarrow> channel (rt S) = x # xs \<Longrightarrow>
    svc_step n S (set_courier i (Received x) (S\<lparr>rt := (rt S)\<lparr>channel := xs\<rparr>, h_out := h_out S @ [x]\<rparr>))"
| leave: "i < length (couriers S) \<Longrightarrow> couriers S ! i = Idle \<Longrightarrow> ctx_done (rt S) \<or> ch_closed (rt S) \<and> channel (rt S) = [] \<Longrightarrow>
    svc_step n S (set_courier i Gone (S\<lparr>rt := (rt S)\<lparr>live_workers := live_workers (rt S) - 1\<rparr>\<rparr>))"
| mark: "i < length (couriers S) \<Longrightarrow> couriers S ! i = Received x \<Longrightarrow> svc_step n S (mark n i x S)"
| ask_sender: "i < length (couriers S) \<Longrightarrow> couriers S ! i = Marked x \<Longrightarrow> svc_step n S (ask_sender n env i x S)"
| record_outcome: "i < length (couriers S) \<Longrightarrow> couriers S ! i = Told x err \<Longrightarrow> svc_step n S (record_outcome n now i x err S)"
| archive: "i < length (couriers S) \<Longrightarrow> couriers S ! i = Archiving x \<Longrightarrow> svc_step n S (archive n i x S)"
| poll_jobs: "poll S = PollWaiting \<Longrightarrow> svc_step n S (poll_jobs n S)"
| poll_stops: "poll S = PollWaiting \<Longrightarrow> ctx_done (rt S) \<Longrightarrow> svc_step n S (S\<lparr>poll := PollGone\<rparr>)"
| poll_finished: "poll S = PollClaimed [] \<Longrightarrow> svc_step n S (S\<lparr>poll := PollWaiting\<rparr>)"
| check_shutdown: "poll S = PollClaimed (x # xs) \<Longrightarrow> svc_step n S (check_shutdown x xs S)"
| poll_select: "poll S = PollChecked x xs \<Longrightarrow> svc_step n S (poll_select pick x xs S)"
| begin_create: "stage S \<noteq> Drained \<Longrightarrow> svc_step n S (begin_create a S)"
| count_create: "i < length (calls S) \<Longrightarrow> calls S ! i = Entered a \<Longrightarrow> svc_step n S (count_create n i a S)"
| check_template: "i < length (calls S) \<Longrightarrow> calls S ! i = Counted a \<Longrightarrow> svc_step n S (check_template n i a S)"
| save_create: "i < length (calls S) \<Longrightarrow> calls S ! i = Checked a \<Longrightarrow> svc_step n S (save_create n now1 now2 uuid i a S)"
| push_created: "i < length (calls S) \<Longrightarrow> calls S ! i = Saved x \<Longrightarrow> svc_step n S (push_created pick i x S)"
| delegate: "i < length (calls S) \<Longrightarrow> calls S ! i = Delegating x t \<Longrightarrow> svc_step n S (delegate n fmt http i x t S)"
| get_dispatch: "stage S \<noteq> Drained \<Longrightarrow> svc_step n S (get_dispatch n now k S)"
| update_dispatch: "i < length (calls S) \<Longrightarrow> calls S ! i = Dispatching x \<Longrightarrow> svc_step n S (update_dispatch n i x S)"
| push_dispatch: "i < length (calls S) \<Longrightarrow> calls S ! i = Pushing x \<Longrightarrow> svc_step n S (push_dispatch i x S)"
| signal: "svc_step n S (S\<lparr>rt := (rt S)\<lparr>ctx_done := True\<rparr>\<rparr>)"
| drain: "stage S = Serving \<Longrightarrow> ctx_done (rt S) \<Longrightarrow> svc_step n S (S\<lparr>stage := Draining\<rparr>)"
| drained: "stage S = Draining \<Longrightarrow> calls S = [] \<Longrightarrow> svc_step n S (S\<lparr>stage := Drained\<rparr>)"
| timed_out: "stage S = Draining \<Longrightarrow> svc_step n S (S\<lparr>stage := TimedOut\<rparr>)"
| shutdown: "stage S \<in> {Drained, TimedOut} \<Longrightarrow> \<not> ch_closed (rt S) \<Longrightarrow> svc_step n S (S\<lparr>rt := snd (Shutdown (rt S))\<rparr>)"
| exit: "stage S \<in> {Drained, TimedOut} \<Longrightarrow> ch_closed (rt S) \<Longrightarrow> svc_step n S (S\<lparr>stage := Exited\<rparr>)"
| outside: "outside (store (rt S)) d \<Longrightarrow> svc_step n S (put d S)"

text \<open>Runs whose states satisfy \<open>P\<close>; a process that has crashed or exited takes no further step.\<close>

definition alive :: "svc \<Rightarrow> bool" where
  "alive S \<longleftrightarrow> \<not> crashed S \<and> stage S \<noteq> Exited"

inductive svc_run :: "(svc \<Rightarrow> bool) \<Rightarrow> ndb NotificationSystem \<Rightarrow> ndb \<Rightarrow> svc \<Rightarrow> bool" for P n d0 where
  start: "svc_run P n d0 (start_service n d0)"
| step: "svc_run P n d0 S \<Longrightarrow> alive S \<Longrightarrow> svc_step n S S' \<Longrightarrow> P S' \<Longrightarrow> svc_run P n d0 S'"

abbreviation svc_reachable :: "ndb NotificationSystem \<Rightarrow> ndb \<Rightarrow> svc \<Rightarrow> bool" where
  "svc_reachable \<equiv> svc_run (\<lambda>_. True)"

lemma svc_run_weaken: "svc_run P n d0 S \<Longrightarrow> svc_reachable n d0 S"
  by (induction rule: svc_run.induct) (auto intro: svc_run.intros)

text \<open>Selectors of the small steps.\<close>

lemma put_sel [simp]:
  "rt (put d S) = (rt S)\<lparr>store := d\<rparr>" "couriers (put d S) = couriers S" "poll (put d S) = poll S" "calls (put d S) = calls S"
  "crashed (put d S) = crashed S" "stage (put d S) = stage S" "h_in (put d S) = h_in S" "h_out (put d S) = h_out S"
  by (simp_all add: put_def)

lemma set_courier_sel [simp]:
  "rt (set_courier i w S) = rt S" "couriers (set_courier i w S) = (couriers S)[i := w]" "poll (set_courier i w S) = poll S"
  "calls (set_courier i w S) = calls S" "stage (set_courier i w S) = stage S" "crashed (set_courier i w S) = crashed S"
  "h_in (set_courier i w S) = h_in S" "h_out (set_courier i w S) = h_out S"
  by (simp_all add: set_courier_def)

lemma enqueue_sel [simp]:
  "rt (enqueue x S) = push x (rt S)" "couriers (enqueue x S) = couriers S" "poll (enqueue x S) = poll S"
  "calls (enqueue x S) = calls S" "stage (enqueue x S) = stage S" "crashed (enqueue x S) = crashed S"
  "h_in (enqueue x S) = h_in S @ [x]" "h_out (enqueue x S) = h_out S"
  by (simp_all add: enqueue_def)

lemma call_sel [simp]:
  "rt (drop_call i S) = rt S" "couriers (drop_call i S) = couriers S" "poll (drop_call i S) = poll S"
  "stage (drop_call i S) = stage S" "stage (set_call i a S) = stage S"
  "crashed (drop_call i S) = crashed S" "h_in (drop_call i S) = h_in S" "h_out (drop_call i S) = h_out S"
  "rt (set_call i a S) = rt S" "couriers (set_call i a S) = couriers S" "poll (set_call i a S) = poll S"
  "crashed (set_call i a S) = crashed S" "h_in (set_call i a S) = h_in S" "h_out (set_call i a S) = h_out S"
  "calls (drop_call i S) = take i (calls S) @ drop (Suc i) (calls S)" "calls (set_call i a S) = (calls S)[i := a]"
  by (simp_all add: drop_call_def set_call_def)

lemma push_sel [simp]:
  "store (push x r) = store r" "channel (push x r) = channel r @ [x]" "capacity (push x r) = capacity r"
  "ch_closed (push x r) = ch_closed r" "shutting_down (push x r) = shutting_down r" "ctx_done (push x r) = ctx_done r"
  "live_workers (push x r) = live_workers r"
  by (simp_all add: push_def)

lemma alive_sel [simp]:
  "alive (put d S) = alive S" "alive (set_courier i w S) = alive S" "alive (enqueue x S) = alive S"
  "alive (drop_call i S) = alive S" "alive (set_call i c S) = alive S" "alive (S\<lparr>rt := r\<rparr>) = alive S"
  "alive (S\<lparr>calls := cs\<rparr>) = alive S" "alive (S\<lparr>poll := p\<rparr>) = alive S" "alive (S\<lparr>h_out := h\<rparr>) = alive S"
  by (simp_all add: alive_def)

end
