(* ===== verification/ServiceFlow.thy ===== *)
theory ServiceFlow
  imports ServiceRun
begin

text \<open>
  The flow of notifications through the service, as an abstract machine on the store and the places where
  notifications are in memory; every step of \<open>ServiceRun\<close> is one of its steps, so that what the machine
  keeps holds in every reachable state of the service (locale \<open>flow_invariant\<close>).
\<close>

section \<open>What the calls do to the rows\<close>

definition nrow :: "ndb \<Rightarrow> string \<Rightarrow> notif_row option" where
  "nrow d k = row_of id_col k (notifications (tables d))"

lemma nrow_same: "notifications (tables d') = notifications (tables d) \<Longrightarrow> nrow d' = nrow d"
  by (simp add: nrow_def [abs_def])

lemma nrow_id: "nrow d k = Some r \<Longrightarrow> id_col r = k"
  by (auto simp: nrow_def dest: row_of_Some_D)

lemma Update_nrow:
  assumes "NotificationRepository_Update x d = (r, d')"
  shows "nrow d' = nrow d
     \<or> nrow d' = (nrow d)(n_ID x := map_option (overwrite_row (stamp d) (JsonVars (n_Variable x)) x) (nrow d (n_ID x)))"
  using assms
  by (auto simp: Update_exec nrow_def [abs_def] fun_eq_iff row_of_update_key split: prod.splits dest!: exec_sql_tables)

lemma Save_nrow:
  assumes "NotificationRepository_Save x d = (r, d')"
  shows "nrow d' = nrow d \<and> r \<noteq> Inr ()
     \<or> nrow d (n_ID x) = None
       \<and> nrow d' = (nrow d)(n_ID x \<mapsto> row_of_notification (stamp d) (JsonVars (n_Variable x)) (norm_user (n_UserID x)) x)"
proof -
  let ?row = "row_of_notification (stamp d) (JsonVars (n_Variable x)) (norm_user (n_UserID x)) x"
  let ?stmt = "\<lambda>t. (let (r, rows) = insert_row id_col ?row (notifications t) in (r, t\<lparr>notifications := rows\<rparr>))"
  show ?thesis
  proof (cases rule: insert_row_cases [of id_col ?row "notifications (tables d)"])
    case inserted
    then have "nrow d (n_ID x) = None" by (simp add: nrow_def)
    moreover have "nrow (d\<lparr>tables := (tables d)\<lparr>notifications := notifications (tables d) @ [?row]\<rparr>, faults := fs\<rparr>)
        = (nrow d)(n_ID x \<mapsto> ?row)" for fs
      using inserted by (auto simp: fun_eq_iff nrow_def row_of_append row_of_def [of _ _ "[_]"] split: option.splits)
    ultimately show ?thesis
      using exec_sql_shape [of ?stmt d] assms inserted
      by (elim disjE exE) (auto simp: Save_exec intro!: nrow_same)
  next
    case duplicate
    then show ?thesis
      using exec_sql_shape [of ?stmt d] assms by (elim disjE exE) (auto simp: Save_exec intro!: nrow_same)
  qed
qed

lemma DLQSave_notifications:
  "notifications (tables (snd (DLQRepository_Save x d))) = notifications (tables d)"
  by (auto simp: DLQSave_exec Let_def dest!: exec_sql_tables split: prod.splits)

lemma Get_row:
  assumes "NotificationRepository_Get k system_user d = (Inr x, d')" and "keyed id_col (notifications (tables d))"
  shows "\<exists>r. nrow d k = Some r \<and> scan_row r = Inr x"
proof -
  obtain row where "find (\<lambda>r. id_col r = k \<and> True) (notifications (tables d)) = Some row" "scan_row row = Inr x"
    using assms(1)
    by (auto simp: NotificationRepository_Get_def select_one_def split: prod.splits sum.splits if_splits scan_error.splits option.splits
        dest!: exec_sql_ok)
  then show ?thesis by (auto simp: nrow_def row_of_def)
qed

lemma Count_tables: "NotificationRepository_GetTotalCount d = (r, d') \<Longrightarrow> tables d' = tables d"
  using GetTotalCount_cases [of d r d'] by (simp add: pg_obs_def)

lemma Template_tables: "TemplateRepository_Get t user d = (r, d') \<Longrightarrow> tables d' = tables d"
  using Template_Get_obs [of t user d] by (simp add: pg_obs_def)

lemma Job_tables: "Job (main_system w key sender u a) env x d = (r, d') \<Longrightarrow> tables d' = tables d"
  using main_job_keeps(1) [of w key sender u a env x d] by (simp add: pg_obs_def)

lemma Poll_nrow:
  assumes g: "NotificationRepository_GetReadyJobs d = (r, d')" and k: "keyed id_col (notifications (tables d))"
  shows "nrow d' = nrow d \<or> nrow d' = (\<lambda>k. if k \<in> set (claimed_by d) then map_option mark_processing (nrow d k) else nrow d k)"
    and "r = Inr ns \<Longrightarrow> x \<in> set ns \<Longrightarrow>
      \<exists>row. nrow d (n_ID x) = Some row \<and> job_ready (db_now d) row \<and> scan_row (mark_processing row) = Inr x
        \<and> nrow d' (n_ID x) = Some (mark_processing row)"
    and "keyed id_col (notifications (tables d'))"
proof -
  have claim: "nrow d' = (\<lambda>k. if k \<in> set (claimed_by d) then map_option mark_processing (nrow d k) else nrow d k)"
    if "notifications (tables d') = snd (claim_ready_jobs d (notifications (tables d)))"
    using that by (simp add: fun_eq_iff nrow_def claim_ready_jobs_def jobs.claim_row_of)
  then show "nrow d' = nrow d \<or> nrow d' = (\<lambda>k. if k \<in> set (claimed_by d) then map_option mark_processing (nrow d k) else nrow d k)"
    using GetReadyJobs_tables [OF g] nrow_same by blast
  have "notifications (tables d') = notifications (tables d) \<or> notifications (tables d') = snd (claim_ready_jobs d (notifications (tables d)))"
    using GetReadyJobs_tables [OF g] by blast
  then show "keyed id_col (notifications (tables d'))"
    using k jobs.claim_keyed [OF k] unfolding claim_ready_jobs_def by (elim disjE) (simp_all only:)
  assume "r = Inr ns" and x: "x \<in> set ns"
  then have g': "NotificationRepository_GetReadyJobs d = (Inr ns, d')" using g by simp
  note after = GetReadyJobs_Inr [OF g']
  let ?rows = "fst (claim_ready_jobs d (notifications (tables d)))"
  have l: "list_all2 (\<lambda>r n. scan_row r = Inr n) ?rows ns" using scan_jobs_Inr after by blast
  obtain j where j: "j < length ns" "x = ns ! j" using x by (auto simp: in_set_conv_nth)
  define r0 where "r0 = ?rows ! j"
  have r0: "r0 \<in> set ?rows" "scan_row r0 = Inr x"
    using list_all2_nthD2 [OF l j(1)] list_all2_lengthD [OF l] j by (simp_all add: r0_def)
  then obtain row where row: "row \<in> set (notifications (tables d))" "r0 = mark_processing row" "id_col row \<in> set (claimed_by d)"
    using jobs.claimed_iff [OF k] by (auto simp: claim_ready_jobs_def)
  have id: "id_col row = n_ID x" using r0(2) row(2) by (auto simp: mark_processing_def dest!: scan_row_Inr)
  have n: "nrow d (n_ID x) = Some row" using row_of_keyed [OF k row(1)] id by (simp add: nrow_def)
  obtain row' where "row' \<in> set (notifications (tables d))" "id_col row' = id_col row" "job_ready (db_now d) row'"
    using jobs.claim_keys_subset [OF row(3)] by blast
  then have "job_ready (db_now d) row" using row_of_keyed [OF k] n id by (fastforce simp: nrow_def)
  moreover have "nrow d' (n_ID x) = Some (mark_processing row)"
    using claim after n row(3) id by auto
  ultimately show "\<exists>row. nrow d (n_ID x) = Some row \<and> job_ready (db_now d) row \<and> scan_row (mark_processing row) = Inr x
        \<and> nrow d' (n_ID x) = Some (mark_processing row)"
    using n r0(2) row(2) by blast
qed

lemma Update_keyed:
  "keyed id_col (notifications (tables d)) \<Longrightarrow> NotificationRepository_Update y d = (r, d') \<Longrightarrow> keyed id_col (notifications (tables d'))"
  by (auto simp: Update_exec keyed_update_key split: prod.splits dest!: exec_sql_tables)

section \<open>Places\<close>

text \<open>
  In the channel, with a worker, with a worker that only archives it, with the retry scheduler, with a request
  that delegates it, that is about to set it PENDING for a dispatch, or that is about to enqueue it.
\<close>

datatype place = InChannel | AtWorker | ToArchive | AtPoller | ToDelegate | ToDispatch | ToPush

type_synonym memory = "(place \<times> Notification) set"

fun courier_place :: "courier \<Rightarrow> memory" where
  "courier_place (Received x) = {(AtWorker, x)}"
| "courier_place (Marked x) = {(AtWorker, x)}"
| "courier_place (Told x err) = {(AtWorker, x)}"
| "courier_place (Archiving x) = {(ToArchive, x)}"
| "courier_place Idle = {}"
| "courier_place Gone = {}"

fun poll_place :: "poller \<Rightarrow> memory" where
  "poll_place (PollClaimed xs) = Pair AtPoller ` set xs"
| "poll_place (PollChecked x xs) = insert (AtPoller, x) (Pair AtPoller ` set xs)"
| "poll_place PollWaiting = {}"
| "poll_place PollGone = {}"

fun call_place :: "api_call \<Rightarrow> memory" where
  "call_place (Entered a) = {}"
| "call_place (Counted a) = {}"
| "call_place (Checked a) = {}"
| "call_place (Saved x) = {(ToPush, x)}"
| "call_place (Delegating x t) = {(ToDelegate, x)}"
| "call_place (Dispatching x) = {(ToDispatch, x)}"
| "call_place (Pushing x) = {(ToPush, x)}"

definition placed :: "svc \<Rightarrow> memory" where
  "placed S = Pair InChannel ` set (channel (rt S)) \<union> \<Union> (courier_place ` set (couriers S)) \<union> poll_place (poll S)
     \<union> \<Union> (call_place ` set (calls S))"

lemma placed_start [simp]: "placed (start_service n d) = {}"
  by (auto simp: placed_def start_service_def NotificationSystem.Start_def main_runtime_def)

lemma Union_update: "i < length xs \<Longrightarrow> \<Union> (f ` set (xs[i := y])) \<subseteq> \<Union> (f ` set xs) \<union> f y"
  using set_update_subset_insert [of xs i y] by auto

lemma drop_nth_subset: "set (take i xs @ drop (Suc i) xs) \<subseteq> set xs"
  by (auto dest: in_set_takeD in_set_dropD)

lemma placed_nth:
  "i < length (couriers S) \<Longrightarrow> courier_place (couriers S ! i) \<subseteq> placed S"
  "i < length (calls S) \<Longrightarrow> call_place (calls S ! i) \<subseteq> placed S"
  by (auto simp: placed_def)

lemma placed_put [simp]: "placed (put d S) = placed S"
  by (simp add: placed_def)

lemma placed_set_courier: "i < length (couriers S) \<Longrightarrow> placed (set_courier i w S) \<subseteq> placed S \<union> courier_place w"
  using Union_update [of i "couriers S" courier_place w] by (auto simp: placed_def)

lemma placed_set_call: "i < length (calls S) \<Longrightarrow> placed (set_call i a S) \<subseteq> placed S \<union> call_place a"
  using Union_update [of i "calls S" call_place a] by (auto simp: placed_def)

lemma placed_drop_call: "placed (drop_call i S) \<subseteq> placed S"
  using drop_nth_subset [of i "calls S"] by (fastforce simp: placed_def)

lemma placed_enqueue: "placed (enqueue x S) = insert (InChannel, x) (placed S)"
  by (auto simp: placed_def)

section \<open>The machine\<close>

text \<open>Where a notification may go on to unchanged.\<close>

fun onward :: "place \<Rightarrow> place \<Rightarrow> bool" where
  "onward ToPush InChannel = True"
| "onward AtPoller InChannel = True"
| "onward InChannel AtWorker = True"
| "onward p q = (p = q)"

text \<open>What is written to the row of a notification, and what is in memory of it after that.\<close>

inductive writes :: "place \<Rightarrow> Notification \<Rightarrow> Notification \<Rightarrow> memory \<Rightarrow> bool" where
  mark: "writes AtWorker x (x\<lparr>n_Status := Processing\<rparr>) {(AtWorker, x\<lparr>n_Status := Processing\<rparr>)}"
| sent: "writes AtWorker x (x\<lparr>n_Status := Sent, n_ErrorMessage := ''''\<rparr>) {}"
| retry: "wrap64 (n_RetryCount x + 1) \<le> 3 \<Longrightarrow>
    writes AtWorker x (x\<lparr>n_RetryCount := wrap64 (n_RetryCount x + 1), n_ErrorMessage := e, n_NextRetryAt := t, n_Status := Pending\<rparr>) {}"
| give_up: "wrap64 (n_RetryCount x + 1) > 3 \<Longrightarrow> y = x\<lparr>n_RetryCount := wrap64 (n_RetryCount x + 1), n_ErrorMessage := e, n_Status := DLQ\<rparr> \<Longrightarrow>
    writes AtWorker x y {(ToArchive, y)}"
| undelegated: "writes ToDelegate x (x\<lparr>n_Status := DLQ, n_ErrorMessage := e\<rparr>) {}"
| undispatched: "writes ToDispatch x x {}"

text \<open>
  A step leaves the rows alone, writes one, inserts one or claims several, as the calls of the repository do;
  in memory things may always be forgotten.
\<close>

inductive flow :: "ndb \<Rightarrow> memory \<Rightarrow> ndb \<Rightarrow> memory \<Rightarrow> bool" where
  move: "notifications (tables d') = notifications (tables d) \<Longrightarrow> M' \<subseteq> {(q, x). \<exists>p. (p, x) \<in> M \<and> onward p q} \<Longrightarrow> flow d M d' M'"
| writing: "(p, x) \<in> M \<Longrightarrow> writes p x y K \<Longrightarrow> NotificationRepository_Update y d = (r, d') \<Longrightarrow> M' \<subseteq> M \<union> K \<Longrightarrow> flow d M d' M'"
| dispatch: "(ToDispatch, x) \<in> M \<Longrightarrow> NotificationRepository_Update x d = (Inr v, d') \<Longrightarrow> M' \<subseteq> insert (ToPush, x) M \<Longrightarrow> flow d M d' M'"
| claim: "NotificationRepository_GetReadyJobs d = (r, d') \<Longrightarrow> M' \<subseteq> M \<union> {(AtPoller, x) |x ns. r = Inr ns \<and> x \<in> set ns} \<Longrightarrow> flow d M d' M'"
| save: "NotificationRepository_Save x d = (r, d') \<Longrightarrow> n_RetryCount x = 0 \<Longrightarrow> n_Status x \<in> {Pending, Scheduled} \<Longrightarrow>
    M' \<subseteq> M \<union> {(if n_Status x = Scheduled then ToDelegate else ToPush, x) |v. r = Inr v} \<Longrightarrow> flow d M d' M'"
| fetch: "NotificationRepository_Get k system_user d = (Inr x, d') \<Longrightarrow> n_Status x = Scheduled \<Longrightarrow>
    M' \<subseteq> insert (ToDispatch, x\<lparr>n_Status := Pending, n_NextRetryAt := t\<rparr>) M \<Longrightarrow> flow d M d' M'"

lemma onward_refl [simp]: "onward p p"
  by (cases p) simp_all

lemma stays: "notifications (tables d') = notifications (tables d) \<Longrightarrow> M' \<subseteq> M \<Longrightarrow> flow d M d' M'"
  using onward_refl by (intro flow.move) blast+

abbreviation svc_flow :: "svc \<Rightarrow> svc \<Rightarrow> bool" where
  "svc_flow S S' \<equiv> flow (store (rt S)) (placed S) (store (rt S')) (placed S')"

lemma svc_writing:
  assumes "(p, x) \<in> placed S" and "writes p x y K" and "store (rt S') = snd (NotificationRepository_Update y (store (rt S)))"
    and "placed S' \<subseteq> placed S \<union> K"
  shows "svc_flow S S'"
  using flow.writing [OF assms(1,2) _ assms(4), of _ "fst (NotificationRepository_Update y (store (rt S)))"] assms(3) by simp

section \<open>The service follows it\<close>

lemma mark_flow:
  assumes n: "n = main_system w key sender u a" and i: "i < length (couriers S)" "couriers S ! i = Received x"
  shows "svc_flow S (mark n i x S)"
proof -
  let ?d = "snd (NotificationRepository_Update (x\<lparr>n_Status := Processing\<rparr>) (store (rt S)))"
  have "(AtWorker, x) \<in> placed S" using placed_nth(1) [OF i(1)] i(2) by simp
  then show ?thesis
    using placed_set_courier [of i "put ?d S" "Marked (x\<lparr>n_Status := Processing\<rparr>)"] i
    by (intro svc_writing [OF _ writes.mark]) (simp_all add: mark_def n case_prod_beta Let_def)
qed

lemma record_outcome_flow:
  assumes n: "n = main_system w key sender u a" and i: "i < length (couriers S)" "couriers S ! i = Told x err"
  shows "svc_flow S (record_outcome n now i x err S)"
proof -
  have x: "(AtWorker, x) \<in> placed S" using placed_nth(1) [OF i(1)] i(2) by simp
  have upd: "svc_flow S (set_courier i c (put (snd (NotificationRepository_Update y (store (rt S)))) S))"
    if "writes AtWorker x y (courier_place c)" for y c
    using placed_set_courier [of i "put (snd (NotificationRepository_Update y (store (rt S)))) S" c] i(1)
    by (intro svc_writing [OF x that]) simp_all
  have idle: "svc_flow S (set_courier i Idle S)" using placed_set_courier [OF i(1), of Idle] by (intro stays) simp_all
  let ?k = "wrap64 (n_RetryCount x + 1)"
  consider (ok) v where "err = Inr v" | (dead) e where "err = Inl e" "?k > 3" | (again) e where "err = Inl e" "?k \<le> 3"
    by (metis linorder_not_less old.sum.exhaust)
  then show ?thesis
  proof cases
    case ok
    then show ?thesis using upd [of _ Idle] writes.sent [of x] by (simp add: record_outcome_def n case_prod_beta)
  next
    case dead
    then show ?thesis
      using upd [of "x\<lparr>n_RetryCount := ?k, n_ErrorMessage := e, n_Status := DLQ\<rparr>"
          "Archiving (x\<lparr>n_RetryCount := ?k, n_ErrorMessage := e, n_Status := DLQ\<rparr>)"] writes.give_up [OF dead(2) refl, of e]
      by (simp add: record_outcome_def n case_prod_beta Let_def)
  next
    case again
    then show ?thesis
      using upd [of _ Idle] writes.retry [OF again(2)] idle
      by (cases "retry_delay ?k") (simp_all add: record_outcome_def n case_prod_beta Let_def)
  qed
qed

lemma poll_jobs_flow:
  assumes n: "n = main_system w key sender u a"
  shows "svc_flow S (poll_jobs n S)"
proof -
  obtain r d where g: "NotificationRepository_GetReadyJobs (store (rt S)) = (r, d)" by fastforce
  show ?thesis
  proof (cases r)
    case (Inl e)
    then show ?thesis using g by (intro flow.claim) (auto simp: poll_jobs_def n)
  next
    case (Inr ns)
    have "placed (poll_jobs n S) \<subseteq> placed S \<union> Pair AtPoller ` set ns" using g Inr by (auto simp: poll_jobs_def n placed_def)
    then show ?thesis using g Inr by (intro flow.claim [of _ r]) (auto simp: poll_jobs_def n)
  qed
qed

lemma save_create_flow:
  assumes n: "n = main_system w key sender u a" and i: "i < length (calls S)"
  shows "svc_flow S (save_create n now1 now2 uuid i arg S)"
proof -
  let ?x = "new_notification now1 now2 uuid arg"
  let ?c = "if is_zero (ca_executeAt arg) then Saved ?x else Delegating ?x (ca_executeAt arg)"
  obtain r d where s: "NotificationRepository_Save ?x (store (rt S)) = (r, d)" by fastforce
  have x: "n_RetryCount ?x = 0" "n_Status ?x \<in> {Pending, Scheduled}" "n_Status ?x = Scheduled \<longleftrightarrow> \<not> is_zero (ca_executeAt arg)"
    by (simp_all add: new_notification_def)
  show ?thesis
  proof (cases r)
    case (Inl e)
    then show ?thesis
      using s placed_drop_call [of i "put d S"] x(1,2) by (intro flow.save [of ?x _ r]) (auto simp: save_create_def n Let_def)
  next
    case (Inr v)
    have "placed (set_call i ?c (put d S)) \<subseteq> placed S \<union> {(if n_Status ?x = Scheduled then ToDelegate else ToPush, ?x)}"
      using placed_set_call [of i "put d S" ?c] i x(3) by (cases "is_zero (ca_executeAt arg)") auto
    then show ?thesis using s Inr x(1,2) by (intro flow.save [of ?x _ r]) (simp_all add: save_create_def n Let_def)
  qed
qed

lemma dispatch_flow:
  assumes n: "n = main_system w key sender u a"
  shows "svc_flow S (get_dispatch n now ident S)"
    and "i < length (calls S) \<Longrightarrow> calls S ! i = Dispatching x \<Longrightarrow> svc_flow S (update_dispatch n i x S)"
proof -
  obtain r d where g: "NotificationRepository_Get ident system_user (store (rt S)) = (r, d)" by fastforce
  have same: "notifications (tables d) = notifications (tables (store (rt S)))" using Get_notifications [OF g] by simp
  show "svc_flow S (get_dispatch n now ident S)"
  proof (cases "\<exists>x. r = Inr x \<and> n_Status x = Scheduled")
    case False
    then show ?thesis using g same by (intro stays; cases r) (auto simp: get_dispatch_def n)
  next
    case True
    then obtain x where x: "r = Inr x" "n_Status x = Scheduled" by blast
    have "placed (get_dispatch n now ident S) = insert (ToDispatch, x\<lparr>n_Status := Pending, n_NextRetryAt := now\<rparr>) (placed S)"
      using g x by (auto simp: get_dispatch_def n placed_def)
    then show ?thesis using g x by (intro flow.fetch [of ident _ x]) (auto simp: get_dispatch_def n)
  qed
  assume i: "i < length (calls S)" "calls S ! i = Dispatching x"
  obtain q d2 where u: "NotificationRepository_Update x (store (rt S)) = (q, d2)" by fastforce
  have x: "(ToDispatch, x) \<in> placed S" using placed_nth(2) [OF i(1)] i(2) by simp
  show "svc_flow S (update_dispatch n i x S)"
  proof (cases q)
    case (Inl e)
    then show ?thesis
      using u placed_drop_call [of i "put d2 S"] by (intro svc_writing [OF x writes.undispatched]) (simp_all add: update_dispatch_def n)
  next
    case (Inr v)
    then show ?thesis
      using u placed_set_call [of i "put d2 S" "Pushing x"] i(1)
      by (intro flow.dispatch [OF x, of _ v]) (auto simp: update_dispatch_def n)
  qed
qed

lemma push_flow:
  assumes "i < length (calls S)" and "calls S ! i \<in> {Saved x, Pushing x}"
  shows "svc_flow S (drop_call i (enqueue x S))"
proof -
  have "(ToPush, x) \<in> placed S" using placed_nth(2) [OF assms(1)] assms(2) by auto
  moreover have "placed (drop_call i (enqueue x S)) \<subseteq> insert (InChannel, x) (placed S)"
    using placed_drop_call [of i "enqueue x S"] placed_enqueue [of x S] by simp
  ultimately show ?thesis using onward_refl by (intro flow.move) (force intro: onward.simps(1))+
qed

lemma delegate_flow:
  assumes n: "n = main_system w key sender u a" and i: "i < length (calls S)" "calls S ! i = Delegating x t"
  shows "svc_flow S (delegate n fmt http i x t S)"
proof (cases "ScheduleNotification n fmt http x t")
  case (Inl err)
  let ?y = "x\<lparr>n_Status := DLQ, n_ErrorMessage := ''failed to schedule task: '' @ err\<rparr>"
  obtain r d where u: "NotificationRepository_Update ?y (store (rt S)) = (r, d)" by fastforce
  have x: "(ToDelegate, x) \<in> placed S" using placed_nth(2) [OF i(1)] i(2) by simp
  show ?thesis
    using Inl u placed_drop_call [of i "put d S"]
    by (intro svc_writing [OF x writes.undelegated [of _ "''failed to schedule task: '' @ err"]]) (simp_all add: delegate_def n Let_def)
next
  case (Inr v)
  then show ?thesis using placed_drop_call [of i S] by (intro stays) (simp_all add: delegate_def)
qed

text \<open>Steps that send what is in memory on, or drop it, and leave the rows alone.\<close>

lemma take_flow:
  assumes "i < length (couriers S)" and "channel (rt S) = x # xs"
  shows "svc_flow S (set_courier i (Received x) (S\<lparr>rt := (rt S)\<lparr>channel := xs\<rparr>, h_out := h_out S @ [x]\<rparr>))"
proof -
  let ?S = "S\<lparr>rt := (rt S)\<lparr>channel := xs\<rparr>, h_out := h_out S @ [x]\<rparr>"
  have "placed ?S \<subseteq> placed S" "(InChannel, x) \<in> placed S" using assms(2) by (auto simp: placed_def)
  moreover have "placed (set_courier i (Received x) ?S) \<subseteq> placed ?S \<union> {(AtWorker, x)}"
    using placed_set_courier [of i ?S "Received x"] assms(1) by simp
  ultimately show ?thesis using onward_refl by (intro flow.move) (force intro: onward.simps(3))+
qed

lemma poll_select_flow:
  assumes "poll S = PollChecked x xs"
  shows "svc_flow S (poll_select pick x xs S)"
proof (cases "select_send_or_done pick (rt S)")
  case SendChosen
  have "placed (enqueue x S\<lparr>poll := PollClaimed xs\<rparr>) \<subseteq> insert (InChannel, x) (placed S)" "(AtPoller, x) \<in> placed S"
    using assms by (auto simp: placed_def)
  then show ?thesis
    using onward_refl SendChosen by (intro flow.move) (force simp: poll_select_def intro: onward.simps(2))+
qed (intro stays; auto simp: poll_select_def placed_def)+

lemma check_flow:
  assumes n: "n = main_system w key sender u a" and i: "i < length (calls S)"
  shows "svc_flow S (count_create n i arg S)" and "svc_flow S (check_template n i arg S)"
proof -
  have stay: "svc_flow S (drop_call i (put d S))" "call_place c = {} \<Longrightarrow> svc_flow S (set_call i c (put d S))"
    if "tables d = tables (store (rt S))" for d c
    using that placed_drop_call [of i "put d S"] placed_set_call [of i "put d S" c] i by (intro stays; simp)+
  obtain r d where c: "NotificationRepository_GetTotalCount (store (rt S)) = (r, d)" by fastforce
  show "svc_flow S (count_create n i arg S)"
    using stay [OF Count_tables [OF c]] c by (simp add: count_create_def n split: sum.split)
  obtain r d where t: "TemplateRepository_Get (ca_template arg) (ca_userID arg) (store (rt S)) = (r, d)" by fastforce
  show "svc_flow S (check_template n i arg S)"
    using stay [OF Template_tables [OF t]] t by (simp add: check_template_def n split: sum.split)
qed

text \<open>Every step of the service is a step of the machine.\<close>

lemma svc_step_flow:
  assumes step: "svc_step n S S'" and n: "n = main_system w key sender u a"
  shows "svc_flow S S'"
  using step
proof (cases rule: svc_step.cases)
  case (take i x xs)
  then show ?thesis using take_flow by simp
next
  case (leave i)
  let ?S = "S\<lparr>rt := (rt S)\<lparr>live_workers := live_workers (rt S) - 1\<rparr>\<rparr>"
  have "placed ?S = placed S" by (simp add: placed_def)
  then show ?thesis using leave(1,2) placed_set_courier [of i ?S Gone] by (intro stays) simp_all
next
  case (mark i x)
  then show ?thesis using mark_flow [OF n] by simp
next
  case (ask_sender i x env)
  obtain r d where j: "Job n env x (store (rt S)) = (r, d)" by fastforce
  then have "tables d = tables (store (rt S))" using Job_tables n by blast
  then show ?thesis
    using ask_sender j placed_set_courier [of i "put d S" "Told x r"] placed_nth(1) [of i S] by (intro stays) (auto simp: ask_sender_def)
next
  case (record_outcome i x err now)
  then show ?thesis using record_outcome_flow [OF n] by simp
next
  case (archive i x)
  then show ?thesis
    using DLQSave_notifications placed_set_courier [of i "put _ S" Idle] by (intro stays) (auto simp: archive_def n case_prod_beta)
next
  case poll_jobs
  then show ?thesis using poll_jobs_flow [OF n] by simp
next
  case (poll_select x xs pick)
  then show ?thesis using poll_select_flow by simp
next
  case (begin_create arg)
  then show ?thesis by (intro stays) (auto simp: begin_create_def placed_def)
next
  case (count_create i arg)
  then show ?thesis using check_flow(1) [OF n] by simp
next
  case (check_template i arg)
  then show ?thesis using check_flow(2) [OF n] by simp
next
  case (save_create i arg now1 now2 uuid)
  then show ?thesis using save_create_flow [OF n] by simp
next
  case (push_created i x pick)
  have "svc_flow S (drop_call i S)" using placed_drop_call [of i S] by (intro stays) simp_all
  then show ?thesis using push_flow push_created stays [of "store (rt S)" "store (rt S)" "placed S" "placed S"]
    by (auto simp: push_created_def split: select_send.split)
next
  case (delegate i x t fmt http)
  then show ?thesis using delegate_flow [OF n] by simp
next
  case (get_dispatch now ident)
  then show ?thesis using dispatch_flow(1) [OF n] by simp
next
  case (update_dispatch i x)
  then show ?thesis using dispatch_flow(2) [OF n] by simp
next
  case (push_dispatch i x)
  have "svc_flow S (drop_call i S)" using placed_drop_call [of i S] by (intro stays) simp_all
  then show ?thesis using push_flow push_dispatch by (auto simp: push_dispatch_def)
next
  case (outside d)
  then show ?thesis by (intro stays) (simp_all add: outside_def)
qed (intro stays; auto simp: placed_def check_shutdown_def Shutdown_def Let_def)+

section \<open>What the machine keeps\<close>

definition keyed_rows :: "ndb \<Rightarrow> bool" where
  "keyed_rows d \<longleftrightarrow> keyed id_col (notifications (tables d))"

lemma flow_keyed: "flow d M d' M' \<Longrightarrow> keyed_rows d \<Longrightarrow> keyed_rows d'"
proof (induction rule: flow.induct)
  case (claim d r d' M' M)
  then show ?case using Poll_nrow(3) by (simp add: keyed_rows_def)
next
  case (save x d r d' M' M)
  then show ?case using Save_keyed [of d x] by (simp add: keyed_rows_def)
next
  case (fetch k d x d' M' t M)
  then show ?case using Get_notifications [OF fetch(1)] by (simp add: keyed_rows_def)
qed (auto simp: keyed_rows_def dest: Update_keyed)

text \<open>An invariant of the machine on keyed tables, and the runs of the service that start with it.\<close>

locale flow_invariant =
  fixes I :: "ndb \<Rightarrow> memory \<Rightarrow> bool"
  assumes flow_step: "flow d M d' M' \<Longrightarrow> keyed_rows d \<Longrightarrow> I d M \<Longrightarrow> I d' M'"
begin

lemma run:
  assumes "svc_run P n d0 S" and n: "n = main_system w key sender u a" and "keyed_rows d0" and "I d0 {}"
  shows "keyed_rows (store (rt S)) \<and> I (store (rt S)) (placed S)"
  using assms(1)
proof (induction rule: svc_run.induct)
  case start
  have "store (rt (start_service n d0)) = d0" by (simp add: start_service_def NotificationSystem.Start_def main_runtime_def)
  then show ?case using assms(3,4) by simp
next
  case (step S S')
  then show ?case using svc_step_flow [OF step(3) n] flow_step flow_keyed by blast
qed

end

end
