(* ===== verification/ServiceSafety.thy ===== *)
theory ServiceSafety
  imports ServiceFlow
begin

text \<open>
  Safety of the notification service as a whole, in every interleaving of its goroutines: what is in memory
  has its row (invariant \<open>content_inv\<close> of the flow), a row that no poll and no request takes up stays as it is
  (\<open>frozen\<close>), and the invariant of the channel, the flags and the workers.
\<close>

definition held :: "svc \<Rightarrow> Notification set" where
  "held S = snd ` placed S"

section \<open>Integrity of what is delivered\<close>

text \<open>What a notification is about: all that its sender is given. An update never changes it.\<close>

definition content :: "Notification \<Rightarrow> string \<times> string \<times> jsonb \<times> NotificationType \<times> string option" where
  "content x = (n_Recipient x, n_Template x, JsonVars (n_Variable x), n_Type x, Some (norm_user (n_UserID x)))"

definition row_content :: "notif_row \<Rightarrow> string \<times> string \<times> jsonb \<times> NotificationType \<times> string option" where
  "row_content r = (recipient_col r, template_col r, variable_col r, type_col r, map_option norm_user (user_id_col r))"

lemma content_fields [simp]:
  "content (y\<lparr>n_Status := st\<rparr>) = content y" "content (y\<lparr>n_RetryCount := k\<rparr>) = content y"
  "content (y\<lparr>n_ErrorMessage := e\<rparr>) = content y" "content (y\<lparr>n_NextRetryAt := t\<rparr>) = content y"
  by (simp_all add: content_def)

lemma scan_row_content: "scan_row r = Inr x \<Longrightarrow> n_ID x = id_col r \<and> content x = row_content r \<and> n_Status x = status_col r"
  by (auto simp: scan_row_def content_def row_content_def split: option.splits sum.splits)
     (cases "variable_col r"; simp)+

lemma norm_user_idem [simp]: "norm_user (norm_user u) = norm_user u"
  by (simp add: norm_user_def global_user_def)

lemma content_of_rows [simp]:
  "row_content (row_of_notification st (JsonVars (n_Variable y)) (norm_user (n_UserID y)) y) = content y"
  "row_content (mark_processing r) = row_content r"
  "row_content r = content y \<Longrightarrow> row_content (overwrite_row st (JsonVars (n_Variable y)) y r) = content y"
  by (simp_all add: row_content_def content_def row_of_notification_def mark_processing_def overwrite_row_def)

definition keeps_content :: "ndb \<Rightarrow> ndb \<Rightarrow> bool" where
  "keeps_content d d' \<longleftrightarrow> (\<forall>k r. nrow d k = Some r \<longrightarrow> (\<exists>r'. nrow d' k = Some r' \<and> row_content r' = row_content r))"

definition backed :: "ndb \<Rightarrow> Notification \<Rightarrow> bool" where
  "backed d x \<longleftrightarrow> (\<exists>r. nrow d (n_ID x) = Some r \<and> row_content r = content x)"

definition content_inv :: "ndb \<Rightarrow> ndb \<Rightarrow> memory \<Rightarrow> bool" where
  "content_inv d0 d M \<longleftrightarrow> keeps_content d0 d \<and> (\<forall>(p, x) \<in> M. backed d x)"

lemma keeps_content_refl [simp]: "nrow d' = nrow d \<Longrightarrow> keeps_content d d'"
  by (simp add: keeps_content_def)

lemma keeps_content_trans: "keeps_content d d' \<Longrightarrow> keeps_content d' d'' \<Longrightarrow> keeps_content d d''"
  by (fastforce simp: keeps_content_def)

lemma backed_keeps: "backed d x \<Longrightarrow> keeps_content d d' \<Longrightarrow> n_ID y = n_ID x \<Longrightarrow> content y = content x \<Longrightarrow> backed d' y"
  by (fastforce simp: backed_def keeps_content_def)

lemma update_keeps:
  assumes "backed d y" and "NotificationRepository_Update y d = (r, d')"
  shows "keeps_content d d'"
  using Update_nrow [OF assms(2)] assms(1) by (auto simp: keeps_content_def backed_def)

lemma writes_same: "writes p x y K \<Longrightarrow> n_ID y = n_ID x \<and> content y = content x"
  by (induction rule: writes.induct) simp_all

lemma writes_kept: "writes p x y K \<Longrightarrow> (q, z) \<in> K \<Longrightarrow> z = y"
  by (induction rule: writes.induct) simp_all

lemma claim_keeps:
  assumes g: "NotificationRepository_GetReadyJobs d = (r, d')" and k: "keyed_rows d"
  shows "keeps_content d d'" and "r = Inr ns \<Longrightarrow> x \<in> set ns \<Longrightarrow> backed d x"
proof -
  note p = Poll_nrow [OF g k [unfolded keyed_rows_def]]
  show "keeps_content d d'" using p(1) by (auto simp: keeps_content_def)
  assume "r = Inr ns" "x \<in> set ns"
  then obtain row where "nrow d (n_ID x) = Some row" "scan_row (mark_processing row) = Inr x" using p(2) by blast
  then show "backed d x" using scan_row_content [of "mark_processing row" x] by (auto simp: backed_def)
qed

lemma content_inv_extend:
  assumes "content_inv d0 d M" and "keeps_content d d'" and "\<And>p x. (p, x) \<in> M' \<Longrightarrow> (p, x) \<in> M \<or> backed d' x"
  shows "content_inv d0 d' M'"
  unfolding content_inv_def
proof (intro conjI ballI)
  show "keeps_content d0 d'" using assms(1,2) keeps_content_trans by (auto simp: content_inv_def)
  fix z
  assume "z \<in> M'"
  moreover obtain p x where "z = (p, x)" by fastforce
  moreover have "backed d' x" if "(p, x) \<in> M" for p x
    using assms(1) that backed_keeps [OF _ assms(2) refl refl] by (auto simp: content_inv_def)
  ultimately show "case z of (p, x) \<Rightarrow> backed d' x" using assms(3) by auto
qed

interpretation contents: flow_invariant "content_inv d0" for d0
proof
  fix d M d' M'
  assume f: "flow d M d' M'" and k: "keyed_rows d" and inv: "content_inv d0 d M"
  have b: "backed d x" if "(p, x) \<in> M" for p x using inv that by (auto simp: content_inv_def)
  show "content_inv d0 d' M'"
    using f
  proof (cases rule: flow.cases)
    case move
    have same: "keeps_content d d'" using nrow_same [OF move(1)] by simp
    have "backed d' x" if "(q, x) \<in> M'" for q x using that move(2) b backed_keeps [OF _ same refl refl] by blast
    then show ?thesis using content_inv_extend [OF inv same] by blast
  next
    case (writing p x y K r)
    have y: "backed d y" using b [OF writing(1)] writes_same [OF writing(2)] by (simp add: backed_def)
    note kept = update_keeps [OF y writing(3)]
    show ?thesis
    proof (rule content_inv_extend [OF inv kept])
      show "(q, z) \<in> M' \<Longrightarrow> (q, z) \<in> M \<or> backed d' z" for q z
        using writing(4) writes_kept [OF writing(2)] backed_keeps [OF y kept refl refl] by auto
    qed
  next
    case (dispatch x v)
    note kept = update_keeps [OF b [OF dispatch(1)] dispatch(2)]
    show ?thesis
    proof (rule content_inv_extend [OF inv kept])
      show "(q, z) \<in> M' \<Longrightarrow> (q, z) \<in> M \<or> backed d' z" for q z
        using dispatch(3) backed_keeps [OF b [OF dispatch(1)] kept refl refl] by auto
    qed
  next
    case (claim r)
    note c = claim_keeps [OF claim(1) k]
    show ?thesis
    proof (rule content_inv_extend [OF inv c(1)])
      show "(q, z) \<in> M' \<Longrightarrow> (q, z) \<in> M \<or> backed d' z" for q z
        using claim(2) c(2) backed_keeps [OF _ c(1) refl refl] by auto
    qed
  next
    case (save x r)
    have kept: "keeps_content d d'" using Save_nrow [OF save(1)] by (auto simp: keeps_content_def)
    have "backed d' x" if "r = Inr v" for v using Save_nrow [OF save(1)] that by (simp add: backed_def)
    then have "(q, z) \<in> M' \<Longrightarrow> (q, z) \<in> M \<or> backed d' z" for q z using save(4) by auto
    then show ?thesis by (rule content_inv_extend [OF inv kept])
  next
    case (fetch k' x t)
    have nr: "nrow d' = nrow d" using Get_notifications [OF fetch(1)] by (intro nrow_same) simp
    obtain row where row: "nrow d k' = Some row" "scan_row row = Inr x"
      using Get_row [OF fetch(1) k [unfolded keyed_rows_def]] by blast
    then have "backed d' (x\<lparr>n_Status := Pending, n_NextRetryAt := t\<rparr>)"
      using scan_row_content [OF row(2)] nrow_id [OF row(1)] by (simp add: backed_def nr)
    then have "(q, z) \<in> M' \<Longrightarrow> (q, z) \<in> M \<or> backed d' z" for q z using fetch(3) by auto
    then show ?thesis by (rule content_inv_extend [OF inv keeps_content_refl [OF nr]])
  qed
qed

lemma run_contents:
  assumes "svc_run P n d0 S" and "n = main_system w key sender u a" and "keyed_rows d0"
  shows "keyed_rows (store (rt S)) \<and> content_inv d0 (store (rt S)) (placed S)"
  using contents.run [OF assms, of d0] by (simp add: content_inv_def)

lemma svc_step_keeps:
  assumes "svc_step n S S'" and "n = main_system w key sender u a" and "keyed_rows (store (rt S))"
    and "content_inv d0 (store (rt S)) (placed S)"
  shows "keeps_content (store (rt S)) (store (rt S'))"
  using contents.flow_step [OF svc_step_flow [OF assms(1,2)] assms(3), of "store (rt S)"] assms(4)
  by (simp add: content_inv_def)

section \<open>Rows that no process takes up again\<close>

definition frozen :: "string \<Rightarrow> notif_row \<Rightarrow> ndb \<Rightarrow> memory \<Rightarrow> bool" where
  "frozen k r d M \<longleftrightarrow> status_col r \<in> {Processing, Sent, DLQ} \<and> nrow d k = Some r \<and> (\<forall>(p, x) \<in> M. n_ID x \<noteq> k)"

lemma unclaimed:
  assumes "nrow d k = Some r" and "status_col r \<noteq> Pending" and "keyed_rows d"
  shows "k \<notin> set (claimed_by d)"
proof
  assume "k \<in> set (claimed_by d)"
  then obtain r' where r': "r' \<in> set (notifications (tables d))" "id_col r' = k" "job_ready (db_now d) r'"
    using jobs.claim_keys_subset by blast
  then have "nrow d k = Some r'" using row_of_keyed assms(3) by (auto simp: nrow_def keyed_rows_def)
  then show False using assms(1,2) r'(3) by (simp add: job_ready_def)
qed

text \<open>What a claim does to a row that is not PENDING, and which notifications it returns.\<close>

lemma claim_spares:
  assumes g: "NotificationRepository_GetReadyJobs d = (r, d')" and k: "keyed_rows d" and row: "nrow d k = Some row" "status_col row \<noteq> Pending"
  shows "nrow d' k = Some row" and "r = Inr ns \<Longrightarrow> x \<in> set ns \<Longrightarrow> n_ID x \<noteq> k"
proof -
  note p = Poll_nrow [OF g k [unfolded keyed_rows_def]]
  show "nrow d' k = Some row" using p(1) unclaimed [OF row k] row(1) by auto
  assume "r = Inr ns" "x \<in> set ns"
  then show "n_ID x \<noteq> k" using p(2) row by (fastforce simp: job_ready_def)
qed

interpretation frozen: flow_invariant "frozen k r" for k r
proof
  fix d M d' M'
  assume f: "flow d M d' M'" and k: "keyed_rows d" and inv: "frozen k r d M"
  have r: "nrow d k = Some r" "status_col r \<noteq> Pending" "status_col r \<noteq> Scheduled" using inv by (auto simp: frozen_def)
  have free: "n_ID x \<noteq> k" if "(p, x) \<in> M" for p x using inv that by (auto simp: frozen_def)
  have kept: "frozen k r d' M'" if "nrow d' k = Some r" "\<And>p x. (p, x) \<in> M' \<Longrightarrow> n_ID x \<noteq> k"
    using inv that by (auto simp: frozen_def)
  show "frozen k r d' M'"
    using f
  proof (cases rule: flow.cases)
    case move
    show ?thesis using nrow_same [OF move(1)] r(1) move(2) free by (intro kept) auto
  next
    case (writing p x y K q)
    have "n_ID y \<noteq> k" using free [OF writing(1)] writes_same [OF writing(2)] by simp
    then have "(q, z) \<in> M' \<Longrightarrow> n_ID z \<noteq> k" for q z using writing(4) free writes_kept [OF writing(2)] by blast
    then show ?thesis using Update_nrow [OF writing(3)] r(1) \<open>n_ID y \<noteq> k\<close> by (intro kept) auto
  next
    case (dispatch x v)
    have "n_ID x \<noteq> k" using free [OF dispatch(1)] .
    moreover have "(q, z) \<in> M' \<Longrightarrow> n_ID z \<noteq> k" for q z using dispatch(3) free \<open>n_ID x \<noteq> k\<close> by auto
    ultimately show ?thesis using Update_nrow [OF dispatch(2)] r(1) by (intro kept) auto
  next
    case (claim q)
    note c = claim_spares [OF claim(1) k r(1,2)]
    have "(p, z) \<in> M' \<Longrightarrow> n_ID z \<noteq> k" for p z using claim(2) c(2) free by blast
    then show ?thesis by (rule kept [OF c(1)])
  next
    case (save x q)
    have s: "nrow d' k = Some r" "q = Inr v \<Longrightarrow> n_ID x \<noteq> k" for v using Save_nrow [OF save(1)] r(1) by auto
    have "(p, z) \<in> M' \<Longrightarrow> n_ID z \<noteq> k" for p z using save(4) s(2) free by blast
    then show ?thesis by (rule kept [OF s(1)])
  next
    case (fetch k' x t)
    have nr: "nrow d' = nrow d" using Get_notifications [OF fetch(1)] by (intro nrow_same) simp
    obtain row where row: "nrow d k' = Some row" "scan_row row = Inr x"
      using Get_row [OF fetch(1) k [unfolded keyed_rows_def]] by blast
    then have "k' \<noteq> k" using scan_row_Inr [OF row(2)] fetch(2) r(1,3) by auto
    then have "n_ID x \<noteq> k" using scan_row_Inr [OF row(2)] nrow_id [OF row(1)] by simp
    then have "(p, z) \<in> M' \<Longrightarrow> n_ID z \<noteq> k" for p z using fetch(3) free by fastforce
    then show ?thesis using nr r(1) by (intro kept) simp_all
  qed
qed

section \<open>The channel, the flags and the workers\<close>

definition live :: "courier list \<Rightarrow> nat" where
  "live ws = length (filter (\<lambda>w. w \<noteq> Gone) ws)"

lemma live_update:
  "i < length ws \<Longrightarrow> ws ! i \<noteq> Gone \<Longrightarrow> live (ws[i := w]) = (if w = Gone then live ws - 1 else live ws) \<and> live ws > 0"
proof (induction ws arbitrary: i)
  case Nil
  then show ?case by simp
next
  case (Cons x ws)
  then show ?case
  proof (cases i)
    case 0
    then show ?thesis using Cons.prems by (simp add: live_def)
  next
    case (Suc j)
    have c: "live (x # vs) = live vs + (if x = Gone then 0 else 1)" for vs by (simp add: live_def)
    have "live (ws[j := w]) = (if w = Gone then live ws - 1 else live ws)" "live ws > 0"
      using Cons.IH [of j] Cons.prems Suc by simp_all
    then show ?thesis by (simp add: Suc c)
  qed
qed

definition svc_inv :: "svc \<Rightarrow> bool" where
  "svc_inv S \<longleftrightarrow> capacity (rt S) = 256 \<and> length (channel (rt S)) \<le> 256 \<and> h_in S = h_out S @ channel (rt S)
     \<and> live_workers (rt S) = live (couriers S) \<and> (shutting_down (rt S) \<longrightarrow> ctx_done (rt S))
     \<and> (ch_closed (rt S) \<longrightarrow> shutting_down (rt S) \<and> live (couriers S) = 0) \<and> (crashed S \<longrightarrow> ch_closed (rt S))"

lemma svc_inv_start: "svc_inv (start_service n d)"
  by (simp add: svc_inv_def start_service_def NotificationSystem.Start_def main_runtime_def live_def)

lemma svc_inv_courier:
  "svc_inv S \<Longrightarrow> i < length (couriers S) \<Longrightarrow> couriers S ! i \<noteq> Gone \<Longrightarrow> w \<noteq> Gone \<Longrightarrow> svc_inv (set_courier i w (put d S))"
  "svc_inv S \<Longrightarrow> i < length (couriers S) \<Longrightarrow> couriers S ! i \<noteq> Gone \<Longrightarrow> w \<noteq> Gone \<Longrightarrow> svc_inv (set_courier i w S)"
  using live_update [of i "couriers S" w] by (auto simp: svc_inv_def)

lemma svc_inv_put [simp]: "svc_inv (put d S) = svc_inv S"
  by (simp add: svc_inv_def)

lemma svc_inv_calls [simp]: "svc_inv (drop_call i S) = svc_inv S" "svc_inv (set_call i a S) = svc_inv S"
  "svc_inv (S\<lparr>calls := cs\<rparr>) = svc_inv S" "svc_inv (S\<lparr>poll := p\<rparr>) = svc_inv S" "svc_inv (S\<lparr>stage := g\<rparr>) = svc_inv S"
  by (simp_all add: svc_inv_def)

lemma svc_inv_enqueue:
  "svc_inv S \<Longrightarrow> \<not> ch_closed (rt S) \<Longrightarrow> length (channel (rt S)) < capacity (rt S) \<Longrightarrow> svc_inv (enqueue x S)"
  by (simp add: svc_inv_def)

lemma select_cases:
  "select_send_or_done pick r = SendChosen \<Longrightarrow> \<not> ch_closed r \<and> length (channel r) < capacity r"
  "select_send_or_done pick r = SendOnClosed \<Longrightarrow> ch_closed r"
  "select_send_or_done pick r = DoneChosen \<Longrightarrow> ctx_done r"
  by (auto simp: select_send_or_done_def Let_def split: if_splits)

lemma svc_inv_step:
  assumes step: "svc_step n S S'" and n: "n = main_system w key sender u a" and inv: "svc_inv S"
  shows "svc_inv S'"
  using step
proof (cases rule: svc_step.cases)
  case (take i x xs)
  have "svc_inv (S\<lparr>rt := (rt S)\<lparr>channel := xs\<rparr>, h_out := h_out S @ [x]\<rparr>)" using inv take(4) by (simp add: svc_inv_def)
  then show ?thesis using svc_inv_courier(2) [of _ i "Received x"] take by simp
next
  case (leave i)
  then show ?thesis using live_update [of i "couriers S" Gone] inv by (auto simp: svc_inv_def)
next
  case (record_outcome i x err now)
  then show ?thesis using svc_inv_courier [OF inv, of i]
    by (auto simp: record_outcome_def n Let_def split: sum.split option.split prod.split)
next
  case poll_jobs
  then show ?thesis using inv by (auto simp: poll_jobs_def split: prod.split sum.split)
next
  case (poll_select x xs pick)
  then show ?thesis using inv svc_inv_enqueue [OF inv] select_cases [of pick "rt S"]
    by (auto simp: poll_select_def svc_inv_def split: select_send.split)
next
  case (begin_create arg)
  then show ?thesis using inv by (simp add: begin_create_def)
next
  case (count_create i arg)
  then show ?thesis using inv by (simp add: count_create_def split: prod.split sum.split)
next
  case (check_template i arg)
  then show ?thesis using inv by (simp add: check_template_def split: prod.split sum.split)
next
  case (save_create i arg now1 now2 uuid)
  then show ?thesis using inv by (auto simp: save_create_def Let_def split: prod.split sum.split)
next
  case (push_created i x pick)
  then show ?thesis using inv svc_inv_enqueue [OF inv] select_cases [of pick "rt S"]
    by (auto simp: push_created_def split: select_send.split)
next
  case (delegate i x t fmt http)
  then show ?thesis using inv by (auto simp: delegate_def Let_def split: prod.split sum.split)
next
  case (get_dispatch now ident)
  then show ?thesis using inv by (auto simp: get_dispatch_def split: prod.split sum.split)
next
  case (update_dispatch i x)
  then show ?thesis using inv by (auto simp: update_dispatch_def split: prod.split sum.split)
next
  case (push_dispatch i x)
  then show ?thesis using inv svc_inv_enqueue [OF inv] by (simp add: push_dispatch_def)
next
  case shutdown
  then show ?thesis using inv by (auto simp: svc_inv_def Shutdown_def Let_def)
next
  case (mark i x)
  then show ?thesis using svc_inv_courier(1) [OF inv, of i] by (simp add: mark_def Let_def split: prod.split)
next
  case (ask_sender i x env)
  then show ?thesis using svc_inv_courier(1) [OF inv, of i] by (simp add: ask_sender_def split: prod.split)
next
  case (archive i x)
  then show ?thesis using svc_inv_courier(1) [OF inv, of i] by (simp add: archive_def split: prod.split)
next
  case (check_shutdown x xs)
  then show ?thesis using inv by (simp add: check_shutdown_def)
next
  case signal
  then show ?thesis using inv by (simp add: svc_inv_def)
next
  case (outside d)
  then show ?thesis using inv by simp
qed (use inv in simp_all)

lemma run_inv:
  assumes "svc_run P n d0 S" and "n = main_system w key sender u a"
  shows "svc_inv S"
  using assms(1) by (induction rule: svc_run.induct) (simp_all add: svc_inv_start svc_inv_step [OF _ assms(2)])

end
