(* ===== verification/ServiceTheorems.thy ===== *)
theory ServiceTheorems
  imports ServiceSafety
begin

text \<open>
  The properties of the notification service as a whole, over every interleaving of \<open>ServiceRun\<close>: the
  channel's invariant, the integrity of what is delivered, the limit of 100 notifications under concurrent
  requests, and what a restart never takes up again.
\<close>

section \<open>The number of notifications\<close>

fun is_checked :: "api_call \<Rightarrow> bool" where
  "is_checked (Counted a) = True"
| "is_checked (Checked a) = True"
| "is_checked _ = False"

text \<open>How many creations are between their count and their insert.\<close>

definition crowd :: "svc \<Rightarrow> nat" where
  "crowd S = length (filter is_checked (calls S))"

lemma crowd_split:
  assumes "i < length cs"
  shows "length (filter f (take i cs @ drop (Suc i) cs)) = length (filter f cs) - (if f (cs ! i) then 1 else 0)"
    and "length (filter f (cs[i := b])) = length (filter f cs) - (if f (cs ! i) then 1 else 0) + (if f b then 1 else 0)"
    and "f (cs ! i) \<Longrightarrow> length (filter f cs) > 0"
proof -
  have "length (filter f cs) = length (filter f (take i cs @ cs ! i # drop (Suc i) cs))" using assms by (simp flip: id_take_nth_drop)
  then show "length (filter f (take i cs @ drop (Suc i) cs)) = length (filter f cs) - (if f (cs ! i) then 1 else 0)"
    and "length (filter f (cs[i := b])) = length (filter f cs) - (if f (cs ! i) then 1 else 0) + (if f b then 1 else 0)"
    and "f (cs ! i) \<Longrightarrow> length (filter f cs) > 0"
    using assms by (simp_all add: upd_conv_take_nth_drop)
qed

abbreviation svc_rows :: "svc \<Rightarrow> nat" where
  "svc_rows S \<equiv> row_count (store (rt S))"

lemma row_count_same: "notifications (tables d') = notifications (tables d) \<Longrightarrow> row_count d' = row_count d"
  by (simp add: row_count_def)

lemma Update_rows: "row_count (snd (NotificationRepository_Update y d)) = row_count d"
  by (auto simp: Update_exec row_count_def update_key_def split: prod.splits dest!: exec_sql_tables)

lemma Poll_rows:
  assumes "NotificationRepository_GetReadyJobs d = (r, d')"
  shows "row_count d' = row_count d"
proof -
  have "notifications (tables d') = notifications (tables d) \<or> notifications (tables d') = snd (claim_ready_jobs d (notifications (tables d)))"
    using GetReadyJobs_tables [OF assms] by blast
  then show ?thesis by (auto simp: row_count_def claim_ready_jobs_def)
qed

lemma crowd_sel [simp]:
  "crowd (put d S) = crowd S" "crowd (set_courier i w S) = crowd S" "crowd (enqueue x S) = crowd S"
  "crowd (S\<lparr>poll := p\<rparr>) = crowd S" "crowd (S\<lparr>rt := r\<rparr>) = crowd S" "crowd (S\<lparr>stage := g\<rparr>) = crowd S"
  by (simp_all add: crowd_def)

lemma crowd_calls:
  "i < length (calls S) \<Longrightarrow> \<not> is_checked (calls S ! i) \<Longrightarrow> crowd (drop_call i S) = crowd S"
  "i < length (calls S) \<Longrightarrow> \<not> is_checked (calls S ! i) \<Longrightarrow> \<not> is_checked b \<Longrightarrow> crowd (set_call i b S) = crowd S"
  "i < length (calls S) \<Longrightarrow> is_checked (calls S ! i) \<Longrightarrow> Suc (crowd (drop_call i S)) = crowd S"
  "i < length (calls S) \<Longrightarrow> is_checked (calls S ! i) \<Longrightarrow> \<not> is_checked b \<Longrightarrow> Suc (crowd (set_call i b S)) = crowd S"
  "i < length (calls S) \<Longrightarrow> \<not> is_checked (calls S ! i) \<Longrightarrow> is_checked b \<Longrightarrow> crowd (set_call i b S) = Suc (crowd S)"
  "i < length (calls S) \<Longrightarrow> is_checked (calls S ! i) \<Longrightarrow> is_checked b \<Longrightarrow> crowd (set_call i b S) = crowd S"
  using crowd_split [of i "calls S" is_checked] by (simp_all add: crowd_def)

lemma count_create_counts:
  assumes n: "n = main_system w key sender u a" and i: "i < length (calls S)" "calls S ! i = Entered arg"
  shows "svc_rows (count_create n i arg S) = svc_rows S \<and> (crowd (count_create n i arg S) = crowd S
     \<or> svc_rows S < 100 \<and> crowd (count_create n i arg S) = Suc (crowd S))"
proof -
  obtain r d where c: "NotificationRepository_GetTotalCount (store (rt S)) = (r, d)" by fastforce
  have "r = Inr (int (svc_rows S)) \<or> (\<exists>e. r = Inl e)" "row_count d = svc_rows S"
    using GetTotalCount_cases [OF c] Count_tables [OF c] by (simp_all add: row_count_def)
  then show ?thesis
    using c i crowd_calls(1) [of i "put d S"] crowd_calls(5) [of i "put d S" "Counted arg"]
    by (auto simp: count_create_def n max_total_def split: if_splits)
qed

lemma check_template_counts:
  assumes n: "n = main_system w key sender u a" and i: "i < length (calls S)" "calls S ! i = Counted arg"
  shows "svc_rows (check_template n i arg S) = svc_rows S \<and> (crowd (check_template n i arg S) = crowd S
     \<or> Suc (crowd (check_template n i arg S)) = crowd S)"
proof -
  obtain r d where t: "TemplateRepository_Get (ca_template arg) (ca_userID arg) (store (rt S)) = (r, d)" by fastforce
  have "row_count d = svc_rows S" using Template_tables [OF t] by (simp add: row_count_def)
  then show ?thesis
    using t i crowd_calls(3) [of i "put d S"] crowd_calls(6) [of i "put d S" "Checked arg"]
    by (cases r) (simp_all add: check_template_def n)
qed

text \<open>What a step does to the number of rows and of creations in progress.\<close>

lemma count_step:
  assumes step: "svc_step n S S'" and n: "n = main_system w key sender u a"
  obtains (same) "svc_rows S' = svc_rows S" "crowd S' = crowd S"
    | (enter) "svc_rows S' = svc_rows S" "svc_rows S < 100" "crowd S' = Suc (crowd S)"
    | (leave) "svc_rows S' = svc_rows S" "Suc (crowd S') = crowd S"
    | (save) "svc_rows S' \<le> Suc (svc_rows S)" "Suc (crowd S') = crowd S"
  using step
proof (cases rule: svc_step.cases)
  case (mark i x)
  then show thesis by (intro same) (simp_all add: mark_def n Let_def case_prod_beta Update_rows)
next
  case (ask_sender i x env)
  obtain r d where j: "Job n env x (store (rt S)) = (r, d)" by fastforce
  then have "row_count d = svc_rows S" using Job_tables n by (intro row_count_same) metis
  then show thesis using ask_sender j by (intro same) (simp_all add: ask_sender_def)
next
  case (record_outcome i x err now)
  then show thesis
    by (intro same) (auto simp: record_outcome_def n Let_def case_prod_beta Update_rows split: sum.split option.split)
next
  case (archive i x)
  then show thesis
    using row_count_same [OF DLQSave_notifications] by (intro same) (simp_all add: archive_def n case_prod_beta)
next
  case poll_jobs
  obtain r d where g: "NotificationRepository_GetReadyJobs (store (rt S)) = (r, d)" by fastforce
  show thesis using poll_jobs g Poll_rows [OF g] by (intro same; cases r) (simp_all add: poll_jobs_def n)
next
  case (begin_create arg)
  then show thesis by (intro same) (simp_all add: begin_create_def crowd_def)
next
  case (count_create i arg)
  show thesis using count_create_counts [OF n count_create(2,3)] count_create(1) same enter by blast
next
  case (check_template i arg)
  show thesis using check_template_counts [OF n check_template(2,3)] check_template(1) same leave by blast
next
  case (save_create i arg now1 now2 uuid)
  obtain r d where s: "NotificationRepository_Save (new_notification now1 now2 uuid arg) (store (rt S)) = (r, d)" by fastforce
  show thesis
    using save_create s Save_rows [OF s] crowd_calls(3) [of i "put d S"]
      crowd_calls(4) [of i "put d S" "Saved (new_notification now1 now2 uuid arg)"]
      crowd_calls(4) [of i "put d S" "Delegating (new_notification now1 now2 uuid arg) (ca_executeAt arg)"]
    by (intro save; cases r) (auto simp: save_create_def n Let_def)
next
  case (push_created i x pick)
  then show thesis
    using crowd_calls(1) [of i S] crowd_calls(1) [of i "enqueue x S"]
    by (intro same) (auto simp: push_created_def split: select_send.split)
next
  case (delegate i x t fmt http)
  then show thesis
    using crowd_calls(1) [of i S] crowd_calls(1) [of i "put _ S"]
    by (intro same) (auto simp: delegate_def n Let_def case_prod_beta Update_rows split: sum.split)
next
  case (get_dispatch now ident)
  obtain r d where g: "NotificationRepository_Get ident system_user (store (rt S)) = (r, d)" by fastforce
  have "row_count d = svc_rows S" using Get_notifications [OF g] by (simp add: row_count_def)
  then show thesis using get_dispatch g by (intro same; cases r) (simp_all add: get_dispatch_def n crowd_def)
next
  case (update_dispatch i x)
  obtain r d where g: "NotificationRepository_Update x (store (rt S)) = (r, d)" by fastforce
  then have "row_count d = svc_rows S" using Update_rows [of x "store (rt S)"] by simp
  then show thesis
    using update_dispatch g crowd_calls(1) [of i "put d S"] crowd_calls(2) [of i "put d S" "Pushing x"]
    by (intro same; cases r) (simp_all add: update_dispatch_def n)
next
  case (push_dispatch i x)
  then show thesis
    using crowd_calls(1) [of i S] crowd_calls(1) [of i "enqueue x S"] by (intro same) (simp_all add: push_dispatch_def)
next
  case (outside d)
  then show thesis by (intro same) (simp_all add: outside_def row_count_def)
qed (auto intro!: same simp: poll_select_def check_shutdown_def Shutdown_def Let_def crowd_def split: select_send.split)

lemma count_bound:
  assumes "svc_run (\<lambda>S. crowd S \<le> K) n d0 S" and n: "n = main_system w key sender u a" and "row_count d0 \<le> 99 + K"
  shows "svc_rows S \<le> 99 + K \<and> (crowd S > 0 \<longrightarrow> svc_rows S + crowd S \<le> 99 + K)"
  using assms(1)
proof (induction rule: svc_run.induct)
  case start
  then show ?case using assms(3)
    by (simp add: start_service_def NotificationSystem.Start_def main_runtime_def crowd_def)
next
  case (step S S')
  show ?case
    using step.IH step(4) by (cases rule: count_step [OF step(3) n]) auto
qed

section \<open>What workers have received\<close>

lemma out_step:
  assumes step: "svc_step n S S'"
  shows "set (h_out S') \<subseteq> set (h_out S) \<union> held S"
  using step
proof (cases rule: svc_step.cases)
  case (take i x xs)
  then show ?thesis by (auto simp: held_def placed_def)
qed (auto simp: mark_def ask_sender_def record_outcome_def archive_def poll_jobs_def check_shutdown_def poll_select_def
      begin_create_def count_create_def check_template_def save_create_def push_created_def delegate_def get_dispatch_def update_dispatch_def push_dispatch_def
      Let_def split: prod.splits sum.splits option.splits select_send.splits if_splits)

lemma run_frozen:
  assumes "svc_run P n d0 S" and "n = main_system w key sender u a" and "keyed_rows d0"
    and "nrow d0 k = Some r" and "status_col r \<in> {Processing, Sent, DLQ}"
  shows "frozen k r (store (rt S)) (placed S)"
  using frozen.run [OF assms(1-3), of k r] assms(4,5) by (simp add: frozen_def)

lemma run_untouched:
  assumes "svc_run P n d0 S" and "n = main_system w key sender u a" and "keyed_rows d0"
    and "nrow d0 k = Some r" and "status_col r \<in> {Processing, Sent, DLQ}"
  shows "\<forall>x \<in> set (h_out S). n_ID x \<noteq> k"
  using assms(1)
proof (induction rule: svc_run.induct)
  case start
  then show ?case by (simp add: start_service_def)
next
  case (step S S')
  have "frozen k r (store (rt S)) (placed S)" using run_frozen [OF step(1) assms(2-5)] .
  then have "\<forall>x \<in> held S. n_ID x \<noteq> k" by (auto simp: frozen_def held_def)
  then show ?case using out_step [OF step(3)] step.IH by auto
qed

section \<open>What a second copy does\<close>

text \<open>
  \<open>Process\<close> writes the status it has worked out for its own copy. When two workers have the same
  notification (as after \<open>immediate_handed_over_twice\<close>), the failure of the second delivery undoes the
  SENT of the first: the notification is PENDING again and will be delivered again.
\<close>

lemma sent_not_final:
  assumes d: "no_faults d" "pg_view d (n_ID x) \<noteq> None" and k: "0 \<le> n_RetryCount x" "n_RetryCount x < 3"
    and n: "n = main_system w key sender u a"
    and first: "Process n now1 env1 x d = (r1, d1)" "\<not> delivery_fails n env1 x d"
    and second: "Process n now2 env2 x d1 = (r2, d2)" "delivery_fails n env2 x d1"
  shows "status_of (n_ID x) d1 = Some Sent \<and> status_of (n_ID x) d2 = Some Pending"
proof -
  have m: "ns_MaxRetryCount (main_system w key sender u a) = 3" "n_RetryCount x < max_int64"
    using k by (simp_all add: max_int64_def)
  note p = pg_backend.process_known [OF _ _ k(1) m(2)]
  have a: "no_faults d1" "pg_view d1 (n_ID x) = Some \<lparr>v_status = Sent, v_retries = n_RetryCount x, v_next = stamp d (n_NextRetryAt x)\<rparr>"
    using p [OF d _ first(1) [unfolded n] refl] first(2) m(1) by (simp_all add: n delivered_view_def)
  then have "pg_view d1 (n_ID x) \<noteq> None" by simp
  with a(1) p [OF _ _ _ second(1) [unfolded n] refl] second(2) m(1) k(2)
  have "map_option v_status (pg_view d2 (n_ID x)) = Some Pending" by (simp add: n delivered_view_def)
  with a(2) show ?thesis by (simp add: status_of_def)
qed

section \<open>Properties\<close>

text \<open>
  C11. In every reachable state of the service the channel holds at most 256 notifications, workers receive
  them in the order in which they were sent and each once; the wait group counts the workers that have not
  returned; the channel is closed only after the shutdown has begun and every worker has returned - so what
  is in it then is never received - and the process crashes only after that.
\<close>

theorem service_channel_invariant:
  assumes "svc_reachable (main_system w key sender u a) d0 S"
  shows "length (channel (rt S)) \<le> 256 \<and> h_in S = h_out S @ channel (rt S)
     \<and> live_workers (rt S) = length (filter (\<lambda>w. w \<noteq> Gone) (couriers S))
     \<and> (ch_closed (rt S) \<longrightarrow> shutting_down (rt S) \<and> ctx_done (rt S) \<and> set (couriers S) \<subseteq> {Gone})
     \<and> (crashed S \<longrightarrow> ch_closed (rt S))"
proof -
  have "svc_inv S" using run_inv [OF assms refl] .
  then show ?thesis by (auto simp: svc_inv_def live_def filter_empty_conv)
qed

definition polled_state :: svc where
  "polled_state = poll_jobs demo_system (start_service demo_system two_jobs)"

lemma start_sel [simp]:
  "store (rt (start_service n d)) = d" "poll (start_service n d) = PollWaiting" "alive (start_service n d)" "stage (start_service n d) = Serving"
  "channel (rt (start_service n d)) = []" "calls (start_service n d) = []" "h_out (start_service n d) = []"
  "\<not> shutting_down (rt (start_service n d))"
  by (simp_all add: start_service_def NotificationSystem.Start_def main_runtime_def alive_def)

lemma polled_state_run: "svc_reachable demo_system two_jobs polled_state"
  unfolding polled_state_def by (rule svc_run.step [OF svc_run.start _ svc_step.poll_jobs]) simp_all

lemma polled_state_facts:
  "\<exists>x. x \<in> held polled_state \<and> n_ID x = ''a''" "status_of ''a'' (store (rt polled_state)) = Some Processing"
  "keyed_rows two_jobs"
proof -
  show k: "keyed_rows two_jobs" by (simp add: keyed_rows_def two_jobs_def jobs_exec keyed_def)
  obtain ns d where g: "NotificationRepository_GetReadyJobs two_jobs = (Inr ns, d)" and a: "''a'' \<in> set (map n_ID ns)"
    by (simp add: two_jobs_def jobs_exec)
  then have p: "polled_state = (put d (start_service demo_system two_jobs))\<lparr>poll := PollClaimed ns\<rparr>"
    by (simp add: polled_state_def poll_jobs_def demo_system_def)
  have "Pair AtPoller ` set ns \<subseteq> placed polled_state" by (auto simp: p placed_def)
  then have "set ns \<subseteq> held polled_state" by (force simp: held_def)
  then show "\<exists>x. x \<in> held polled_state \<and> n_ID x = ''a''" using a by auto
  obtain x where "x \<in> set ns" "n_ID x = ''a''" using a by auto
  then obtain row where "nrow d ''a'' = Some (mark_processing row)" using Poll_nrow(2) [OF g k [unfolded keyed_rows_def] refl] by metis
  then show "status_of ''a'' (store (rt polled_state)) = Some Processing"
    by (simp add: p status_of_def pg_view_def row_view_def mark_processing_def flip: nrow_def)
qed

theorem service_channel_invariant_witness: "length (channel (rt polled_state)) \<le> 256 \<and> h_in polled_state = h_out polled_state @ channel (rt polled_state)"
  using service_channel_invariant [OF polled_state_run [unfolded demo_system_def]] by blast

text \<open>
  C4. What is delivered is what was stored: every notification that a worker, the channel, the retry
  scheduler or a request has in memory has a row with its id, and that row has the same recipient, template,
  variables, channel and owner; no step of the service removes a row or changes these in it, whether the row
  was there at the start or was inserted since; so what was there at the start is still there.
\<close>

theorem delivery_integrity:
  assumes "svc_reachable (main_system w key sender u a) d0 S" and "keyed_rows d0"
  shows "(\<forall>x \<in> held S. \<exists>r. nrow (store (rt S)) (n_ID x) = Some r \<and> row_content r = content x)
     \<and> (svc_step (main_system w key sender u a) S S' \<longrightarrow>
          (\<forall>k r. nrow (store (rt S)) k = Some r \<longrightarrow> (\<exists>r'. nrow (store (rt S')) k = Some r' \<and> row_content r' = row_content r)))
     \<and> (\<forall>k r0. nrow d0 k = Some r0 \<longrightarrow> (\<exists>r. nrow (store (rt S)) k = Some r \<and> row_content r = row_content r0))"
proof -
  have inv: "keyed_rows (store (rt S))" "content_inv d0 (store (rt S)) (placed S)"
    using run_contents [OF assms(1) refl assms(2)] by simp_all
  have "keeps_content (store (rt S)) (store (rt S'))" if "svc_step (main_system w key sender u a) S S'"
    using svc_step_keeps [OF that refl inv] .
  then show ?thesis using inv(2) by (auto simp: content_inv_def backed_def keeps_content_def held_def)
qed

theorem delivery_integrity_witness:
  "\<exists>x \<in> held polled_state. n_ID x = ''a'' \<and> (\<exists>r. nrow (store (rt polled_state)) ''a'' = Some r \<and> row_content r = content x)"
proof -
  obtain x where x: "x \<in> held polled_state" "n_ID x = ''a''" using polled_state_facts(1) by blast
  have "\<forall>x \<in> held polled_state. \<exists>r. nrow (store (rt polled_state)) (n_ID x) = Some r \<and> row_content r = content x"
    using delivery_integrity [OF polled_state_run [unfolded demo_system_def] polled_state_facts(3)] by blast
  with x show ?thesis by fastforce
qed

text \<open>
  C34. A restart loses what was in progress: a notification that is PROCESSING in the table when a process
  ends - claimed, in the channel or with a worker - stays PROCESSING in every run of the next process, and
  none of its workers ever receives it. There is no recovery as in the task scheduler.
\<close>

theorem restart_strands:
  assumes "svc_reachable (main_system w key sender u a) d0 S" and "keyed_rows d0"
    and "status_of k (store (rt S)) = Some Processing"
    and next_run: "svc_reachable (main_system w' key' sender' u' a') (store (rt S)) S'"
  shows "status_of k (store (rt S')) = Some Processing \<and> (\<forall>x \<in> set (h_out S'). n_ID x \<noteq> k)"
proof -
  have keyed: "keyed_rows (store (rt S))" using run_contents [OF assms(1) refl assms(2)] by simp
  obtain r where r: "nrow (store (rt S)) k = Some r" "status_col r = Processing"
    using assms(3) by (auto simp: status_of_def pg_view_def nrow_def row_view_def)
  then have "nrow (store (rt S')) k = Some r" using run_frozen [OF next_run refl keyed, of k r] by (simp add: frozen_def)
  then have "status_of k (store (rt S')) = Some Processing"
    using r(2) by (simp add: status_of_def pg_view_def nrow_def row_view_def)
  with run_untouched [OF next_run refl keyed r(1)] r(2) show ?thesis by simp
qed

theorem restart_strands_witness:
  "status_of ''a'' (store (rt (start_service demo_system (store (rt polled_state))))) = Some Processing"
proof -
  have "svc_reachable demo_system (store (rt polled_state)) (start_service demo_system (store (rt polled_state)))"
    by (rule svc_run.start)
  then show ?thesis
    using restart_strands [OF polled_state_run [unfolded demo_system_def] polled_state_facts(3,2)]
    unfolding demo_system_def by blast
qed

text \<open>
  C32. The limit of 100 notifications is exceeded by no more than the overlap: if at every time at most \<open>K\<close>
  creations are between their count and their insert, the table never has more than \<open>99 + K\<close> rows; with one
  creation at a time that is the limit itself.
\<close>

theorem threshold_bound:
  assumes "svc_run (\<lambda>S. crowd S \<le> K) (main_system w key sender u a) d0 S" and "row_count d0 \<le> 99 + K"
  shows "row_count (store (rt S)) \<le> 99 + K"
  using count_bound [OF assms(1) refl assms(2)] by simp

theorem threshold_bound_witness:
  "svc_run (\<lambda>S. crowd S \<le> 1) demo_system (full_db 2) (begin_create (demo_args 7) (start_service demo_system (full_db 2)))
   \<and> row_count (store (rt (count_create demo_system 0 (demo_args 7) (begin_create (demo_args 7) (start_service demo_system (full_db 2)))))) \<le> 100"
proof -
  let ?S1 = "begin_create (demo_args 7) (start_service demo_system (full_db 2))"
  let ?S2 = "count_create demo_system 0 (demo_args 7) ?S1"
  have c: "calls ?S1 = [Entered (demo_args 7)]"
    by (simp add: begin_create_def start_service_def NotificationSystem.Start_def main_runtime_def)
  then have "crowd ?S1 = 0" by (simp add: crowd_def)
  then have r1: "svc_run (\<lambda>S. crowd S \<le> 1) demo_system (full_db 2) ?S1"
    by (intro svc_run.step [OF svc_run.start _ svc_step.begin_create]) simp_all
  have "crowd ?S2 \<le> 1"
    using c by (auto simp: count_create_def crowd_def split: prod.split sum.split)
  moreover have "alive ?S1" by (simp add: begin_create_def)
  ultimately have r2: "svc_run (\<lambda>S. crowd S \<le> 1) demo_system (full_db 2) ?S2"
    using c by (intro svc_run.step [OF r1 _ svc_step.count_create]) simp_all
  have "row_count (full_db 2) \<le> 99 + 1" by (simp add: full_db_facts)
  with r1 threshold_bound [OF r2 [unfolded demo_system_def]] show ?thesis by (simp add: demo_system_def)
qed

end
