(* ===== verification/ServiceExit.thy ===== *)
theory ServiceExit
  imports ServiceTheorems
begin

text \<open>
  The end of the notification service: the stages that \<open>main\<close> goes through, what is left of the requests
  when the HTTP server has been shut down, and that the process can always come to its end.
\<close>

section \<open>The order of the stages\<close>

fun stage_rank :: "main_stage \<Rightarrow> nat" where
  "stage_rank Serving = 0"
| "stage_rank Draining = 1"
| "stage_rank Drained = 2"
| "stage_rank TimedOut = 3"
| "stage_rank Exited = 4"

instantiation main_stage :: linorder
begin

definition less_eq_main_stage :: "main_stage \<Rightarrow> main_stage \<Rightarrow> bool" where
  "a \<le> b \<longleftrightarrow> stage_rank a \<le> stage_rank b"

definition less_main_stage :: "main_stage \<Rightarrow> main_stage \<Rightarrow> bool" where
  "a < b \<longleftrightarrow> stage_rank a < stage_rank b"

instance
proof
  fix a b :: main_stage
  show "a \<le> b \<Longrightarrow> b \<le> a \<Longrightarrow> a = b" by (cases a; cases b) (simp_all add: less_eq_main_stage_def)
qed (auto simp: less_eq_main_stage_def less_main_stage_def)

end

lemma stage_le [simp]:
  "Serving \<le> g" "g \<le> Exited" "Draining \<le> g \<longleftrightarrow> g \<noteq> Serving" "Drained \<le> g \<longleftrightarrow> g \<in> {Drained, TimedOut, Exited}"
  by (cases g; simp add: less_eq_main_stage_def)+

section \<open>What holds on the way\<close>

definition exit_inv :: "svc \<Rightarrow> bool" where
  "exit_inv S \<longleftrightarrow> (stage S = Drained \<longrightarrow> calls S = []) \<and> (Draining \<le> stage S \<longrightarrow> ctx_done (rt S))
     \<and> (ch_closed (rt S) \<longrightarrow> Drained \<le> stage S) \<and> (crashed S \<longrightarrow> (\<exists>x xs. poll S = PollChecked x xs))"

text \<open>What a step may do to the parts that the invariant is about.\<close>

definition exit_frame :: "svc \<Rightarrow> svc \<Rightarrow> bool" where
  "exit_frame S S' \<longleftrightarrow> stage S' = stage S \<and> (stage S = Drained \<longrightarrow> calls S' = calls S)
     \<and> ctx_done (rt S') = ctx_done (rt S) \<and> ch_closed (rt S') = ch_closed (rt S) \<and> crashed S' = crashed S"

lemma exit_frame_inv: "exit_frame S S' \<Longrightarrow> exit_inv S \<Longrightarrow> \<not> crashed S \<Longrightarrow> exit_inv S'"
  by (auto simp: exit_frame_def exit_inv_def)

lemma exit_frame_record:
  "exit_frame S (record_outcome n now i x err S)"
  by (auto simp: exit_frame_def record_outcome_def Let_def split: sum.split option.split prod.split)

lemma exit_inv_step:
  assumes step: "svc_step n S S'" and n: "n = main_system w key sender u a" and inv: "exit_inv S" and live: "alive S"
  shows "exit_inv S' \<and> stage S \<le> stage S'"
proof -
  have frame: "exit_inv S' \<and> stage S \<le> stage S'" if "exit_frame S S'"
    using exit_frame_inv [OF that inv] live that by (simp add: alive_def exit_frame_def)
  show ?thesis
    using step
  proof (cases rule: svc_step.cases)
    case (record_outcome i x err now)
    then show ?thesis using frame exit_frame_record by simp
  next
    case (begin_create arg)
    then show ?thesis by (intro frame) (simp add: exit_frame_def begin_create_def)
  next
    case (count_create i arg)
    then show ?thesis using inv by (auto simp: exit_inv_def count_create_def split: prod.split sum.split)
  next
    case (check_template i arg)
    then show ?thesis using inv by (auto simp: exit_inv_def check_template_def split: prod.split sum.split)
  next
    case (mark i x)
    then show ?thesis by (intro frame) (simp add: exit_frame_def mark_def Let_def split: prod.split)
  next
    case (ask_sender i x env)
    then show ?thesis by (intro frame) (simp add: exit_frame_def ask_sender_def split: prod.split)
  next
    case (archive i x)
    then show ?thesis by (intro frame) (simp add: exit_frame_def archive_def split: prod.split)
  next
    case poll_jobs
    then show ?thesis by (intro frame) (simp add: exit_frame_def poll_jobs_def split: prod.split sum.split)
  next
    case (poll_select x xs pick)
    then show ?thesis
      using inv live by (auto simp: poll_select_def exit_inv_def alive_def split: select_send.split)
  next
    case (save_create i arg now1 now2 uuid)
    then show ?thesis using inv by (auto simp: exit_inv_def save_create_def Let_def split: prod.split sum.split)
  next
    case (push_created i x pick)
    then show ?thesis using inv by (auto simp: exit_inv_def push_created_def split: select_send.split)
  next
    case (delegate i x t fmt http)
    then show ?thesis using inv by (auto simp: exit_inv_def delegate_def Let_def split: prod.split sum.split)
  next
    case (get_dispatch now ident)
    then show ?thesis by (intro frame) (auto simp: exit_frame_def get_dispatch_def split: prod.split sum.split)
  next
    case (update_dispatch i x)
    then show ?thesis using inv by (auto simp: exit_inv_def update_dispatch_def split: prod.split sum.split)
  next
    case (push_dispatch i x)
    then show ?thesis using inv by (auto simp: exit_inv_def push_dispatch_def)
  qed (use inv live in \<open>auto simp: exit_inv_def exit_frame_def alive_def check_shutdown_def Shutdown_def Let_def\<close>)
qed

lemma run_exit_inv:
  assumes "svc_run P n d0 S" and "n = main_system w key sender u a"
  shows "exit_inv S"
  using assms(1)
proof (induction rule: svc_run.induct)
  case start
  show ?case by (simp add: exit_inv_def start_service_def NotificationSystem.Start_def main_runtime_def)
next
  case (step S S')
  then show ?case using exit_inv_step [OF step(3) assms(2)] by blast
qed


section \<open>The way out\<close>

fun work_left :: "courier \<Rightarrow> nat" where
  "work_left (Received x) = 5"
| "work_left (Marked x) = 4"
| "work_left (Told x err) = 3"
| "work_left (Archiving x) = 2"
| "work_left Idle = 1"
| "work_left Gone = 0"

definition workers_left :: "svc \<Rightarrow> nat" where
  "workers_left S = sum_list (map work_left (couriers S))"

text \<open>A step that moves one worker towards its end and nothing else that the shutdown looks at.\<close>

definition closer :: "svc \<Rightarrow> svc \<Rightarrow> bool" where
  "closer S S' \<longleftrightarrow> workers_left S' < workers_left S \<and> exit_frame S S' \<and> length (couriers S') = length (couriers S)"

lemma sum_list_smaller:
  "i < length ws \<Longrightarrow> work_left w < work_left (ws ! i) \<Longrightarrow> sum_list (map work_left (ws[i := w])) < sum_list (map work_left ws)"
proof (induction ws arbitrary: i)
  case (Cons v ws)
  then show ?case by (cases i) simp_all
qed simp

lemma closerI:
  assumes "i < length (couriers S)" and "couriers S' = (couriers S)[i := w]" and "work_left w < work_left (couriers S ! i)"
    and "exit_frame S S'"
  shows "closer S S'"
  using assms sum_list_smaller [of i "couriers S" w] by (simp add: closer_def workers_left_def)

lemma record_outcome_courier:
  "\<exists>w. couriers (record_outcome n now i x err S) = (couriers S)[i := w] \<and> work_left w \<le> 2"
proof -
  have "couriers (record_outcome n now i x err S) = (couriers S)[i := Idle]
      \<or> (\<exists>y. couriers (record_outcome n now i x err S) = (couriers S)[i := Archiving y])"
    by (simp add: record_outcome_def Let_def split: sum.split option.split prod.split) blast
  then show ?thesis by (elim disjE exE) (metis work_left.simps(4,5) one_le_numeral order_refl)+
qed

text \<open>Once the context is done every worker that is not gone has such a step.\<close>

lemma worker_closer:
  assumes i: "i < length (couriers S)" and busy: "couriers S ! i \<noteq> Gone" and ctx: "ctx_done (rt S)"
  shows "\<exists>S'. svc_step n S S' \<and> closer S S'"
proof (cases "couriers S ! i")
  case Idle
  let ?S = "set_courier i Gone (S\<lparr>rt := (rt S)\<lparr>live_workers := live_workers (rt S) - 1\<rparr>\<rparr>)"
  have "svc_step n S ?S" using i Idle ctx by (intro svc_step.leave) simp_all
  moreover have "closer S ?S" using i Idle by (intro closerI [of i _ _ Gone]) (simp_all add: exit_frame_def)
  ultimately show ?thesis by blast
next
  case (Received x)
  have "closer S (mark n i x S)"
    using i Received by (intro closerI [of i _ _ "Marked (x\<lparr>n_Status := Processing\<rparr>)"])
      (simp_all add: mark_def exit_frame_def Let_def split: prod.split)
  then show ?thesis using svc_step.mark [OF i Received] by blast
next
  case (Marked x)
  fix env
  have "closer S (ask_sender n env i x S)"
    using i Marked by (intro closerI [of i _ _ "Told x (fst (Job n env x (store (rt S))))"])
      (simp_all add: ask_sender_def exit_frame_def split: prod.split)
  then show ?thesis using svc_step.ask_sender [OF i Marked] by blast
next
  case (Told x err)
  fix now
  obtain w where "couriers (record_outcome n now i x err S) = (couriers S)[i := w]" "work_left w \<le> 2"
    using record_outcome_courier by blast
  then have "closer S (record_outcome n now i x err S)"
    using i Told exit_frame_record by (intro closerI [of i _ _ w]) auto
  then show ?thesis using svc_step.record_outcome [OF i Told] by blast
next
  case (Archiving x)
  have "closer S (archive n i x S)"
    using i Archiving by (intro closerI [of i _ _ Idle]) (simp_all add: archive_def exit_frame_def split: prod.split)
  then show ?thesis using svc_step.archive [OF i Archiving] by blast
qed (use busy in simp)

abbreviation live_step :: "ndb NotificationSystem \<Rightarrow> svc \<Rightarrow> svc \<Rightarrow> bool" where
  "live_step n S S' \<equiv> alive S \<and> svc_step n S S'"

lemma no_work: "workers_left S = 0 \<Longrightarrow> live (couriers S) = 0"
proof -
  have "w = Gone" if "work_left w = 0" for w using that by (cases w) simp_all
  then show "workers_left S = 0 \<Longrightarrow> live (couriers S) = 0"
    by (auto simp: workers_left_def live_def filter_empty_conv)
qed

lemma workers_leave:
  assumes "n = main_system w key sender u a" and "alive S" and "ctx_done (rt S)" and "svc_inv S"
  shows "\<exists>S' k. k \<le> workers_left S \<and> (live_step n ^^ k) S S' \<and> live (couriers S') = 0 \<and> exit_frame S S' \<and> svc_inv S'"
  using assms(2-4)
proof (induction "workers_left S" arbitrary: S rule: less_induct)
  case less
  show ?case
  proof (cases "live (couriers S) = 0")
    case True
    have "(live_step n ^^ 0) S S" by simp
    with True less.prems show ?thesis by (intro exI [of _ S] exI [of _ 0]) (simp add: exit_frame_def)
  next
    case False
    then obtain c where "c \<in> set (couriers S)" "c \<noteq> Gone" by (auto simp: live_def filter_empty_conv)
    then obtain i where i: "i < length (couriers S)" "couriers S ! i \<noteq> Gone" by (auto simp: in_set_conv_nth)
    obtain S1 where s1: "svc_step n S S1" "closer S S1" using worker_closer [OF i less.prems(2)] by blast
    then have f: "exit_frame S S1" "workers_left S1 < workers_left S" by (simp_all add: closer_def)
    have "alive S1" "ctx_done (rt S1)" using f(1) less.prems by (simp_all add: exit_frame_def alive_def)
    moreover have "svc_inv S1" by (rule svc_inv_step [OF s1(1) assms(1) less.prems(3)])
    ultimately obtain S' k where k: "k \<le> workers_left S1" "(live_step n ^^ k) S1 S'" "live (couriers S') = 0"
        "exit_frame S1 S'" "svc_inv S'"
      using less.hyps [OF f(2)] by blast
    have "(live_step n ^^ Suc k) S S'" using s1(1) less.prems(1) k(2) by (intro relpowp_Suc_I2 [of _ S S1]) simp_all
    moreover have "exit_frame S S'" using f(1) k(4) by (auto simp: exit_frame_def)
    ultimately show ?thesis using k(1,3,5) f(2) by (intro exI [of _ S'] exI [of _ "Suc k"]) simp
  qed
qed


lemma short_paths:
  "live_step n A B \<Longrightarrow> (live_step n ^^ 1) A B"
  "live_step n A B \<Longrightarrow> live_step n B C \<Longrightarrow> (live_step n ^^ 2) A C"
  by (auto simp: OO_def numeral_2_eq_2)

lemma server_stops:
  assumes "alive S" and "ctx_done (rt S)"
  shows "\<exists>g k. k \<le> 2 \<and> g \<in> {Drained, TimedOut} \<and> (live_step n ^^ k) S (S\<lparr>stage := g\<rparr>)"
proof -
  have late: "live_step n R (R\<lparr>stage := TimedOut\<rparr>)" if "stage R = Draining" "alive R" for R
    using that svc_step.timed_out by simp
  consider (serving) "stage S = Serving" | (draining) "stage S = Draining" | (over) "stage S \<in> {Drained, TimedOut}"
    using assms(1) by (cases "stage S") (auto simp: alive_def)
  then show ?thesis
  proof cases
    case serving
    have "live_step n (S\<lparr>stage := Draining\<rparr>) (S\<lparr>stage := TimedOut\<rparr>)"
      using late [of "S\<lparr>stage := Draining\<rparr>"] assms(1) by (simp add: alive_def)
    moreover have "live_step n S (S\<lparr>stage := Draining\<rparr>)" using serving assms svc_step.drain by simp
    ultimately have "(live_step n ^^ 2) S (S\<lparr>stage := TimedOut\<rparr>)" by (rule short_paths(2) [rotated])
    then show ?thesis by (intro exI [of _ TimedOut] exI [of _ 2]) simp
  next
    case draining
    then show ?thesis using short_paths(1) [OF late] assms(1) by (intro exI [of _ TimedOut] exI [of _ 1]) simp
  next
    case over
    then show ?thesis by (intro exI [of _ "stage S"] exI [of _ 0]) simp
  qed
qed

lemma main_returns:
  assumes "alive S" and "stage S \<in> {Drained, TimedOut}" and "svc_inv S" and "live (couriers S) = 0"
  shows "\<exists>S' k. k \<le> 2 \<and> (live_step n ^^ k) S S' \<and> stage S' = Exited"
proof -
  have exit: "live_step n R (R\<lparr>stage := Exited\<rparr>)" if "alive R" "stage R \<in> {Drained, TimedOut}" "ch_closed (rt R)" for R
    using that svc_step.exit by simp
  show ?thesis
  proof (cases "ch_closed (rt S)")
    case True
    then have "(live_step n ^^ 1) S (S\<lparr>stage := Exited\<rparr>)" using short_paths(1) [OF exit [OF assms(1,2)]] by simp
    then show ?thesis by (intro exI [of _ "S\<lparr>stage := Exited\<rparr>"] exI [of _ 1]) simp
  next
    case False
    let ?S = "S\<lparr>rt := snd (Shutdown (rt S))\<rparr>"
    have "ch_closed (rt ?S)" using assms(3,4) False by (simp add: Shutdown_def Let_def svc_inv_def)
    then have "live_step n ?S (?S\<lparr>stage := Exited\<rparr>)" using assms(1,2) by (intro exit) (simp_all add: alive_def)
    moreover have "live_step n S ?S" using assms(1,2) False svc_step.shutdown by simp
    ultimately have "(live_step n ^^ 2) S (?S\<lparr>stage := Exited\<rparr>)" by (rule short_paths(2) [rotated])
    then show ?thesis by (intro exI [of _ "?S\<lparr>stage := Exited\<rparr>"] exI [of _ 2]) simp
  qed
qed

lemma workers_left_bound: "workers_left S \<le> 5 * length (couriers S)"
proof -
  have b: "work_left w \<le> 5" for w by (cases w) simp_all
  have "sum_list (map work_left ws) \<le> 5 * length ws" for ws
  proof (induction ws)
    case (Cons w ws)
    then show ?case using b [of w] by simp
  qed simp
  then show ?thesis by (simp add: workers_left_def)
qed

section \<open>Properties\<close>

text \<open>
  C13. The end of \<open>main\<close>: once \<open>server.Shutdown\<close> has returned within its timeout no request is in progress, and
  none will begin; the channel is closed only after the HTTP server has been shut down or its timeout has
  passed; and if the process then crashes, it is the retry scheduler that was about to send on the closed
  channel.
\<close>

theorem clean_drain:
  assumes "svc_reachable (main_system w key sender u a) d0 S"
  shows "(stage S = Drained \<longrightarrow> calls S = []) \<and> (ch_closed (rt S) \<longrightarrow> Drained \<le> stage S)
     \<and> (crashed S \<longrightarrow> ch_closed (rt S) \<and> (\<exists>x xs. poll S = PollChecked x xs))"
  using run_exit_inv [OF assms refl] run_inv [OF assms refl] by (simp add: exit_inv_def svc_inv_def)

definition drained_state :: svc where
  "drained_state = (start_service demo_system two_jobs)\<lparr>rt := (rt (start_service demo_system two_jobs))\<lparr>ctx_done := True\<rparr>, stage := Drained\<rparr>"

lemma signalled_run:
  "svc_reachable demo_system two_jobs ((start_service demo_system two_jobs)\<lparr>rt := (rt (start_service demo_system two_jobs))\<lparr>ctx_done := True\<rparr>\<rparr>)"
  by (rule svc_run.step [OF svc_run.start _ svc_step.signal]) simp_all

lemma drained_state_run: "svc_reachable demo_system two_jobs drained_state"
proof -
  let ?S = "(start_service demo_system two_jobs)\<lparr>rt := (rt (start_service demo_system two_jobs))\<lparr>ctx_done := True\<rparr>\<rparr>"
  have "svc_reachable demo_system two_jobs (?S\<lparr>stage := Draining\<rparr>)"
    by (rule svc_run.step [OF signalled_run _ svc_step.drain]) (simp_all add: alive_def start_service_def)
  then have "svc_reachable demo_system two_jobs (?S\<lparr>stage := Draining\<rparr>\<lparr>stage := Drained\<rparr>)"
    by (rule svc_run.step [OF _ _ svc_step.drained]) (simp_all add: alive_def start_service_def)
  then show ?thesis by (simp add: drained_state_def)
qed

theorem clean_drain_witness: "stage drained_state = Drained \<and> calls drained_state = []"
  using clean_drain [OF drained_state_run [unfolded demo_system_def]] by (simp add: drained_state_def)

text \<open>
  C14. The process can always come to its end: from every reachable state in which the context is done -
  whatever requests, polls and deliveries are under way, and whether the database answers or not - it has
  run to the exit of \<open>main\<close> after at most five steps of each worker and four of \<open>main\<close>, unless it crashes.
\<close>

theorem service_exits:
  assumes "svc_reachable (main_system w key sender u a) d0 S" and "alive S" and "ctx_done (rt S)"
  shows "\<exists>S' k. k \<le> 5 * length (couriers S) + 4
     \<and> ((\<lambda>A B. alive A \<and> svc_step (main_system w key sender u a) A B) ^^ k) S S' \<and> stage S' = Exited"
proof -
  let ?n = "main_system w key sender u a"
  obtain S1 k1 where s1: "k1 \<le> workers_left S" "(live_step ?n ^^ k1) S S1" "live (couriers S1) = 0" "exit_frame S S1" "svc_inv S1"
    using workers_leave [OF refl assms(2,3) run_inv [OF assms(1) refl]] by blast
  have a1: "alive S1" "ctx_done (rt S1)" using s1(4) assms(2,3) by (simp_all add: exit_frame_def alive_def)
  obtain g k2 where s2: "k2 \<le> 2" "g \<in> {Drained, TimedOut}" "(live_step ?n ^^ k2) S1 (S1\<lparr>stage := g\<rparr>)"
    using server_stops [OF a1] by blast
  have "alive (S1\<lparr>stage := g\<rparr>)" using a1(1) s2(2) by (auto simp: alive_def)
  moreover have "stage (S1\<lparr>stage := g\<rparr>) \<in> {Drained, TimedOut}" using s2(2) by simp
  moreover have "svc_inv (S1\<lparr>stage := g\<rparr>)" "live (couriers (S1\<lparr>stage := g\<rparr>)) = 0" using s1(3,5) by simp_all
  ultimately obtain S' k3 where s3: "k3 \<le> 2" "(live_step ?n ^^ k3) (S1\<lparr>stage := g\<rparr>) S'" "stage S' = Exited"
    using main_returns by blast
  have "(live_step ?n ^^ (k1 + k2 + k3)) S S'" by (rule relpowp_trans [OF relpowp_trans [OF s1(2) s2(3)] s3(2)])
  moreover have "k1 + k2 + k3 \<le> 5 * length (couriers S) + 4" using s1(1) s2(1) s3(1) workers_left_bound [of S] by simp
  ultimately show ?thesis using s3(3) by blast
qed

theorem service_exits_witness:
  "\<exists>S' k. ((\<lambda>A B. alive A \<and> svc_step demo_system A B) ^^ k) drained_state S' \<and> stage S' = Exited"
proof -
  have "alive drained_state" "ctx_done (rt drained_state)" by (simp_all add: drained_state_def alive_def start_service_def)
  from service_exits [OF drained_state_run [unfolded demo_system_def] this] show ?thesis unfolding demo_system_def by blast
qed

end
