(* ===== verification/ServiceParts.thy ===== *)
theory ServiceParts
  imports ServiceExit
begin

text \<open>
  The functions that model whole operations of the code and the step relation of \<open>ServiceRun\<close> agree: each
  operation, run without interference, is a path of the relation that ends in the operation's result.
\<close>

abbreviation svc_path :: "ndb NotificationSystem \<Rightarrow> svc \<Rightarrow> svc \<Rightarrow> bool" where
  "svc_path n \<equiv> (live_step n)\<^sup>*\<^sup>*"

text \<open>From \<open>S\<close> a path leads to a state with the runtime \<open>r\<close>.\<close>

definition leads_to :: "ndb NotificationSystem \<Rightarrow> svc \<Rightarrow> ndb runtime \<Rightarrow> bool" where
  "leads_to n S r \<longleftrightarrow> (\<exists>S'. svc_path n S S' \<and> rt S' = r)"

lemma leads_to_here: "rt S = r \<Longrightarrow> leads_to n S r"
  unfolding leads_to_def by blast

lemma leads_to_step:
  assumes "alive S" and "svc_step n S S'" and "leads_to n S' r"
  shows "leads_to n S r"
proof -
  obtain T where t: "svc_path n S' T" "rt T = r" using assms(3) unfolding leads_to_def by blast
  have "svc_path n S T" by (rule converse_rtranclp_into_rtranclp [OF _ t(1)]) (simp add: assms(1,2))
  then show ?thesis unfolding leads_to_def using t(2) by blast
qed

lemma svc_path_step: "svc_path n S A \<Longrightarrow> alive A \<Longrightarrow> svc_step n A B \<Longrightarrow> svc_path n S B"
  by (rule rtranclp.rtrancl_into_rtrancl [where b = A]) blast+

section \<open>Handlers\<close>

text \<open>The checks of a creation, and what follows them.\<close>

lemma checks_lead:
  assumes live: "alive S" "stage S \<noteq> Drained"
    and v: "create_checks n (ca_template a) (ca_userID a) (rt S) = (v, r)"
  shows "leads_to n S r" and "v = Inr () \<Longrightarrow> svc_path n S (S\<lparr>rt := r, calls := calls S @ [Checked a]\<rparr>)"
proof -
  let ?i = "length (calls S)" and ?S1 = "S\<lparr>calls := calls S @ [Entered a]\<rparr>"
  obtain c d where c: "nr_GetTotalCount (ns_NotificationRepo n) (store (rt S)) = (c, d)" by fastforce
  obtain t d2 where t: "tr_Get (ns_TemplateRepo n) (ca_template a) (ca_userID a) d = (t, d2)" by fastforce
  let ?S2 = "count_create n ?i a ?S1" and ?T = "set_call ?i (Counted a) (put d ?S1)"
  have one: "svc_path n S ?S1 \<and> svc_path n S ?S2" if "\<not> shutting_down (rt S)"
  proof -
    have "svc_step n S ?S1" using svc_step.begin_create [OF live(2), of n a] that by (simp add: begin_create_def)
    then have p: "svc_path n S ?S1" by (rule svc_path_step [OF rtranclp.rtrancl_refl live(1)])
    then show ?thesis using svc_path_step [OF p _ svc_step.count_create [of ?i ?S1 a n]] live(1) by simp
  qed
  have two: "svc_path n S ?T \<and> svc_path n S (check_template n ?i a ?T)"
    if "\<not> shutting_down (rt S)" "\<exists>k. c = Inr k \<and> \<not> max_total \<le> k"
  proof -
    have "?S2 = ?T" using that(2) c by (auto simp: count_create_def)
    then have p: "svc_path n S ?T" using one [OF that(1)] by simp
    then show ?thesis using svc_path_step [OF p _ svc_step.check_template [of ?i ?T a n]] live(1) by simp
  qed
  note code = create_checks_def count_create_def check_template_def
  show "leads_to n S r"
  proof (cases "shutting_down (rt S)")
    case True
    then show ?thesis using v by (intro leads_to_here) (simp add: create_checks_def)
  next
    case run: False
    show ?thesis
    proof (cases "\<exists>k. c = Inr k \<and> \<not> max_total \<le> k")
      case True
      then have "rt (check_template n ?i a ?T) = r" using v run c t by (auto simp: code split: sum.splits)
      then show ?thesis using two [OF run True] unfolding leads_to_def by blast
    next
      case False
      then have "rt ?S2 = r" using v run c by (cases c) (auto simp: code)
      then show ?thesis using one [OF run] unfolding leads_to_def by blast
    qed
  qed
  assume ok: "v = Inr ()"
  then have run: "\<not> shutting_down (rt S)" "\<exists>k. c = Inr k \<and> \<not> max_total \<le> k" "t = Inr (projr t)" "r = (rt S)\<lparr>store := d2\<rparr>"
    using v c t by (auto simp: create_checks_def split: if_splits sum.splits)
  have "check_template n ?i a ?T = S\<lparr>rt := r, calls := calls S @ [Checked a]\<rparr>"
    using t run(3) by (cases t) (simp_all add: check_template_def run(4) put_def set_call_def)
  then show "svc_path n S (S\<lparr>rt := r, calls := calls S @ [Checked a]\<rparr>)" using two [OF run(1,2)] by simp
qed

lemma commit_leads:
  assumes live: "alive S" and i: "i < length (calls S)" "calls S ! i = Checked a" and intr: "ce_intr env = id"
    and run: "create_checks n (ca_template a) (ca_userID a) r0 = (Inr (), rt S)"
    and parsed: "parse_request (ce_U env) (ce_parse env) (ce_check env) (user_id_str c) bound = Inr a"
  shows "leads_to n S (snd (Handler_Create n env bound c r0))" (is "leads_to n S ?r")
proof -
  let ?x = "new_notification (ce_now1 env) (ce_now2 env) (ce_uuid env) a" and ?t = "ca_executeAt a"
  obtain q d where q: "nr_Save (ns_NotificationRepo n) ?x (store (rt S)) = (q, d)" by fastforce
  let ?S2 = "save_create n (ce_now1 env) (ce_now2 env) (ce_uuid env) i a S"
  note code = Handler_Create_def CreateNotification_def create_commit_def save_create_def
  show ?thesis
  proof (rule leads_to_step [OF live svc_step.save_create [OF i]])
    consider (failed) e where "q = Inl e" | (now) "q = Inr ()" "is_zero ?t" | (later) "q = Inr ()" "\<not> is_zero ?t"
      by (cases q) auto
    then show "leads_to n ?S2 ?r"
    proof cases
      case failed
      then show ?thesis using run parsed q by (intro leads_to_here) (simp add: code)
    next
      case now
      have S2: "?S2 = set_call i (Saved ?x) (put d S)" using q now by (simp add: save_create_def)
      show ?thesis
      proof (rule leads_to_step [OF _ svc_step.push_created [of i ?S2 ?x n "ce_pick env"]])
        show "leads_to n (push_created (ce_pick env) i ?x ?S2) ?r"
          using run parsed q now intr
          by (intro leads_to_here; cases "select_send_or_done (ce_pick env) ((rt S)\<lparr>store := d\<rparr>)")
             (simp_all add: code S2 push_created_def)
      qed (use live i in \<open>simp_all add: S2\<close>)
    next
      case later
      have S2: "?S2 = set_call i (Delegating ?x ?t) (put d S)" using q later by (simp add: save_create_def)
      show ?thesis
      proof (rule leads_to_step [OF _ svc_step.delegate [of i ?S2 ?x ?t n "ce_format env" "ce_http env"]])
        show "leads_to n (delegate n (ce_format env) (ce_http env) i ?x ?t ?S2) ?r"
          using run parsed q later intr
          by (intro leads_to_here) (simp add: code S2 delegate_def Let_def split: sum.split prod.split)
      qed (use live i in \<open>simp_all add: S2\<close>)
    qed
  qed
qed

lemma create_leads:
  assumes live: "alive S" "stage S \<noteq> Drained" and intr: "ce_intr env = id"
  shows "leads_to n S (snd (Handler_Create n env bound c (rt S)))"
proof (cases "parse_request (ce_U env) (ce_parse env) (ce_check env) (user_id_str c) bound")
  case (Inl err)
  then show ?thesis by (intro leads_to_here) (simp add: Handler_Create_def)
next
  case (Inr a)
  obtain v r where v: "create_checks n (ca_template a) (ca_userID a) (rt S) = (v, r)" by fastforce
  show ?thesis
  proof (cases v)
    case (Inl e)
    then have "snd (Handler_Create n env bound c (rt S)) = r"
      using Inr v by (simp add: Handler_Create_def CreateNotification_def)
    then show ?thesis using checks_lead(1) [OF live v] by simp
  next
    case ok: (Inr u)
    let ?S = "S\<lparr>rt := r, calls := calls S @ [Checked a]\<rparr>"
    have "leads_to n ?S (snd (Handler_Create n env bound c (rt S)))"
      using commit_leads [of ?S "length (calls S)" a env n "rt S" c bound] live(1) intr Inr v ok by simp
    then show ?thesis using checks_lead(2) [OF live v] ok unfolding leads_to_def by (auto intro: rtranclp_trans)
  qed
qed

lemma dispatch_leads:
  assumes live: "alive S" "stage S \<noteq> Drained"
  shows "leads_to n S (snd (Handler_DispatchCallback U n now c (rt S)))"
proof (cases "bearer_token U (c_header_authorization c) = Some (ns_SchedulerAPIKey n)")
  case False
  then show ?thesis by (intro leads_to_here) (auto simp: Handler_DispatchCallback_def split: option.split)
next
  case key: True
  let ?i = "length (calls S)"
  obtain r d where g: "nr_Get (ns_NotificationRepo n) (c_param_id c) system_user (store (rt S)) = (r, d)" by fastforce
  note step1 = leads_to_step [OF live(1) svc_step.get_dispatch [OF live(2), of n now "c_param_id c"]]
  show ?thesis
  proof (cases "\<exists>x. r = Inr x \<and> n_Status x = Scheduled")
    case False
    then show ?thesis
      using key g by (intro step1 leads_to_here; cases r) (auto simp: Handler_DispatchCallback_def get_dispatch_def)
  next
    case True
    then obtain x where x: "r = Inr x" "n_Status x = Scheduled" by blast
    let ?x = "x\<lparr>n_Status := Pending, n_NextRetryAt := now\<rparr>"
    let ?S1 = "(put d S)\<lparr>calls := calls S @ [Dispatching ?x]\<rparr>"
    have S1: "get_dispatch n now (c_param_id c) S = ?S1" using g x by (simp add: get_dispatch_def)
    obtain q d' where q: "nr_Update (ns_NotificationRepo n) ?x d = (q, d')" by fastforce
    have "leads_to n ?S1 (snd (Handler_DispatchCallback U n now c (rt S)))"
    proof (rule leads_to_step [OF _ svc_step.update_dispatch [of ?i ?S1 ?x n]])
      let ?S2 = "update_dispatch n ?i ?x ?S1"
      show "leads_to n ?S2 (snd (Handler_DispatchCallback U n now c (rt S)))"
      proof (cases q)
        case (Inl e)
        then show ?thesis
          using key g x q by (intro leads_to_here) (simp add: Handler_DispatchCallback_def update_dispatch_def Let_def)
      next
        case (Inr u)
        then have S2: "?S2 = set_call ?i (Pushing ?x) (put d' ?S1)" using q by (simp add: update_dispatch_def)
        show ?thesis
        proof (rule leads_to_step [OF _ svc_step.push_dispatch [of ?i ?S2 ?x n]])
          show "leads_to n (push_dispatch ?i ?x ?S2) (snd (Handler_DispatchCallback U n now c (rt S)))"
            using key g x q Inr
            by (intro leads_to_here) (simp add: Handler_DispatchCallback_def S2 push_dispatch_def Let_def)
        qed (use live in \<open>simp_all add: S2\<close>)
      qed
    qed (use live in simp_all)
    then show ?thesis by (intro step1) (simp add: S1)
  qed
qed

section \<open>The retry scheduler\<close>

lemma enqueue_leads:
  assumes "alive S" and "poll S = PollClaimed jobs"
  shows "leads_to n S (snd (enqueue_jobs (\<lambda>_. id) picks i jobs (rt S)))"
  using assms
proof (induction jobs arbitrary: S i)
  case Nil
  then show ?case by (intro leads_to_here) simp
next
  case (Cons x xs)
  let ?r = "snd (enqueue_jobs (\<lambda>_. id) picks i (x # xs) (rt S))"
  note step1 = leads_to_step [OF Cons.prems(1) svc_step.check_shutdown [OF Cons.prems(2), of n]]
  show ?case
  proof (cases "shutting_down (rt S)")
    case True
    then show ?thesis by (intro step1 leads_to_here) (simp add: check_shutdown_def)
  next
    case False
    let ?S1 = "S\<lparr>poll := PollChecked x xs\<rparr>"
    have S1: "check_shutdown x xs S = ?S1" using False by (simp add: check_shutdown_def)
    have "leads_to n ?S1 ?r"
    proof (rule leads_to_step [OF _ svc_step.poll_select [of ?S1 x xs n "picks i"]])
      show "leads_to n (poll_select (picks i) x xs ?S1) ?r"
      proof (cases "select_send_or_done (picks i) (rt S)")
        case SendChosen
        let ?S2 = "(enqueue x ?S1)\<lparr>poll := PollClaimed xs\<rparr>"
        have "leads_to n ?S2 (snd (enqueue_jobs (\<lambda>_. id) picks (Suc i) xs (rt ?S2)))"
          using Cons.prems(1) by (intro Cons.IH) simp_all
        then show ?thesis using False SendChosen by (simp add: poll_select_def)
      qed (use False in \<open>auto simp: poll_select_def intro!: leads_to_here\<close>)
    qed (use Cons.prems in simp_all)
    then show ?thesis by (intro step1) (simp only: S1)
  qed
qed

lemma tick_leads:
  assumes "alive S" and "poll S = PollWaiting"
  shows "leads_to n S (snd (RetryScheduler_tick n (\<lambda>_. id) picks done_first (rt S)))"
proof (cases "ctx_done (rt S) \<and> done_first")
  case True
  then show ?thesis by (intro leads_to_here) (simp add: RetryScheduler_tick_def)
next
  case False
  obtain r d where g: "nr_GetReadyJobs (ns_NotificationRepo n) (store (rt S)) = (r, d)" by fastforce
  note step1 = leads_to_step [OF assms(1) svc_step.poll_jobs [OF assms(2), of n]]
  show ?thesis
  proof (cases r)
    case (Inl e)
    then show ?thesis using g False by (intro step1 leads_to_here) (auto simp: poll_jobs_def RetryScheduler_tick_def)
  next
    case (Inr jobs)
    let ?S1 = "(put d S)\<lparr>poll := PollClaimed jobs\<rparr>"
    have "leads_to n ?S1 (snd (enqueue_jobs (\<lambda>_. id) picks 0 jobs (rt ?S1)))" using assms(1) by (intro enqueue_leads) simp_all
    then show ?thesis using g Inr False by (intro step1) (auto simp: poll_jobs_def RetryScheduler_tick_def)
  qed
qed


section \<open>Workers and shutdown\<close>

lemma process_path:
  assumes live: "alive S" and i: "i < length (couriers S)" "couriers S ! i = Received x"
  shows "leads_to n S ((rt S)\<lparr>store := snd (Process n now env x (store (rt S)))\<rparr>)" (is "leads_to n S ?r")
proof -
  let ?x = "x\<lparr>n_Status := Processing\<rparr>"
  obtain u d where u: "nr_Update (ns_NotificationRepo n) ?x (store (rt S)) = (u, d)" by fastforce
  obtain err d1 where j: "Job n env ?x d = (err, d1)" by fastforce
  let ?S1 = "set_courier i (Marked ?x) (put d S)"
  let ?S2 = "set_courier i (Told ?x err) (put d1 ?S1)"
  let ?S3 = "record_outcome n now i ?x err ?S2"
  have S1: "mark n i x S = ?S1" using u by (simp add: mark_def)
  have S2: "ask_sender n env i ?x ?S1 = ?S2" using j by (simp add: ask_sender_def)
  have last: "leads_to n ?S3 ?r"
  proof (cases "\<exists>y. couriers ?S3 ! i = Archiving y")
    case False
    then show ?thesis
      using i u j
      by (intro leads_to_here)
         (auto simp: record_outcome_def Process_def Let_def split: sum.splits if_splits option.splits prod.splits)
  next
    case True
    then obtain y where y: "couriers ?S3 ! i = Archiving y" by blast
    have "alive ?S3" "i < length (couriers ?S3)"
      using live i exit_frame_record [of ?S2 n now i ?x err] record_outcome_courier [of n now i ?x err ?S2]
      by (auto simp: exit_frame_def alive_def)
    moreover have "leads_to n (archive n i y ?S3) ?r"
      using i u j y
      by (intro leads_to_here)
         (auto simp: archive_def record_outcome_def Process_def Let_def split: sum.splits if_splits option.splits prod.splits)
    ultimately show ?thesis using leads_to_step [OF _ svc_step.archive [OF _ y]] by blast
  qed
  have "leads_to n ?S2 ?r" by (rule leads_to_step [OF _ svc_step.record_outcome [of i ?S2 ?x err n now] last]) (use live i in simp_all)
  then have "leads_to n ?S1 ?r"
    using leads_to_step [OF _ svc_step.ask_sender [of i ?S1 ?x n env], of ?r] live i by (simp add: S2)
  then show ?thesis using leads_to_step [OF live svc_step.mark [OF i, of n], of ?r] by (simp only: S1)
qed

lemma worker_leads:
  assumes live: "alive S" and i: "i < length (couriers S)" "couriers S ! i = Idle"
  shows "leads_to n S (snd (Worker_step n pick now env (rt S)))"
proof -
  have leave: "leads_to n S ((rt S)\<lparr>live_workers := live_workers (rt S) - 1\<rparr>)"
    if "ctx_done (rt S) \<or> ch_closed (rt S) \<and> channel (rt S) = []"
    by (rule leads_to_step [OF live svc_step.leave [OF i that]], rule leads_to_here) simp
  have take: "leads_to n S ((rt S)\<lparr>channel := xs, store := snd (Process n now env x (store (rt S)))\<rparr>)" if c: "channel (rt S) = x # xs" for x xs
  proof (rule leads_to_step [OF live svc_step.take [OF i c]])
    let ?S1 = "set_courier i (Received x) (S\<lparr>rt := (rt S)\<lparr>channel := xs\<rparr>, h_out := h_out S @ [x]\<rparr>)"
    show "leads_to n ?S1 ((rt S)\<lparr>channel := xs, store := snd (Process n now env x (store (rt S)))\<rparr>)"
      using process_path [of ?S1 i x n now env] live i by simp
  qed
  show ?thesis
    using leave take leads_to_here [of S "rt S" n]
    by (auto simp: Worker_step_def Let_def split: list.split)
qed

lemma shutdown_leads:
  assumes "alive S" and "stage S \<in> {Drained, TimedOut}" and "\<not> ch_closed (rt S)"
  shows "leads_to n S (snd (Shutdown (rt S)))"
  by (rule leads_to_step [OF assms(1) svc_step.shutdown [OF assms(2,3)]], rule leads_to_here) simp

section \<open>All operations\<close>

text \<open>
  Every operation of the notification service is a run of the step relation, so that what holds in all
  reachable states holds in particular wherever these operations end: in a process that is alive, serving a
  create request, serving a dispatch callback, an iteration of a worker that waits, an iteration of the
  retry scheduler and, once the HTTP server is down, \<open>Shutdown\<close> all lead, undisturbed, along the steps to
  the state that the operation computes.
\<close>

lemma operations_are_runs:
  assumes "alive S"
  shows "(stage S \<noteq> Drained \<longrightarrow> ce_intr env = id \<longrightarrow> leads_to n S (snd (Handler_Create n env bound c (rt S))))
     \<and> (stage S \<noteq> Drained \<longrightarrow> leads_to n S (snd (Handler_DispatchCallback U n now c (rt S))))
     \<and> (Idle \<in> set (couriers S) \<longrightarrow> leads_to n S (snd (Worker_step n pick now senv (rt S))))
     \<and> (poll S = PollWaiting \<longrightarrow> leads_to n S (snd (RetryScheduler_tick n (\<lambda>_. id) picks done_first (rt S))))
     \<and> (stage S \<in> {Drained, TimedOut} \<longrightarrow> \<not> ch_closed (rt S) \<longrightarrow> leads_to n S (snd (Shutdown (rt S))))"
  using create_leads [OF assms] dispatch_leads [OF assms] worker_leads [OF assms] tick_leads [OF assms] shutdown_leads [OF assms]
  by (auto simp: in_set_conv_nth)

lemma operations_are_runs_witness:
  "leads_to demo_system (start_service demo_system two_jobs)
     (snd (RetryScheduler_tick demo_system (\<lambda>_. id) (\<lambda>_. True) False (main_runtime two_jobs\<lparr>live_workers := 5\<rparr>)))"
proof -
  have "rt (start_service demo_system two_jobs) = main_runtime two_jobs\<lparr>live_workers := 5\<rparr>"
    by (simp add: start_service_def NotificationSystem.Start_def demo_system_def main_runtime_def)
  with operations_are_runs [of "start_service demo_system two_jobs"] show ?thesis
    by (metis start_sel(2,3))
qed

end
