(* ===== verification/ServiceTypes.thy ===== *)
theory ServiceTypes
  imports ServiceTheorems
begin

text \<open>
  A typing of the notification service's data: what the columns of a row and the fields of a notification
  in memory may hold. Every step keeps it, and on typed data no poll fails to scan and no worker panics.
\<close>

section \<open>Typed rows and notifications\<close>

text \<open>No column that is read is NULL, the variables decode, and the fifth failure is never written.\<close>

definition row_typed :: "notif_row \<Rightarrow> bool" where
  "row_typed r \<longleftrightarrow> (\<exists>x. scan_row r = Inr x) \<and> 0 \<le> retry_count_col r \<and> retry_count_col r \<le> 4
     \<and> (status_col r \<noteq> DLQ \<longrightarrow> retry_count_col r \<le> 3)"

definition rows_typed :: "ndb \<Rightarrow> bool" where
  "rows_typed d \<longleftrightarrow> (\<forall>k r. nrow d k = Some r \<longrightarrow> row_typed r)"

text \<open>What may be written, and what may be handed to a worker.\<close>

definition note_typed :: "Notification \<Rightarrow> bool" where
  "note_typed x \<longleftrightarrow> 0 \<le> n_RetryCount x \<and> n_RetryCount x \<le> 4 \<and> (n_Status x \<noteq> DLQ \<longrightarrow> n_RetryCount x \<le> 3)"

definition fresh :: "Notification \<Rightarrow> bool" where
  "fresh x \<longleftrightarrow> 0 \<le> n_RetryCount x \<and> n_RetryCount x \<le> 3"

lemma fresh_typed [simp]: "fresh x \<Longrightarrow> note_typed x"
  by (simp add: fresh_def note_typed_def)

lemma fresh_fields [simp]:
  "fresh (x\<lparr>n_Status := st\<rparr>) = fresh x" "fresh (x\<lparr>n_ErrorMessage := e\<rparr>) = fresh x" "fresh (x\<lparr>n_NextRetryAt := t\<rparr>) = fresh x"
  "fresh (new_notification now1 now2 uuid a)"
  by (simp_all add: fresh_def new_notification_def)

lemma rows_typed_same: "nrow d' = nrow d \<Longrightarrow> rows_typed d' = rows_typed d"
  by (simp add: rows_typed_def)

lemma rows_typed_tables: "notifications (tables d') = notifications (tables d) \<Longrightarrow> rows_typed d' = rows_typed d"
  by (rule rows_typed_same [OF nrow_same])

section \<open>The calls keep the rows typed\<close>

lemma overwrite_typed:
  "row_typed r \<Longrightarrow> note_typed y \<Longrightarrow> row_typed (overwrite_row st (JsonVars (n_Variable y)) y r)"
  by (auto simp: row_typed_def note_typed_def overwrite_row_def scan_row_ok)

lemma update_typed: "rows_typed d \<Longrightarrow> note_typed y \<Longrightarrow> rows_typed (snd (NotificationRepository_Update y d))"
proof -
  assume t: "rows_typed d" "note_typed y"
  obtain r d' where u: "NotificationRepository_Update y d = (r, d')" by fastforce
  show "rows_typed (snd (NotificationRepository_Update y d))"
    using Update_nrow [OF u] t overwrite_typed by (auto simp: u rows_typed_def split: if_splits)
qed

lemma save_typed:
  assumes "rows_typed d" and "note_typed y" and "NotificationRepository_Save y d = (r, d')"
  shows "rows_typed d'"
proof -
  have "row_typed (row_of_notification (stamp d) (JsonVars (n_Variable y)) (norm_user (n_UserID y)) y)"
    using assms(2) by (simp add: row_typed_def note_typed_def row_of_notification_def scan_row_ok)
  then show ?thesis using Save_nrow [OF assms(3)] assms(1) by (auto simp: rows_typed_def split: if_splits)
qed

lemma claimed_pending:
  assumes "k \<in> set (claimed_by d)" and "nrow d k = Some r" and "keyed_rows d"
  shows "status_col r = Pending"
  using assms unclaimed by blast

lemma claim_typed:
  assumes t: "rows_typed d" and k: "keyed_rows d" and g: "NotificationRepository_GetReadyJobs d = (r, d')"
  shows "rows_typed d'" and "r = Inr ns \<Longrightarrow> x \<in> set ns \<Longrightarrow> fresh x"
proof -
  note p = Poll_nrow [OF g k [unfolded keyed_rows_def]]
  have "row_typed (mark_processing row)" if "row_typed row" "status_col row = Pending" for row
    using that by (simp add: row_typed_def mark_processing_def scan_row_ok)
  then show "rows_typed d'"
    using p(1) t claimed_pending [OF _ _ k] by (auto simp: rows_typed_def split: if_splits)
  assume "r = Inr ns" "x \<in> set ns"
  then obtain row where row: "nrow d (n_ID x) = Some row" "job_ready (db_now d) row" "scan_row (mark_processing row) = Inr x"
    using p(2) by blast
  have "n_RetryCount x = retry_count_col row" using scan_row_Inr [OF row(3)] by (simp add: mark_processing_def)
  moreover have "row_typed row" using row(1) t by (simp add: rows_typed_def)
  ultimately show "fresh x" using row(2) by (simp add: row_typed_def fresh_def job_ready_def)
qed

lemma fetch_typed:
  assumes t: "rows_typed d" and k: "keyed_rows d" and g: "NotificationRepository_Get k' system_user d = (Inr x, d')"
    and "n_Status x = Scheduled"
  shows "fresh x"
proof -
  obtain row where row: "nrow d k' = Some row" "scan_row row = Inr x"
    using Get_row [OF g k [unfolded keyed_rows_def]] by blast
  then have "row_typed row" using t by (simp add: rows_typed_def)
  then show ?thesis using scan_row_Inr [OF row(2)] assms(4) by (simp add: row_typed_def fresh_def)
qed

section \<open>The typing as an invariant of the flow\<close>

text \<open>All in memory but what is only archived any more.\<close>

definition active :: "svc \<Rightarrow> Notification set" where
  "active S = {x. \<exists>p. (p, x) \<in> placed S \<and> p \<noteq> ToArchive}"

definition typed :: "ndb \<Rightarrow> memory \<Rightarrow> bool" where
  "typed d M \<longleftrightarrow> rows_typed d \<and> (\<forall>p x. (p, x) \<in> M \<longrightarrow> p \<noteq> ToArchive \<longrightarrow> fresh x)"

lemma writes_typed:
  assumes "writes p x y K" and "fresh x"
  shows "note_typed y \<and> ((q, z) \<in> K \<longrightarrow> q \<noteq> ToArchive \<longrightarrow> fresh z)"
proof -
  have "wrap64 (n_RetryCount x + 1) = n_RetryCount x + 1"
    using assms(2) by (intro wrap64_id) (simp_all add: fresh_def min_int64_def max_int64_def)
  with assms show ?thesis by (induction rule: writes.induct) (auto simp: note_typed_def fresh_def)
qed

lemma writes_from: "writes p x y K \<Longrightarrow> p \<noteq> ToArchive"
  by (induction rule: writes.induct) simp_all

lemma onward_active: "onward p q \<Longrightarrow> q \<noteq> ToArchive \<Longrightarrow> p \<noteq> ToArchive"
  by (cases p; cases q) simp_all

interpretation types: flow_invariant typed
proof
  fix d M d' M'
  assume f: "flow d M d' M'" and k: "keyed_rows d" and inv: "typed d M"
  have rows: "rows_typed d" and mem: "(p, x) \<in> M \<Longrightarrow> p \<noteq> ToArchive \<Longrightarrow> fresh x" for p x using inv by (auto simp: typed_def)
  have upd: "rows_typed d'" if "note_typed y" "NotificationRepository_Update y d = (r, d')" for y r
    using update_typed [OF rows that(1)] that(2) by simp
  show "typed d' M'"
    using f
  proof (cases rule: flow.cases)
    case move
    have "(q, x) \<in> M' \<Longrightarrow> q \<noteq> ToArchive \<Longrightarrow> fresh x" for q x using move(2) mem onward_active by blast
    then show ?thesis using rows_typed_tables [OF move(1)] rows by (simp add: typed_def)
  next
    case (writing p x y K r)
    note w = writes_typed [OF writing(2) mem [OF writing(1) writes_from [OF writing(2)]]]
    have "(q, z) \<in> M' \<Longrightarrow> q \<noteq> ToArchive \<Longrightarrow> fresh z" for q z using writing(4) mem w by blast
    then show ?thesis using upd [OF _ writing(3)] w by (simp add: typed_def)
  next
    case (dispatch x v)
    have x: "fresh x" using mem [OF dispatch(1)] by simp
    then have "(q, z) \<in> M' \<Longrightarrow> q \<noteq> ToArchive \<Longrightarrow> fresh z" for q z using dispatch(3) mem by blast
    then show ?thesis using upd [OF _ dispatch(2)] x by (simp add: typed_def)
  next
    case (claim r)
    note c = claim_typed [OF rows k claim(1)]
    have "(q, z) \<in> M' \<Longrightarrow> q \<noteq> ToArchive \<Longrightarrow> fresh z" for q z using claim(2) mem c(2) by blast
    then show ?thesis using c(1) by (simp add: typed_def)
  next
    case (save x r)
    have x: "fresh x" using save(2) by (simp add: fresh_def)
    then have "(q, z) \<in> M' \<Longrightarrow> q \<noteq> ToArchive \<Longrightarrow> fresh z" for q z using save(4) mem by blast
    then show ?thesis using save_typed [OF rows _ save(1)] x by (simp add: typed_def)
  next
    case (fetch k' x t)
    have x: "fresh x" by (rule fetch_typed [OF rows k fetch(1,2)])
    then have "(q, z) \<in> M' \<Longrightarrow> q \<noteq> ToArchive \<Longrightarrow> fresh z" for q z using fetch(3) mem by fastforce
    then show ?thesis
      using rows_typed_tables [of d' d] Get_notifications [OF fetch(1)] rows by (simp add: typed_def)
  qed
qed

text \<open>On typed notifications the shift count of the back-off is never negative.\<close>

lemma fresh_returns:
  assumes "fresh x" and n: "n = main_system w key sender u a"
  shows "fst (Process n now env x d) = Return ()"
proof -
  have wrap: "wrap64 (n_RetryCount x + 1) = n_RetryCount x + 1"
    using assms(1) by (intro wrap64_id) (simp_all add: fresh_def min_int64_def max_int64_def)
  have "retry_delay (n_RetryCount x + 1) \<noteq> None" using assms(1) by (simp add: fresh_def retry_delay_def shl1_def)
  then show ?thesis
    by (auto simp: Process_def n wrap Let_def split: prod.split sum.split option.split)
qed

section \<open>Property\<close>

text \<open>
  C6. The data stay typed: if at the start every row scans, has a retry count from 0 to 4, and 4 only in status
  DLQ, then this holds in every reachable state; every notification that may still be delivered has a
  retry count from 0 to 3, so that its processing never panics, whatever the database and the sender do.
\<close>

theorem service_typed:
  assumes "svc_reachable (main_system w key sender u a) d0 S"
    and "keyed_rows d0" and "rows_typed d0"
  shows "rows_typed (store (rt S))
     \<and> (\<forall>x \<in> active S. 0 \<le> n_RetryCount x \<and> n_RetryCount x \<le> 3
          \<and> fst (Process (main_system w key sender u a) now env x d) = Return ())"
  using types.run [OF assms(1) refl assms(2)] assms(3) fresh_returns [OF _ refl] by (auto simp: typed_def active_def fresh_def)

theorem service_typed_witness:
  "\<exists>x \<in> active polled_state. n_ID x = ''a'' \<and> n_RetryCount x \<le> 3 \<and> rows_typed (store (rt polled_state))"
proof -
  have t: "rows_typed two_jobs"
    by (auto simp: two_jobs_def jobs_db_def job_row_def rows_typed_def nrow_def row_of_def row_typed_def scan_row_ok split: if_splits)
  obtain ns d where g: "NotificationRepository_GetReadyJobs two_jobs = (Inr ns, d)" and a: "''a'' \<in> set (map n_ID ns)"
    by (simp add: two_jobs_def jobs_exec)
  have "ns_NotificationRepo demo_system = NotificationRepository" by (simp add: demo_system_def)
  with g have "poll polled_state = PollClaimed ns" by (simp add: polled_state_def poll_jobs_def)
  then have "set ns \<subseteq> active polled_state" by (auto simp: active_def placed_def)
  with a obtain x where "x \<in> active polled_state" "n_ID x = ''a''" by auto
  with service_typed [OF polled_state_run [unfolded demo_system_def] polled_state_facts(3) t] show ?thesis by blast
qed

end
