(* ===== verification/ServiceWaits.thy ===== *)
theory ServiceWaits
  imports ServiceTheorems
begin

text \<open>
  A notification for later waits: as long as its row is SCHEDULED no copy of it is on its way to a worker, and
  only a dispatch callback or a failed delegation ends that.
\<close>

section \<open>SCHEDULED rows\<close>

definition scheduled :: "ndb \<Rightarrow> string \<Rightarrow> bool" where
  "scheduled d k \<longleftrightarrow> (\<exists>r. nrow d k = Some r \<and> status_col r = Scheduled)"

lemma scheduled_same: "nrow d' = nrow d \<Longrightarrow> scheduled d' k = scheduled d k"
  by (simp add: scheduled_def)

lemma scheduled_tables: "notifications (tables d') = notifications (tables d) \<Longrightarrow> scheduled d' k = scheduled d k"
  by (rule scheduled_same [OF nrow_same])

text \<open>No update writes the status SCHEDULED; one that is not reported as failed has overwritten the row.\<close>

lemma scheduled_update:
  "n_Status y \<noteq> Scheduled \<Longrightarrow> scheduled (snd (NotificationRepository_Update y d)) k \<Longrightarrow> scheduled d k"
proof -
  assume y: "n_Status y \<noteq> Scheduled" and s: "scheduled (snd (NotificationRepository_Update y d)) k"
  obtain r d' where u: "NotificationRepository_Update y d = (r, d')" by fastforce
  show "scheduled d k" using Update_nrow [OF u] s y by (auto simp: u scheduled_def overwrite_row_def split: if_splits)
qed

lemma updated_not_scheduled:
  assumes y: "n_Status y \<noteq> Scheduled" and u: "NotificationRepository_Update y d = (Inr v, d')"
  shows "\<not> scheduled d' (n_ID y)"
proof -
  let ?f = "overwrite_row (stamp d) (JsonVars (n_Variable y)) y"
  let ?stmt = "\<lambda>t. (Inr (), t\<lparr>notifications := update_key id_col (n_ID y) ?f (notifications t)\<rparr>)"
  obtain r where r: "exec_sql ?stmt d = (r, d')" using u by (auto simp: Update_exec split: prod.splits)
  then obtain v' where "r = Inr v'" using u by (cases r) (auto simp: Update_exec)
  then have "nrow d' (n_ID y) = map_option ?f (nrow d (n_ID y))"
    using exec_sql_ok [OF r [unfolded \<open>r = Inr v'\<close>]] by (simp add: nrow_def row_of_update_key overwrite_row_def)
  then show ?thesis using y by (auto simp: scheduled_def overwrite_row_def)
qed

lemma scheduled_claim:
  assumes g: "NotificationRepository_GetReadyJobs d = (r, d')" and k: "keyed_rows d"
  shows "scheduled d' j \<Longrightarrow> scheduled d j" and "r = Inr ns \<Longrightarrow> x \<in> set ns \<Longrightarrow> \<not> scheduled d' (n_ID x)"
proof -
  note p = Poll_nrow [OF g k [unfolded keyed_rows_def]]
  show "scheduled d' j \<Longrightarrow> scheduled d j"
    using p(1) by (auto simp: scheduled_def mark_processing_def split: if_splits)
  assume "r = Inr ns" "x \<in> set ns"
  then obtain row where "nrow d' (n_ID x) = Some (mark_processing row)" using p(2) by blast
  then show "\<not> scheduled d' (n_ID x)" by (simp add: scheduled_def mark_processing_def)
qed

lemma scheduled_save:
  assumes "NotificationRepository_Save y d = (r, d')" and "scheduled d' k"
  shows "scheduled d k \<or> k = n_ID y \<and> nrow d k = None \<and> n_Status y = Scheduled"
  using Save_nrow [OF assms(1)] assms(2) by (auto simp: scheduled_def row_of_notification_def split: if_splits)

lemma scheduled_status: "scheduled d k \<longleftrightarrow> status_of k d = Some Scheduled"
  by (auto simp: scheduled_def status_of_def pg_view_def nrow_def row_view_def)

section \<open>On the way to a worker\<close>

definition underway :: "svc \<Rightarrow> Notification set" where
  "underway S = {x. \<exists>p. (p, x) \<in> placed S \<and> p \<notin> {ToDelegate, ToDispatch}}"

definition asked_for :: "string \<Rightarrow> svc \<Rightarrow> bool" where
  "asked_for k S \<longleftrightarrow> (\<exists>x. n_ID x = k \<and> ((ToDispatch, x) \<in> placed S \<or> (ToDelegate, x) \<in> placed S))"

text \<open>What is in memory of a SCHEDULED row is only what a request delegates or sets PENDING.\<close>

definition waits :: "ndb \<Rightarrow> memory \<Rightarrow> bool" where
  "waits d M \<longleftrightarrow> (\<forall>p x. (p, x) \<in> M \<longrightarrow> backed d x \<and> (p \<notin> {ToDelegate, ToDispatch} \<longrightarrow> \<not> scheduled d (n_ID x))
     \<and> (p = ToDispatch \<longrightarrow> n_Status x = Pending))"

lemma writes_status: "writes p x y K \<Longrightarrow> (p = ToDispatch \<Longrightarrow> n_Status x = Pending) \<Longrightarrow> n_Status y \<noteq> Scheduled"
  by (induction rule: writes.induct) simp_all

lemma writes_place: "writes p x y K \<Longrightarrow> (q, z) \<in> K \<Longrightarrow> q \<notin> {ToDelegate, ToDispatch} \<and> p \<notin> {ToDelegate, ToDispatch}"
  by (induction rule: writes.induct) simp_all

lemma onward_requests: "onward p q \<Longrightarrow> q \<in> {ToDelegate, ToDispatch} \<longleftrightarrow> p \<in> {ToDelegate, ToDispatch}"
  "onward p q \<Longrightarrow> q = ToDispatch \<Longrightarrow> p = ToDispatch"
  by (cases p; cases q; simp)+

interpretation waiting: flow_invariant waits
proof
  fix d M d' M'
  assume f: "flow d M d' M'" and k: "keyed_rows d" and inv: "waits d M"
  have b: "backed d x" and idle: "p \<notin> {ToDelegate, ToDispatch} \<Longrightarrow> \<not> scheduled d (n_ID x)"
    and pend: "p = ToDispatch \<Longrightarrow> n_Status x = Pending" if "(p, x) \<in> M" for p x
    using inv that by (auto simp: waits_def)
  have c': "\<forall>(p, x) \<in> M'. backed d' x"
    using contents.flow_step [OF f k, of d] b by (auto simp: content_inv_def)
  have waitsI: "waits d' M'"
    if "\<And>p x. (p, x) \<in> M' \<Longrightarrow> p \<notin> {ToDelegate, ToDispatch} \<Longrightarrow> \<not> scheduled d' (n_ID x)"
      "\<And>x. (ToDispatch, x) \<in> M' \<Longrightarrow> n_Status x = Pending"
    using that c' by (auto simp: waits_def)
  have upd: "\<not> scheduled d' j" if "NotificationRepository_Update y d = (r, d')" "n_Status y \<noteq> Scheduled" "\<not> scheduled d j" for y r j
    using scheduled_update [OF that(2), of d j] that(1,3) by auto
  show "waits d' M'"
    using f
  proof (cases rule: flow.cases)
    case move
    show ?thesis
      using move(2) idle pend onward_requests scheduled_tables [OF move(1)] by (intro waitsI) blast+
  next
    case (writing p x y K r)
    have y: "n_Status y \<noteq> Scheduled" using writes_status [OF writing(2)] pend [OF writing(1)] by blast
    have x: "\<not> scheduled d (n_ID y)" if "(q, z) \<in> K" for q z
      using writes_place [OF writing(2) that] writes_same [OF writing(2)] idle [OF writing(1)] by simp
    show ?thesis
    proof (rule waitsI)
      fix q z
      assume "(q, z) \<in> M'" "q \<notin> {ToDelegate, ToDispatch}"
      then have "\<not> scheduled d (n_ID z)" using writing(4) idle x writes_kept [OF writing(2)] by blast
      then show "\<not> scheduled d' (n_ID z)" by (rule upd [OF writing(3) y])
    qed (use writing(4) writes_place [OF writing(2)] pend in blast)
  next
    case (dispatch x v)
    have x: "n_Status x \<noteq> Scheduled" using pend [OF dispatch(1)] by simp
    note new = updated_not_scheduled [OF x dispatch(2)]
    show ?thesis
    proof (rule waitsI)
      fix q z
      assume "(q, z) \<in> M'" "q \<notin> {ToDelegate, ToDispatch}"
      then have "z = x \<or> \<not> scheduled d (n_ID z)" using dispatch(3) idle by blast
      then show "\<not> scheduled d' (n_ID z)" using new upd [OF dispatch(2) x] by blast
    qed (use dispatch(3) pend in blast)
  next
    case (claim r)
    note c = scheduled_claim [OF claim(1) k]
    show ?thesis using claim(2) idle pend c by (intro waitsI) blast+
  next
    case (save x r)
    note s = scheduled_save [OF save(1)]
    have old: "\<not> scheduled d' (n_ID z)" if "(q, z) \<in> M" "q \<notin> {ToDelegate, ToDispatch}" for q z
      using s [of "n_ID z"] idle [OF that] b [OF that(1)] by (auto simp: backed_def)
    have new: "\<not> scheduled d' (n_ID x)" if "n_Status x \<noteq> Scheduled" "r = Inr v" for v
      using Save_nrow [OF save(1)] that by (auto simp: scheduled_def row_of_notification_def)
    show ?thesis
      using save(4) old new pend by (intro waitsI) (auto split: if_splits)
  next
    case (fetch k' x t)
    have "scheduled d' j = scheduled d j" for j using Get_notifications [OF fetch(1)] by (intro scheduled_tables) simp
    then show ?thesis using fetch(3) idle pend by (intro waitsI) auto
  qed
qed

text \<open>The row of a notification leaves SCHEDULED only by a request.\<close>

lemma leaves_by_request:
  assumes f: "flow d M d' M'" and w: "waits d M" and k: "keyed_rows d" and s: "scheduled d j" "\<not> scheduled d' j"
  shows "\<exists>x. n_ID x = j \<and> ((ToDispatch, x) \<in> M \<or> (ToDelegate, x) \<in> M)"
proof -
  obtain row where row: "nrow d j = Some row" "status_col row = Scheduled" using s(1) by (auto simp: scheduled_def)
  have other: "nrow d' j \<noteq> nrow d j" using s by (auto simp: scheduled_def)
  have upd: "n_ID y = j" if "NotificationRepository_Update y d = (r, d')" for y r
    using Update_nrow [OF that] other by (auto split: if_splits)
  show ?thesis
    using f
  proof (cases rule: flow.cases)
    case (writing p x y K r)
    have "n_ID x = j" using upd [OF writing(3)] writes_same [OF writing(2)] by simp
    then have "p \<in> {ToDelegate, ToDispatch}" using w writing(1) s(1) by (auto simp: waits_def)
    then show ?thesis using writing(1) \<open>n_ID x = j\<close> by blast
  next
    case (dispatch x v)
    then show ?thesis using upd by blast
  next
    case (claim r)
    then show ?thesis using claim_spares(1) [OF claim(1) k row(1)] row other by simp
  next
    case (save x r)
    then show ?thesis using Save_nrow [OF save(1)] row(1) other by (auto split: if_splits)
  next
    case move
    then show ?thesis using nrow_same other by metis
  next
    case (fetch k' x t)
    then show ?thesis using Get_notifications [OF fetch(1)] nrow_same other by metis
  qed
qed

section \<open>Who changes a status\<close>













section \<open>Properties\<close>



text \<open>
  C5. A notification for later is not sent early. While its row is SCHEDULED, no copy of it is in the channel,
  with a worker, with the retry scheduler or with a request about to enqueue it; and the only steps after
  which the row is not SCHEDULED any more are taken while a dispatch callback for it, or the request
  that delegates it to the task scheduler, is in progress.
\<close>

theorem scheduled_waits:
  assumes "svc_reachable (main_system w key sender u a) d0 S" and "keyed_rows d0"
  shows "(\<forall>x \<in> underway S. status_of (n_ID x) (store (rt S)) \<noteq> Some Scheduled)
     \<and> (svc_step (main_system w key sender u a) S S' \<longrightarrow> status_of k (store (rt S)) = Some Scheduled
          \<longrightarrow> status_of k (store (rt S')) \<noteq> Some Scheduled \<longrightarrow> asked_for k S)"
proof -
  have w: "keyed_rows (store (rt S))" "waits (store (rt S)) (placed S)"
    using waiting.run [OF assms(1) refl assms(2)] by (simp_all add: waits_def)
  have "asked_for k S"
    if "svc_step (main_system w key sender u a) S S'" "scheduled (store (rt S)) k" "\<not> scheduled (store (rt S')) k"
    using leaves_by_request [OF svc_step_flow [OF that(1) refl] w(2,1) that(2,3)] by (simp add: asked_for_def)
  with w show ?thesis unfolding scheduled_status waits_def underway_def by blast
qed

theorem scheduled_waits_witness:
  "status_of ''s'' (store (rt (poll_jobs demo_system (start_service demo_system scheduled_db)))) = Some Scheduled"
proof -
  let ?S = "start_service demo_system scheduled_db"
  have k: "keyed_rows scheduled_db" and s: "status_of ''s'' scheduled_db = Some Scheduled"
    using scheduled_db_facts by (simp_all add: scheduled_db_def keyed_rows_def keyed_def status_of_def jobs_exec)
  have "poll ?S = PollWaiting" "store (rt ?S) = scheduled_db" by simp_all
  moreover have "svc_step demo_system ?S (poll_jobs demo_system ?S)" by (rule svc_step.poll_jobs) simp
  moreover have "\<not> asked_for ''s'' ?S" by (simp add: asked_for_def)
  ultimately show ?thesis
    using scheduled_waits [OF svc_run.start k, where S' = "poll_jobs demo_system ?S" and k = "''s''", of 5 "[]" "[]" "''http://task-scheduler:8081''" "''k''"] s
    unfolding demo_system_def by metis
qed

end
