(* ===== verification/Config.thy ===== *)
theory Config
  imports Senders
begin

text \<open>
  Configuration: \<open>internal/config/config.go\<close> of the notification service and
  \<open>internal/scheduler/config/config.go\<close> of the task scheduler.

  The environment after \<open>godotenv.Load()\<close> is a function from names to values, empty when unset, as
  \<open>os.Getenv\<close> shows it. \<open>parse_duration\<close> is \<open>time.ParseDuration\<close>.
\<close>

section \<open>Reading the environment\<close>

type_synonym environment = "string \<Rightarrow> string"

definition getEnv :: "environment \<Rightarrow> string \<Rightarrow> string \<Rightarrow> string" where
  "getEnv env key fallback = (let v = env key in if v \<noteq> '''' then v else fallback)"

text \<open>\<open>strconv.Atoi\<close>: an optional sign, at least one decimal digit and nothing else, in the range of \<open>int\<close>.\<close>

definition digit :: "char \<Rightarrow> nat option" where
  "digit c = (let k = of_char c in if 48 \<le> k \<and> k \<le> 57 then Some (k - 48) else None)"

fun digits :: "nat \<Rightarrow> string \<Rightarrow> nat option" where
  "digits acc [] = Some acc"
| "digits acc (c # cs) = (case digit c of None \<Rightarrow> None | Some k \<Rightarrow> digits (10 * acc + k) cs)"

definition unsigned :: "string \<Rightarrow> nat option" where
  "unsigned s = (if s = [] then None else digits 0 s)"

definition Atoi :: "string \<Rightarrow> int option" where
  "Atoi s =
     (let (neg, ds) = (case s of c # cs \<Rightarrow> (if c = CHR ''-'' then (True, cs) else if c = CHR ''+'' then (False, cs) else (False, s))
                       | [] \<Rightarrow> (False, s))
      in case unsigned ds of
           None \<Rightarrow> None
         | Some n \<Rightarrow>
             (let i = (if neg then - int n else int n)
              in if min_int64 \<le> i \<and> i \<le> max_int64 then Some i else None))"

definition getEnvInt :: "environment \<Rightarrow> string \<Rightarrow> int \<Rightarrow> int" where
  "getEnvInt env key fallback =
     (let v = env key
      in if v \<noteq> '''' then (case Atoi v of Some n \<Rightarrow> n | None \<Rightarrow> fallback) else fallback)"

section \<open>The two services\<close>

record NotificationConfig =
  nc_DatabaseURL :: string
  nc_HTTPAddr :: string
  nc_WorkerCount :: int
  nc_RateLimitMax :: int
  nc_RateLimitDuration :: duration
  nc_Auth0Domain :: string
  nc_EmailFrom :: string
  nc_SchedulerURL :: string
  nc_SchedulerAPIKey :: string

definition Load_Notification :: "(string \<Rightarrow> duration option) \<Rightarrow> environment \<Rightarrow> string + NotificationConfig" where
  "Load_Notification parse_duration env =
     (let dbURL = env ''DATABASE_URL''
      in if dbURL = '''' then Inl ''DATABASE_URL environment variable is required and cannot be empty''
         else (let rlMax = getEnvInt env ''RATE_LIMIT_MAX'' 3;
                   rlDurationStr = getEnv env ''RATE_LIMIT_DURATION'' ''24h'';
                   rlDuration = (case parse_duration rlDurationStr of Some d \<Rightarrow> d | None \<Rightarrow> 24 * hour)
               in Inr \<lparr>nc_DatabaseURL = dbURL,
                       nc_HTTPAddr = getEnv env ''HTTP_ADDR'' '':8080'',
                       nc_WorkerCount = getEnvInt env ''WORKER_COUNT'' 5,
                       nc_RateLimitMax = rlMax,
                       nc_RateLimitDuration = rlDuration,
                       nc_Auth0Domain = getEnv env ''AUTH0_DOMAIN'' ''dev-i6avz7x124upwug6.us.auth0.com'',
                       nc_EmailFrom = getEnv env ''EMAIL_FROM'' ''no-reply@sanjayvelu.online'',
                       nc_SchedulerURL = getEnv env ''SCHEDULER_URL'' ''http://localhost:8081'',
                       nc_SchedulerAPIKey = getEnv env ''SCHEDULER_API_KEY'' ''test_api_key_12345''\<rparr>))"

record SchedulerConfig =
  sc_DBHost :: string
  sc_DBPort :: string
  sc_DBUser :: string
  sc_DBPassword :: string
  sc_DBName :: string
  sc_DBSSLMode :: string
  sc_RedisHost :: string
  sc_RedisPort :: string
  sc_RedisPassword :: string
  sc_WorkerCount :: int
  sc_QueueCapacity :: int
  sc_SchedulerAPIKey :: string

definition Load_Scheduler :: "environment \<Rightarrow> string + SchedulerConfig" where
  "Load_Scheduler env =
     (let dbHost = getEnv env ''DB_HOST'' ''localhost'';
          dbPort = getEnv env ''DB_PORT'' ''5432'';
          dbUser = getEnv env ''DB_USER'' ''postgres'';
          dbPassword = getEnv env ''DB_PASSWORD'' ''postgres_password'';
          dbName = getEnv env ''DB_NAME'' ''tasks'';
          dbSSLMode = getEnv env ''DB_SSLMODE'' ''disable''
      in if dbHost = '''' \<or> dbUser = '''' \<or> dbName = ''''
         then Inl ''missing critical database configuration (DB_HOST, DB_USER, DB_NAME)''
         else Inr \<lparr>sc_DBHost = dbHost, sc_DBPort = dbPort, sc_DBUser = dbUser, sc_DBPassword = dbPassword,
                   sc_DBName = dbName, sc_DBSSLMode = dbSSLMode,
                   sc_RedisHost = getEnv env ''REDIS_HOST'' ''localhost'',
                   sc_RedisPort = getEnv env ''REDIS_PORT'' ''6379'',
                   sc_RedisPassword = getEnv env ''REDIS_PASSWORD'' '''',
                   sc_WorkerCount = getEnvInt env ''WORKER_COUNT'' 5,
                   sc_QueueCapacity = getEnvInt env ''QUEUE_CAPACITY'' 10,
                   sc_SchedulerAPIKey = getEnv env ''SCHEDULER_API_KEY'' ''''\<rparr>)"

section \<open>Properties\<close>

lemma digit_char: "(k::nat) < 10 \<Longrightarrow> digit (char_of (48 + k)) = Some k"
  by (simp add: digit_def Let_def of_char_of)

lemma digits_append: "digits acc (xs @ ys) = (case digits acc xs of None \<Rightarrow> None | Some a \<Rightarrow> digits a ys)"
  by (induction xs arbitrary: acc) (auto split: option.splits)

lemma digits_decimal: "digits 0 (decimal n) = Some n"
proof (induction n rule: decimal.induct)
  case (1 n)
  then show ?case
    by (subst decimal.simps) (simp add: digits_append digit_char split: option.split)
qed

lemma decimal_nonempty: "decimal n \<noteq> []"
  by (subst decimal.simps) simp

lemma decimal_head: "c \<in> set (decimal n) \<Longrightarrow> \<exists>k < (10::nat). c = char_of (48 + k)"
proof (induction n rule: decimal.induct)
  case (1 n)
  show ?case
  proof (cases "n < 10")
    case True
    then show ?thesis using 1(2) by (auto simp: decimal.simps [of n])
  next
    case False
    then have "c \<in> set (decimal (n div 10)) \<or> c = char_of (48 + n mod 10)" using 1(2) by (auto simp: decimal.simps [of n])
    then show ?thesis using 1(1) [OF False] by (metis mod_less_divisor zero_less_numeral)
  qed
qed

lemma sign_not_digit: "(k::nat) < 10 \<Longrightarrow> char_of (48 + k) \<noteq> CHR ''-'' \<and> char_of (48 + k) \<noteq> CHR ''+''"
proof -
  assume "k < 10"
  then have "(of_char (char_of (48 + k) :: char) :: nat) = 48 + k" by (simp add: of_char_of)
  moreover have "(of_char (CHR ''-'') :: nat) = 45" "(of_char (CHR ''+'') :: nat) = 43" by simp_all
  moreover have "48 + k \<noteq> 45" "48 + k \<noteq> 43" by simp_all
  ultimately show ?thesis by metis
qed

lemma Atoi_decimal: "int n \<le> max_int64 \<Longrightarrow> Atoi (decimal n) = Some (int n)"
proof -
  assume n: "int n \<le> max_int64"
  obtain c cs where d: "decimal n = c # cs" using decimal_nonempty by (cases "decimal n") auto
  then have "c \<noteq> CHR ''-''" "c \<noteq> CHR ''+''" using decimal_head [of c n] sign_not_digit by auto
  moreover have "unsigned (c # cs) = Some n" using digits_decimal [of n] d by (simp add: unsigned_def)
  ultimately show ?thesis using n d by (simp add: Atoi_def min_int64_def)
qed

lemma Atoi_negative: "int n \<le> max_int64 + 1 \<Longrightarrow> Atoi (CHR ''-'' # decimal n) = Some (- int n)"
  using digits_decimal [of n] decimal_nonempty [of n]
  by (simp add: Atoi_def unsigned_def min_int64_def max_int64_def)

text \<open>
  A number written into an environment variable is read back as it was written, in the whole range of
  \<open>int\<close>, negative ones included; whatever is not such a number (empty, with any other character, or out of
  range) gives the fallback.
\<close>

lemma getEnvInt_roundtrip:
  "(env key = decimal n \<and> int n \<le> max_int64 \<longrightarrow> getEnvInt env key fallback = int n)
     \<and> (env key = CHR ''-'' # decimal n \<and> int n \<le> max_int64 + 1 \<longrightarrow> getEnvInt env key fallback = - int n)
     \<and> (env key = decimal n \<and> int n > max_int64 \<longrightarrow> getEnvInt env key fallback = fallback)
     \<and> ((\<exists>c \<in> set (tl (env key)). digit c = None) \<longrightarrow> getEnvInt env key fallback = fallback)"
proof (intro conjI impI)
  show "env key = decimal n \<and> int n \<le> max_int64 \<Longrightarrow> getEnvInt env key fallback = int n"
    using decimal_nonempty [of n] by (auto simp: getEnvInt_def Atoi_decimal Let_def)
  show "env key = CHR ''-'' # decimal n \<and> int n \<le> max_int64 + 1 \<Longrightarrow> getEnvInt env key fallback = - int n"
    by (auto simp: getEnvInt_def Atoi_negative Let_def)
  have big: "Atoi (decimal n) = None" if n: "int n > max_int64"
  proof -
    obtain c cs where d: "decimal n = c # cs" using decimal_nonempty by (cases "decimal n") auto
    then have "c \<noteq> CHR ''-''" "c \<noteq> CHR ''+''" using decimal_head [of c n] sign_not_digit by auto
    moreover have "unsigned (c # cs) = Some n" using digits_decimal [of n] d by (simp add: unsigned_def)
    ultimately show ?thesis using n d by (simp add: Atoi_def)
  qed
  then show "env key = decimal n \<and> int n > max_int64 \<Longrightarrow> getEnvInt env key fallback = fallback"
    by (simp add: getEnvInt_def Let_def)
  have bad: "digits a s = None" if "c \<in> set s" "digit c = None" for a s c
    using that by (induction s arbitrary: a) (auto split: option.splits)
  show "\<exists>c \<in> set (tl (env key)). digit c = None \<Longrightarrow> getEnvInt env key fallback = fallback"
  proof -
    assume "\<exists>c \<in> set (tl (env key)). digit c = None"
    then obtain c d cs where v: "env key = d # cs" "c \<in> set cs" "digit c = None" by (cases "env key") auto
    then have "unsigned cs = None" "unsigned (d # cs) = None"
      using bad [OF v(2,3)] by (auto simp: unsigned_def split: option.split)
    then have "Atoi (d # cs) = None" by (simp add: Atoi_def)
    then show ?thesis using v(1) by (simp add: getEnvInt_def)
  qed
qed

lemma getEnvInt_roundtrip_witness:
  "getEnvInt (\<lambda>_. ''42'') ''WORKER_COUNT'' 5 = 42 \<and> getEnvInt (\<lambda>_. ''4x'') ''WORKER_COUNT'' 5 = 5"
proof -
  have "decimal 42 = ''42''" by code_simp
  moreover have "digit (CHR ''x'') = None" by code_simp
  ultimately show ?thesis
    using getEnvInt_roundtrip [of "\<lambda>_. ''42''" "''WORKER_COUNT''" 42 5] getEnvInt_roundtrip [of "\<lambda>_. ''4x''" "''WORKER_COUNT''" 0 5]
    by (simp add: max_int64_def)
qed

text \<open>
  The scheduler's validation of its database settings cannot fail: \<open>getEnv\<close> never returns an empty
  string for a variable with a non-empty fallback, so \<open>Load\<close> succeeds in every environment; the
  notification service's \<open>Load\<close> fails exactly when \<open>DATABASE_URL\<close> is empty.
\<close>

lemma load_outcomes:
  "(\<exists>cfg. Load_Scheduler env = Inr cfg \<and> sc_DBHost cfg \<noteq> '''' \<and> sc_DBUser cfg \<noteq> '''' \<and> sc_DBName cfg \<noteq> '''')
     \<and> ((\<exists>err. Load_Notification parse_duration env = Inl err) \<longleftrightarrow> env ''DATABASE_URL'' = '''')"
  by (simp add: Load_Scheduler_def Load_Notification_def getEnv_def Let_def)

end
