(* ===== verification/Database.thy ===== *)
theory Database
  imports Senders
begin

text \<open>
  \<open>internal/database\<close> of the notification service: the migrations (\<open>migrate.go\<close>) and the connection
  (\<open>postgres.go\<close>).

  A URL is what \<open>url.Parse\<close> makes of it: a scheme, the encoded query and the rest. The migration library
  and the connection pool are parameters: records of the functions the code calls, over the state \<open>'s\<close> of
  the world they act on.
\<close>

section \<open>The migration URL\<close>

record url =
  u_Scheme :: string
  u_RawQuery :: string
  u_rest :: string

text \<open>
  \<open>url.Values\<close> maps a key to its values; \<open>parse_query\<close> and \<open>encode\<close> are \<open>URL.Query\<close> and \<open>Values.Encode\<close>,
  \<open>parse_url\<close> and \<open>url_string\<close> are \<open>url.Parse\<close> and \<open>URL.String\<close>.
\<close>

type_synonym url_values = "string \<Rightarrow> string list"

definition migrateDatabaseURL ::
  "unicode \<Rightarrow> (string \<Rightarrow> string + url) \<Rightarrow> (string \<Rightarrow> url_values) \<Rightarrow> (url_values \<Rightarrow> string) \<Rightarrow> (url \<Rightarrow> string)
     \<Rightarrow> string \<Rightarrow> string + string" where
  "migrateDatabaseURL U parse_url parse_query encode url_string databaseURL =
     (case parse_url databaseURL of
        Inl err \<Rightarrow> Inl err
      | Inr u \<Rightarrow>
          (let scheme = ToLower U (u_Scheme u);
               finish = (\<lambda>u. let q = (parse_query (u_RawQuery u))(''statement_cache_mode'' := [''describe''])
                             in Inr (url_string (u\<lparr>u_RawQuery := encode q\<rparr>)))
           in if scheme = ''postgres'' \<or> scheme = ''postgresql'' then finish (u\<lparr>u_Scheme := ''pgx5''\<rparr>)
              else if scheme = ''pgx5'' then finish u
              else Inl (''unsupported database URL scheme '' @ quoted (u_Scheme u) @ '' for migrations'')))"

section \<open>Running the migrations\<close>

datatype migrate_error = ErrNoChange | MigrateError string

record ('m, 's) migrate_lib =
  mg_New :: "string \<Rightarrow> string \<Rightarrow> 's \<Rightarrow> (string + 'm) \<times> 's"
  mg_Up :: "'m \<Rightarrow> 's \<Rightarrow> migrate_error option \<times> 's"
  mg_Close :: "'m \<Rightarrow> 's \<Rightarrow> 's"

text \<open>\<open>migrate_url\<close> is \<open>migrateDatabaseURL\<close> with its library functions; the deferred \<open>Close\<close> is the last call.\<close>

definition RunMigrations ::
  "('m, 's) migrate_lib \<Rightarrow> (string \<Rightarrow> string + string) \<Rightarrow> string \<Rightarrow> 's \<Rightarrow> (string + unit) \<times> 's" where
  "RunMigrations L migrate_url databaseURL s =
     (case migrate_url databaseURL of
        Inl err \<Rightarrow> (Inl (''prepare migration URL: '' @ err), s)
      | Inr migrateURL \<Rightarrow>
          (case mg_New L ''file://migrations'' migrateURL s of
             (Inl err, s) \<Rightarrow> (Inl (''create migrator: '' @ err), s)
           | (Inr m, s) \<Rightarrow>
               (case mg_Up L m s of
                  (Some (MigrateError err), s) \<Rightarrow> (Inl (''run migrations: '' @ err), mg_Close L m s)
                | (Some ErrNoChange, s) \<Rightarrow> (Inr (), mg_Close L m s)
                | (None, s) \<Rightarrow> (Inr (), mg_Close L m s))))"

section \<open>The connection pool\<close>

datatype exec_mode = QueryExecModeCacheStatement | QueryExecModeSimpleProtocol

record 'c pool_config =
  pc_conn :: 'c
  MaxConns :: int
  MinConns :: int
  MaxConnLifetime :: duration
  MaxConnIdleTime :: duration
  DefaultQueryExecMode :: exec_mode

record ('c, 'p, 's) pool_lib =
  pl_ParseConfig :: "string \<Rightarrow> string + 'c pool_config"
  pl_NewWithConfig :: "'c pool_config \<Rightarrow> 's \<Rightarrow> (string + 'p) \<times> 's"
  pl_Ping :: "'p \<Rightarrow> 's \<Rightarrow> string option \<times> 's"
  pl_Close :: "'p \<Rightarrow> 's \<Rightarrow> 's"

definition pool_settings :: "'c pool_config \<Rightarrow> 'c pool_config" where
  "pool_settings cfg = cfg\<lparr>MaxConns := 10, MinConns := 2, MaxConnLifetime := hour, MaxConnIdleTime := 30 * minute,
     DefaultQueryExecMode := QueryExecModeSimpleProtocol\<rparr>"

definition Connect :: "('c, 'p, 's) pool_lib \<Rightarrow> string \<Rightarrow> 's \<Rightarrow> (string + 'p) \<times> 's" where
  "Connect L databaseURL s =
     (case pl_ParseConfig L databaseURL of
        Inl err \<Rightarrow> (Inl (''parse database config: '' @ err), s)
      | Inr cfg \<Rightarrow>
          (case pl_NewWithConfig L (pool_settings cfg) s of
             (Inl err, s) \<Rightarrow> (Inl (''connect to database: '' @ err), s)
           | (Inr pool, s) \<Rightarrow>
               (case pl_Ping L pool s of
                  (Some err, s) \<Rightarrow> (Inl (''ping database: '' @ err), pl_Close L pool s)
                | (None, s) \<Rightarrow> (Inr pool, s))))"

section \<open>Properties\<close>

text \<open>
  What the migrator is given: a URL of a PostgreSQL scheme (in any case) comes out with the scheme
  pgx5, or with its own when it was pgx5 already, the statement cache off and nothing else changed; every
  other scheme is refused.
\<close>

lemma migrate_url:
  assumes "parse_url raw = Inr u"
    and "parse_query (encode ((parse_query (u_RawQuery u))(''statement_cache_mode'' := [''describe''])))
       = (parse_query (u_RawQuery u))(''statement_cache_mode'' := [''describe''])"
  shows "if ToLower U (u_Scheme u) \<in> {''postgres'', ''postgresql'', ''pgx5''}
     then \<exists>v. migrateDatabaseURL U parse_url parse_query encode url_string raw = Inr (url_string v)
        \<and> ToLower U (u_Scheme v) = ''pgx5'' \<and> u_rest v = u_rest u
        \<and> parse_query (u_RawQuery v) = (parse_query (u_RawQuery u))(''statement_cache_mode'' := [''describe''])
     else \<exists>err. migrateDatabaseURL U parse_url parse_query encode url_string raw = Inl err"
proof -
  let ?q = "(parse_query (u_RawQuery u))(''statement_cache_mode'' := [''describe''])"
  have low: "ToLower U ''pgx5'' = ''pgx5''" by code_simp
  consider (pg) "ToLower U (u_Scheme u) \<in> {''postgres'', ''postgresql''}" | (px) "ToLower U (u_Scheme u) = ''pgx5''"
    | (other) "ToLower U (u_Scheme u) \<notin> {''postgres'', ''postgresql'', ''pgx5''}" by blast
  then show ?thesis
  proof cases
    case pg
    then have "migrateDatabaseURL U parse_url parse_query encode url_string raw
        = Inr (url_string (u\<lparr>u_Scheme := ''pgx5'', u_RawQuery := encode ?q\<rparr>))"
      using assms(1) by (auto simp: migrateDatabaseURL_def Let_def)
    then show ?thesis using pg low assms(2) by (auto intro!: exI [of _ "u\<lparr>u_Scheme := ''pgx5'', u_RawQuery := encode ?q\<rparr>"])
  next
    case px
    then have "migrateDatabaseURL U parse_url parse_query encode url_string raw
        = Inr (url_string (u\<lparr>u_RawQuery := encode ?q\<rparr>))"
      using assms(1) by (auto simp: migrateDatabaseURL_def Let_def)
    then show ?thesis using px assms(2) by (auto intro!: exI [of _ "u\<lparr>u_RawQuery := encode ?q\<rparr>"])
  next
    case other
    then show ?thesis using assms(1) by (auto simp: migrateDatabaseURL_def Let_def)
  qed
qed

text \<open>The three ways in which the migrations succeed or fail, with the migrator closed whenever it was made.\<close>

lemma RunMigrations_Inr:
  assumes "RunMigrations L migrate_url raw s = (Inr (), s')"
  obtains m v s1 r s2 where "migrate_url raw = Inr v" and "mg_New L ''file://migrations'' v s = (Inr m, s1)"
    and "mg_Up L m s1 = (r, s2)" and "r = None \<or> r = Some ErrNoChange" and "s' = mg_Close L m s2"
  using assms
  by (auto simp: RunMigrations_def split: sum.splits prod.splits option.splits migrate_error.splits)

lemma Connect_Inr:
  assumes "Connect L raw s = (Inr pool, s')"
  obtains cfg s1 where "pl_ParseConfig L raw = Inr cfg" and "pl_NewWithConfig L (pool_settings cfg) s = (Inr pool, s1)"
    and "pl_Ping L pool s1 = (None, s')"
  using assms by (auto simp: Connect_def split: sum.splits prod.splits option.splits)

text \<open>A pool is open after \<open>Connect\<close> exactly when it was returned, if \<open>Close\<close> undoes \<open>NewWithConfig\<close> and \<open>Ping\<close> opens none.\<close>

lemma Connect_leaves_no_pool:
  assumes "\<And>cfg pool s s'. pl_NewWithConfig L cfg s = (Inr pool, s') \<Longrightarrow> opened s' = insert pool (opened s) \<and> pool \<notin> opened s"
    and "\<And>cfg err s s'. pl_NewWithConfig L cfg s = (Inl err, s') \<Longrightarrow> opened s' = opened s"
    and "\<And>pool s r s'. pl_Ping L pool s = (r, s') \<Longrightarrow> opened s' = opened s"
    and "\<And>pool s. opened (pl_Close L pool s) = opened s - {pool}"
    and "Connect L raw s = (r, s')"
  shows "opened s' = (case r of Inr pool \<Rightarrow> insert pool (opened s) | Inl _ \<Rightarrow> opened s)"
proof (cases "pl_ParseConfig L raw")
  case (Inl err)
  then have "s' = s" "\<exists>e. r = Inl e" using assms(5) by (cases r; simp add: Connect_def)+
  then show ?thesis by auto
next
  case (Inr cfg)
  obtain p s1 where p: "pl_NewWithConfig L (pool_settings cfg) s = (p, s1)" by (rule prod.exhaust)
  show ?thesis
  proof (cases p)
    case err: (Inl err)
    have "opened s1 = opened s" by (rule assms(2) [OF p [unfolded err]])
    moreover have "s' = s1" using assms(5) Inr p err by (simp add: Connect_def)
    moreover obtain e where "r = Inl e" using assms(5) Inr p err by (cases r) (simp_all add: Connect_def)
    ultimately show ?thesis by simp
  next
    case pool: (Inr pool)
    obtain e s2 where e: "pl_Ping L pool s1 = (e, s2)" by (rule prod.exhaust)
    have o: "opened s2 = insert pool (opened s)" "pool \<notin> opened s"
      using assms(1) [OF p [unfolded pool]] assms(3) [OF e] by simp_all
    show ?thesis
    proof (cases e)
      case None
      then have "s' = s2" "r = Inr pool" using assms(5) Inr p pool e by (cases r; simp add: Connect_def)+
      then show ?thesis using o by simp
    next
      case (Some err)
      then have "s' = pl_Close L pool s2" "\<exists>e. r = Inl e" using assms(5) Inr p pool e by (cases r; simp add: Connect_def)+
      then show ?thesis using o assms(4) [of pool s2] by auto
    qed
  qed
qed

end
