(* ===== verification/Boot.thy ===== *)
theory Boot
  imports Router TaskExclusive TaskExit TaskCache ServiceParts ServiceTypes ServiceWaits Config Database
begin

text \<open>
  The two binaries: what \<open>cmd/notification-service/main.go\<close> and \<open>cmd/task-scheduler/main.go\<close> build from
  their configuration, and the two HTTP connections between the services.

  Signals, listening sockets and logging are not modelled. The Redis ping's outcome is the argument
  \<open>ping_ok\<close>. A start ends in a process that serves or in \<open>os.Exit(1)\<close>, here with the message that is logged.
\<close>

datatype 'a startup = Exited string | Running 'a

section \<open>cmd/task-scheduler\<close>

definition conn_string :: "SchedulerConfig \<Rightarrow> string" where
  "conn_string cfg =
     ''host='' @ sc_DBHost cfg @ '' port='' @ sc_DBPort cfg @ '' user='' @ sc_DBUser cfg @ '' password='' @ sc_DBPassword cfg
       @ '' dbname='' @ sc_DBName cfg @ '' sslmode='' @ sc_DBSSLMode cfg"

definition uses_redis :: "SchedulerConfig \<Rightarrow> bool \<Rightarrow> bool" where
  "uses_redis cfg ping_ok \<longleftrightarrow>
     (if sc_RedisHost cfg \<noteq> '''' \<and> sc_RedisHost cfg \<noteq> ''localhost'' \<and> sc_RedisHost cfg \<noteq> ''127.0.0.1'' then ping_ok else False)"

text \<open>
  \<open>DROP TABLE IF EXISTS tasks\<close>, then \<open>CREATE TABLE IF NOT EXISTS\<close> for both tables; errors are only logged.
  The rows are the model: a table that is missing because the second statement failed is not represented.
\<close>

definition init_schema :: "tstore \<Rightarrow> tstore" where
  "init_schema s =
     (let (_, s) = on_base (\<lambda>T. (Inr (), T\<lparr>tasks := []\<rparr>)) s;
          (_, s) = on_base (\<lambda>T. (Inr (), T)) s
      in s)"

definition main_scheduler ::
  "(gotime \<Rightarrow> string) \<Rightarrow> SchedulerConfig \<Rightarrow> bool \<Rightarrow> tstore \<Rightarrow> tstore TaskScheduler \<times> tstore sched" where
  "main_scheduler fmt cfg ping_ok s =
     (let rdb = uses_redis cfg ping_ok;
          s = init_schema s;
          repo = NewPostgresRepo rdb;
          dlqRepo = NewPostgresDLQRepository fmt;
          scheduler = NewTaskScheduler repo dlqRepo (sc_WorkerCount cfg) (sc_QueueCapacity cfg)
      in (scheduler, TaskScheduler.Start scheduler s))"

text \<open>The whole start: \<open>sql_open\<close> is \<open>sql.Open\<close>; the ping of the database only logs.\<close>

definition start_scheduler ::
  "(string \<Rightarrow> string option) \<Rightarrow> (gotime \<Rightarrow> string) \<Rightarrow> environment \<Rightarrow> bool \<Rightarrow> tstore
     \<Rightarrow> (SchedulerConfig \<times> tstore TaskScheduler \<times> tstore sched) startup" where
  "start_scheduler sql_open fmt env ping_ok s =
     (case Load_Scheduler env of
        Inl err \<Rightarrow> Exited (''Failed to load configuration: '' @ err)
      | Inr cfg \<Rightarrow>
          (case sql_open (conn_string cfg) of
             Some err \<Rightarrow> Exited (''Failed to initialize database connection: '' @ err)
           | None \<Rightarrow> Running (cfg, main_scheduler fmt cfg ping_ok s)))"

text \<open>The target of callbacks for tests, behind no key check.\<close>

definition mock_listener :: "string + 'payload \<Rightarrow> status_code \<times> string" where
  "mock_listener bound =
     (case bound of Inl err \<Rightarrow> (StatusBadRequest, err) | Inr payload \<Rightarrow> (StatusOK, ''received''))"

section \<open>cmd/notification-service\<close>

definition main_engine :: "unicode \<Rightarrow> web_assets option \<Rightarrow> NotificationConfig \<Rightarrow> string \<Rightarrow> engine" where
  "main_engine U assets cfg resendKey =
     \<lparr>en_U = U, en_assets = assets, en_domain = nc_Auth0Domain cfg,
      en_system = main_system (nc_WorkerCount cfg) resendKey (nc_EmailFrom cfg) (nc_SchedulerURL cfg) (nc_SchedulerAPIKey cfg),
      en_templates = TemplateRepository\<rparr>"

definition main_web :: "NotificationConfig \<Rightarrow> string \<Rightarrow> ndb \<Rightarrow> web" where
  "main_web cfg resendKey d =
     \<lparr>web_runtime = NotificationSystem.Start
        (main_system (nc_WorkerCount cfg) resendKey (nc_EmailFrom cfg) (nc_SchedulerURL cfg) (nc_SchedulerAPIKey cfg)) (main_runtime d),
      web_tokens = (\<lambda>_. None),
      web_limits = NewInMemoryRateLimitRepo \<lparr>MaxTokens = nc_RateLimitMax cfg, Duration = nc_RateLimitDuration cfg\<rparr>\<rparr>"

definition start_notification ::
  "unicode \<Rightarrow> (string \<Rightarrow> duration option) \<Rightarrow> (string \<Rightarrow> string + string) \<Rightarrow> ('m, ndb) migrate_lib \<Rightarrow> ('c, 'p, ndb) pool_lib
     \<Rightarrow> web_assets option \<Rightarrow> environment \<Rightarrow> ndb \<Rightarrow> (engine \<times> web) startup" where
  "start_notification U parse_duration migrate_url M P assets env d =
     (case Load_Notification parse_duration env of
        Inl err \<Rightarrow> Exited ''load configuration failed''
      | Inr cfg \<Rightarrow>
          (case RunMigrations M migrate_url (nc_DatabaseURL cfg) d of
             (Inl err, d) \<Rightarrow> Exited ''run migrations''
           | (Inr _, d) \<Rightarrow>
               (case Connect P (nc_DatabaseURL cfg) d of
                  (Inl err, d) \<Rightarrow> Exited ''connect database''
                | (Inr pool, d) \<Rightarrow>
                    (let resendKey = env ''RESEND_API_KEY''
                     in Running (main_engine U assets cfg resendKey, main_web cfg resendKey d)))))"

text \<open>The runtime that \<open>main\<close> builds is the one from which the runs of \<open>ServiceRun\<close> start.\<close>

lemma main_starts_service:
  "rt (start_service (en_system (main_engine U assets cfg key)) d) = web_runtime (main_web cfg key d)"
  by (simp add: start_service_def main_engine_def main_web_def)

section \<open>The connections\<close>

text \<open>
  \<open>ScheduleNotification\<close>'s request as the task API receives it: \<open>parse\<close> is the JSON decoding of the time, which
  the field \<open>execute_at\<close> of a task needs; the fields the request does not have are zero.
\<close>

definition bound_task :: "(string \<Rightarrow> string + gotime) \<Rightarrow> task_request \<Rightarrow> string + Task" where
  "bound_task parse r =
     (case parse (tq_execute_at r) of
        Inl err \<Rightarrow> Inl err
      | Inr at' \<Rightarrow> Inr \<lparr>t_ID = tq_id r, t_Title = tq_title r, t_Description = tq_description r,
          t_CallbackURL = tq_callback_url r, t_Payload = tq_payload r, t_Status = StatusPending, t_RetryCount = 0,
          t_MaxRetries = tq_max_retries r, t_ExecuteAt = at', t_CreatedAt = zero_time\<rparr>)"

definition post_task ::
  "unicode \<Rightarrow> string \<Rightarrow> bool \<Rightarrow> (gotime \<Rightarrow> string) \<Rightarrow> (string \<Rightarrow> string + gotime) \<Rightarrow> gotime \<Rightarrow> task_request \<Rightarrow> tstore
     \<Rightarrow> http_reply \<times> tstore" where
  "post_task U apiKey rdb fmt parse now r s =
     (let c = \<lparr>c_header_authorization = tq_authorization r, c_param_id = '''', c_client_ip = '''', c_user_id = None\<rparr>;
          ((code, body), s) = serve_task U apiKey (NewPostgresRepo rdb) fmt (PostTasks now now (bound_task parse r)) c s
      in (Reply code (case body of TaskErrorBody msg \<Rightarrow> msg | _ \<Rightarrow> ''''), s))"

text \<open>
  A callback of the scheduler as the notification service receives it; a panic of the handler is answered
  500 by Gin's recovery. A request to any other address is not for this service.
\<close>

definition call_back :: "engine \<Rightarrow> web_env \<Rightarrow> string \<Rightarrow> web \<Rightarrow> callback_request \<Rightarrow> callback_reply \<times> web" where
  "call_back g e ident w q =
     (if cq_url q = callback_url ident
      then (let c = \<lparr>c_header_authorization = cq_authorization q, c_param_id = ident, c_client_ip = '''', c_user_id = None\<rparr>
            in case serve g e AskDispatch c w of
                 (Return (code, _), w) \<Rightarrow> (Answered code, w)
               | (Panic _, w) \<Rightarrow> (Answered StatusInternalServerError, w)
               | (Block, w) \<Rightarrow> (ConnectionFailed ''timeout'', w))
      else (ConnectionFailed ''unknown address'', w))"

text \<open>
  One attempt of the scheduler at the task of notification \<open>ident\<close>, with the notification service on the
  other side, which meanwhile does anything else (\<open>f\<close>).
\<close>

type_synonym attempt = "web_env \<times> (web \<Rightarrow> web) \<times> work_env"

definition fire :: "engine \<Rightarrow> bool \<Rightarrow> (gotime \<Rightarrow> string) \<Rightarrow> string \<Rightarrow> attempt \<Rightarrow> web \<times> tstore \<Rightarrow> web \<times> tstore" where
  "fire g rdb fmt ident a ws =
     (case (a, ws) of ((e, f, env), (w, s)) \<Rightarrow>
        (let k = ''task_notif_'' @ ident;
             w = f w;
             w' = (case tview s k of
                     Some t \<Rightarrow> (if t_Status t = StatusPending \<and> t_CallbackURL t \<noteq> '''' then snd (call_back g e ident w (callback_of t)) else w)
                   | None \<Rightarrow> w)
         in (w', execute rdb fmt k (env\<lparr>we_do := \<lambda>q. fst (call_back g e ident w q)\<rparr>) s)))"

section \<open>Lemmas\<close>

lemma public_dispatch:
  "serve g e AskDispatch c w = on_runtime (Handler_DispatchCallback (en_U g) (en_system g) (wv_dispatch_now e) c) w"
  by (simp add: serve_def chain_of_eq is_public_def)

text \<open>Without an \<open>Authorization\<close> header the callback is refused and leaves everything as it was.\<close>

lemma call_back_refused:
  assumes "cq_authorization q = ''''" and "cq_url q = callback_url ident"
  shows "call_back g e ident w q = (Answered StatusUnauthorized, w)"
proof -
  let ?c = "\<lparr>c_header_authorization = '''', c_param_id = ident, c_client_ip = '''', c_user_id = None\<rparr>"
  have "\<not> authorized (en_U g) (en_system g) ?c" by (simp add: authorized_def)
  then show ?thesis using assms by (simp add: call_back_def public_dispatch on_runtime_def dispatch_unauthorized)
qed

lemma callback_url_nonempty: "callback_url ident \<noteq> ''''"
  by (simp add: callback_url_def)

lemma callback_of_sel [simp]:
  "cq_url (callback_of t) = t_CallbackURL t" "cq_authorization (callback_of t) = ''''"
  by (simp_all add: callback_of_def)

lemma refused_execution:
  assumes "t_CallbackURL t = callback_url ident"
  shows "\<not> executeCallback (\<lambda>q. fst (call_back g e ident w q)) t"
  using call_back_refused [of "callback_of t" ident g e w] assms callback_url_nonempty [of ident]
  by (simp add: executeCallback_def)

text \<open>The firing of a task that calls back the notification service: one failed execution and nothing else.\<close>

lemma fire_eq:
  assumes "tview s (''task_notif_'' @ ident) = Some t" and "t_CallbackURL t = callback_url ident"
  shows "fire g rdb fmt ident (e, f, env) (w, s) =
     (f w, execute rdb fmt (''task_notif_'' @ ident) (env\<lparr>we_do := \<lambda>q. fst (call_back g e ident (f w) q)\<rparr>) s)"
  using call_back_refused [of "callback_of t" ident g e "f w"] assms
  by (simp add: fire_def Let_def)

lemma fire_final:
  "tview s (''task_notif_'' @ ident) = Some t \<Longrightarrow> t_CallbackURL t = callback_url ident \<Longrightarrow>
   task_phase (''task_notif_'' @ ident) s \<noteq> Waiting \<Longrightarrow>
   run_steps (fire g rdb fmt ident) as (w, s) = (fold (\<lambda>(e, f, env). f) as w, s)"
proof (induction as arbitrary: w)
  case (Cons a as)
  then show ?case by (cases a) (simp add: fire_eq execute_final del: append.simps)
qed simp

lemma fire_run:
  assumes "task_ok (''task_notif_'' @ ident) limit s" and "task_phase (''task_notif_'' @ ident) s = Waiting"
    and "tview s (''task_notif_'' @ ident) = Some t" and "t_CallbackURL t = callback_url ident"
    and "run_steps (fire g rdb fmt ident) as (w, s) = (w', s')"
  shows "w' = fold (\<lambda>(e, f, env). f) as w
     \<and> (int (length as) > limit - task_retries (''task_notif_'' @ ident) s \<longrightarrow>
          task_status (''task_notif_'' @ ident) s' = Some StatusFailed)"
  using assms
proof (induction as arbitrary: w s t)
  case Nil
  then show ?case using task_life.retries_bounded [OF Nil.prems(1,2)] by simp
next
  case (Cons a as)
  let ?k = "''task_notif_'' @ ident"
  obtain e f env where a: "a = (e, f, env)" by (cases a)
  let ?env = "env\<lparr>we_do := \<lambda>q. fst (call_back g e ident (f w) q)\<rparr>"
  let ?s = "execute rdb fmt ?k ?env s"
  have step: "fire g rdb fmt ident a (w, s) = (f w, ?s)" using fire_eq [OF Cons.prems(3,4)] a by simp
  have fails: "execution_fails ?k ?env s"
    using refused_execution [of "mark_queued t" ident g e "f w"] Cons.prems(3,4) by (simp add: execution_fails_def)
  have ok: "task_ok ?k limit ?s" using task_life.good_step [OF Cons.prems(1)] .
  obtain t' where t': "tview ?s ?k = Some t'" "t_CallbackURL t' = t_CallbackURL t"
  proof (rule execute_cases [OF Cons.prems(1,2), of rdb fmt ?env])
    fix u t'
    assume "tview s ?k = Some u" "t_CallbackURL t' = t_CallbackURL u" "tview ?s = (tview s)(?k \<mapsto> t')"
    then show thesis using that [of t'] Cons.prems(3) by simp
  qed
  have rest: "run_steps (fire g rdb fmt ident) as (f w, ?s) = (w', s')" using Cons.prems(5) step by simp
  show ?case
  proof (cases "task_retries ?k s < limit")
    case True
    then have r: "task_phase ?k ?s = Waiting" "task_retries ?k ?s = task_retries ?k s + 1"
      using task_life.retry_step [OF Cons.prems(1,2) fails] by simp_all
    from Cons.IH [OF ok r(1) t'(1) _ rest] t'(2) Cons.prems(4) r(2) show ?thesis by (simp add: a algebra_simps)
  next
    case False
    then have dead: "task_phase ?k ?s = Dead" using task_life.exhausted_step [OF Cons.prems(1,2) fails] by simp
    have "w' = fold (\<lambda>(e, f, env). f) as (f w) \<and> s' = ?s"
      using fire_final [OF t'(1)] t'(2) Cons.prems(4) dead rest by simp
    moreover have "task_status ?k ?s = Some StatusFailed" using dead by (simp add: task_phase_def split: if_splits)
    ultimately show ?thesis by (simp add: a)
  qed
qed

lemma same_key:
  assumes "Load_Notification pd env = Inr nc" and "Load_Scheduler env = Inr sc"
  shows "nc_SchedulerAPIKey nc \<noteq> ''''"
    and "sc_SchedulerAPIKey sc = env ''SCHEDULER_API_KEY''"
    and "env ''SCHEDULER_API_KEY'' \<noteq> '''' \<Longrightarrow> nc_SchedulerAPIKey nc = env ''SCHEDULER_API_KEY''"
proof -
  have n: "nc_SchedulerAPIKey nc = getEnv env ''SCHEDULER_API_KEY'' ''test_api_key_12345''"
    using assms(1) by (cases "env ''DATABASE_URL'' = ''''") (auto simp: Load_Notification_def)
  have s: "sc_SchedulerAPIKey sc = getEnv env ''SCHEDULER_API_KEY'' ''''"
    using assms(2) by (auto simp: Load_Scheduler_def Let_def split: if_split_asm)
  show "nc_SchedulerAPIKey nc \<noteq> ''''" unfolding n getEnv_def Let_def by simp
  show "sc_SchedulerAPIKey sc = env ''SCHEDULER_API_KEY''" unfolding s getEnv_def Let_def by simp
  show "env ''SCHEDULER_API_KEY'' \<noteq> '''' \<Longrightarrow> nc_SchedulerAPIKey nc = env ''SCHEDULER_API_KEY''"
    unfolding n getEnv_def Let_def by simp
qed

lemma payload_sel [simp]:
  "tq_id (task_payload n format x t) = ''task_notif_'' @ n_ID x" "tq_max_retries (task_payload n format x t) = 3"
  "tq_callback_url (task_payload n format x t) = callback_url (n_ID x)" "tq_execute_at (task_payload n format x t) = format t"
  "tq_authorization (task_payload n format x t) = (if ns_SchedulerAPIKey n \<noteq> '''' then ''Bearer '' @ ns_SchedulerAPIKey n else '''')"
  by (simp_all add: task_payload_def)

lemma ScheduleNotification_reply:
  "ScheduleNotification n format (\<lambda>_. Reply code msg) x t = Inr () \<longleftrightarrow> code \<in> {StatusOK, StatusCreated}"
  "code \<notin> {StatusOK, StatusCreated} \<Longrightarrow> \<exists>err. ScheduleNotification n format (\<lambda>_. Reply code msg) x t = Inl err"
  by (auto simp: ScheduleNotification_def)

text \<open>The key check of the task API, on the request that the notification service sends.\<close>

lemma handshake_guard:
  assumes "Load_Notification pd env = Inr nc" and "Load_Scheduler env = Inr sc"
    and n: "ns_SchedulerAPIKey n = nc_SchedulerAPIKey nc"
    and c: "c_header_authorization c = tq_authorization (task_payload n format x t)"
  shows "task_middleware U (sc_SchedulerAPIKey sc) c =
    (if CHR '' '' \<in> set (env ''SCHEDULER_API_KEY'') then Abort StatusUnauthorized ''Authorization header must be Bearer token'' else Next c)"
proof -
  note k = same_key [OF assms(1,2)]
  have h: "c_header_authorization c = ''Bearer '' @ nc_SchedulerAPIKey nc" using c n k(1) by simp
  show ?thesis
  proof (cases "env ''SCHEDULER_API_KEY'' = ''''")
    case True
    then show ?thesis using k(2) by (simp add: task_middleware_def)
  next
    case False
    have "''Bearer '' @ nc_SchedulerAPIKey nc \<noteq> ''''" by simp
    then show ?thesis
      using False k(2) k(3) [OF False] bearer_token_built [of U "env ''SCHEDULER_API_KEY''"] h
      by (simp add: task_middleware_def APIKeyAuth_def Let_def del: append.simps)
  qed
qed

lemma handshake:
  assumes "Load_Notification pd env = Inr nc" and "Load_Scheduler env = Inr sc"
    and n: "ns_SchedulerAPIKey n = nc_SchedulerAPIKey nc"
    and up: "all_up s" and fresh: "tview s (''task_notif_'' @ n_ID x) = None"
    and parse: "parse (format t) = Inr at'" "\<not> is_zero at'"
    and post: "post_task U (sc_SchedulerAPIKey sc) rdb fmt parse now (task_payload n format x t) s = (reply, s1)"
  shows "if CHR '' '' \<in> set (env ''SCHEDULER_API_KEY'')
     then (\<exists>err. ScheduleNotification n format (\<lambda>_. reply) x t = Inl err) \<and> s1 = s
     else ScheduleNotification n format (\<lambda>_. reply) x t = Inr () \<and> all_up s1
       \<and> (\<exists>task. tview s1 = (tview s)(''task_notif_'' @ n_ID x \<mapsto> task) \<and> t_Status task = StatusPending \<and> t_RetryCount task = 0
            \<and> t_MaxRetries task = 3 \<and> t_CallbackURL task = callback_url (n_ID x) \<and> t_ExecuteAt task = tstamp s at')"
proof -
  let ?r = "task_payload n format x t"
  let ?c = "\<lparr>c_header_authorization = tq_authorization ?r, c_param_id = '''', c_client_ip = '''', c_user_id = None\<rparr>"
  note guard = handshake_guard [OF assms(1,2) n, of ?c format x t U]
  show ?thesis
  proof (cases "CHR '' '' \<in> set (env ''SCHEDULER_API_KEY'')")
    case True
    then have "task_middleware U (sc_SchedulerAPIKey sc) ?c = Abort StatusUnauthorized ''Authorization header must be Bearer token''"
      using guard by simp
    then have "reply = Reply StatusUnauthorized ''Authorization header must be Bearer token'' \<and> s1 = s"
      using post unfolding post_task_def Let_def serve_task_def by simp
    moreover have "\<exists>err. ScheduleNotification n format (\<lambda>_. Reply StatusUnauthorized ''Authorization header must be Bearer token'') x t = Inl err"
      by (rule ScheduleNotification_reply(2)) simp
    ultimately show ?thesis using True by auto
  next
    case False
    then have pass: "task_middleware U (sc_SchedulerAPIKey sc) ?c = Next ?c" using guard by simp
    obtain t0 where t0: "bound_task parse ?r = Inr t0" "t_ID t0 = ''task_notif_'' @ n_ID x" "t_CallbackURL t0 = callback_url (n_ID x)"
      "t_MaxRetries t0 = 3" "t_ExecuteAt t0 = at'" using parse(1) by (simp add: bound_task_def)
    have run: "(reply, s1) = (case CreateTask (NewPostgresRepo rdb) fmt now now (Inr t0) s of
        ((code, body), s') \<Rightarrow> (Reply code (case body of TaskErrorBody msg \<Rightarrow> msg | _ \<Rightarrow> ''''), s'))"
      using post pass t0(1) unfolding post_task_def Let_def serve_task_def by (simp split: prod.splits)
    show ?thesis
      using up
    proof (cases rule: CreateTask_up [where fmt = fmt and now_id = now and now = now and t = t0 and rdb = rdb])
      case (created s')
      then have "reply = Reply StatusCreated '''' \<and> s1 = s'" using run by simp
      then show ?thesis using created(3,4) False t0(2-5) parse(2)
        by (auto simp: ScheduleNotification_reply(1) intro!: exI [of _ "stored (tstamp s) (prepare_task fmt now now t0)"])
    next
      case (known old)
      then show ?thesis using fresh t0(2) by simp
    qed
  qed
qed

text \<open>
  The notification service serves only a database that has been migrated and answers: if every run of the
  migrations that ends well leaves a state with \<open>current\<close>, which closing the migrator and opening the pool
  keep, then a service that runs started on such a state.
\<close>

lemma serves_migrated:
  assumes "start_notification U parse_duration migrate_url M P assets env d = Running (g, w)"
    and up: "\<And>m s r s'. mg_Up M m s = (r, s') \<Longrightarrow> r = None \<or> r = Some ErrNoChange \<Longrightarrow> current s'"
    and kept: "\<And>m s. current s \<Longrightarrow> current (mg_Close M m s)"
      "\<And>c s r s'. current s \<Longrightarrow> pl_NewWithConfig P c s = (r, s') \<Longrightarrow> current s'"
      "\<And>p s r s'. current s \<Longrightarrow> pl_Ping P p s = (r, s') \<Longrightarrow> current s'"
  shows "env ''DATABASE_URL'' \<noteq> '''' \<and> (\<exists>v. migrate_url (env ''DATABASE_URL'') = Inr v) \<and> current (store (web_runtime w))
     \<and> ns_MaxRetryCount (en_system g) = 3 \<and> live_workers (web_runtime w) = nat (ns_WorkerCount (en_system g))"
proof -
  obtain cfg where cfg: "Load_Notification parse_duration env = Inr cfg"
    using assms(1) by (cases "Load_Notification parse_duration env") (auto simp: start_notification_def)
  have url: "nc_DatabaseURL cfg = env ''DATABASE_URL''" "env ''DATABASE_URL'' \<noteq> ''''"
    using cfg by (auto simp: Load_Notification_def Let_def split: if_splits)
  obtain d1 where r: "RunMigrations M migrate_url (nc_DatabaseURL cfg) d = (Inr (), d1)"
    using assms(1) cfg by (cases "RunMigrations M migrate_url (nc_DatabaseURL cfg) d"; cases "fst (RunMigrations M migrate_url (nc_DatabaseURL cfg) d)")
      (auto simp: start_notification_def)
  obtain pool d2 where c: "Connect P (nc_DatabaseURL cfg) d1 = (Inr pool, d2)"
    using assms(1) cfg r by (cases "Connect P (nc_DatabaseURL cfg) d1"; cases "fst (Connect P (nc_DatabaseURL cfg) d1)")
      (auto simp: start_notification_def)
  have gw: "g = main_engine U assets cfg (env ''RESEND_API_KEY'')" "w = main_web cfg (env ''RESEND_API_KEY'') d2"
    using assms(1) cfg r c by (simp_all add: start_notification_def Let_def)
  have "current d1" by (rule RunMigrations_Inr [OF r]) (use up kept(1) in blast)
  then have "current d2" by (rule_tac Connect_Inr [OF c]) (use kept(2,3) in blast)
  moreover have "\<exists>v. migrate_url (nc_DatabaseURL cfg) = Inr v" by (rule RunMigrations_Inr [OF r]) blast
  ultimately show ?thesis
    using url by (simp add: gw main_engine_def main_web_def main_runtime_def NotificationSystem.Start_def)
qed

section \<open>Properties\<close>

text \<open>
  C27. Every start of the task scheduler forgets all tasks: \<open>main\<close> drops the table before anything else, so
  on a store that is up the scheduler starts with no task at all - the recovery of QUEUED and PROCESSING
  tasks never has one to recover - while the dead letters stay.
\<close>

theorem boot_forgets_tasks:
  assumes "all_up s"
  shows "tview (s_store (snd (main_scheduler fmt cfg ping_ok s))) k = None
     \<and> tdead (s_store (snd (main_scheduler fmt cfg ping_ok s))) = tdead s"
proof -
  let ?s = "s\<lparr>base := (base s)\<lparr>tables := (tables (base s))\<lparr>tasks := []\<rparr>\<rparr>\<rparr>"
  have up: "all_up ?s" using assms by (simp add: all_up_def no_faults_def)
  have "init_schema s = ?s" using assms up by (simp add: init_schema_def on_base_run)
  then show ?thesis
    using up by (simp add: main_scheduler_def TaskScheduler.Start_def NewTaskScheduler_def Let_def Repo_RecoverTasks_def on_base_run
        tview_def tdead_def update_where_def row_of_def)
qed

theorem boot_forgets_tasks_witness:
  "tview (s_store (snd (main_scheduler (\<lambda>_. []) (projr (Load_Scheduler (\<lambda>_. ''''))) False
     (demo_store [demo_task ''k'' StatusProcessing 1 3])))) ''k'' = None"
proof -
  have "all_up (demo_store [demo_task ''k'' StatusProcessing 1 3])" by (simp add: demo_store_facts)
  from boot_forgets_tasks [OF this] show ?thesis by blast
qed

end
