(* ===== verification/Spec2Isabelle.thy ===== *)
theory Spec2Isabelle
  imports Boot
begin

text \<open>
  A model of the notification service and its task scheduler, two Go programs that share a repository.

  \<^bold>\<open>The program.\<close> \<open>cmd/notification-service\<close> accepts notifications over HTTP (\<open>internal/router\<close>, \<open>internal/handler\<close>,
  behind \<open>internal/middleware\<close> and \<open>internal/ratelimit\<close>), stores them in PostgreSQL (\<open>internal/repository/postgres\<close>)
  and delivers them by a pool of workers fed from a channel (\<open>internal/service/system.go\<close>); a retry scheduler
  polls the due ones back into the channel. A notification for later is delegated over HTTP to
  \<open>cmd/task-scheduler\<close> (\<open>internal/scheduler\<close>), whose ticker loop claims due tasks for its own workers; they call
  the notification service back at its dispatch endpoint.

  \<^bold>\<open>The theories\<close>, in the order in which they build on each other:

  \<^item> \<open>Prelude\<close>: Go's integers and times, outcomes of a call, lists. \<open>Http\<close>: what the handlers see of a request.
    \<open>GoStrings\<close>: the functions of package \<open>strings\<close>. \<open>Retry\<close>: the abstract retry contract (locale \<open>retry_machine\<close>).
  \<^item> \<open>Sql\<close>: tables as lists of rows, statements as functions on them, faults of a connection (before or after
    the effect), and the claiming statement \<open>UPDATE ... FOR UPDATE SKIP LOCKED\<close> with its laws (locale \<open>claim_queue\<close>).
  \<^item> \<open>RateLimit\<close>: \<open>internal/ratelimit\<close>; the contract of a strategy is the locale \<open>ratelimit_strategy\<close>.
  \<^item> \<open>NotificationDomain\<close>, \<open>TemplateStore\<close>, \<open>NotificationStore\<close>: \<open>internal/domain\<close>, \<open>internal/repository\<close>; the
    repository interfaces of the Go code are records of methods, their contracts are locales, and the
    PostgreSQL repositories are interpretations of them.
  \<^item> \<open>Senders\<close>, \<open>NotificationSystem\<close>: \<open>internal/service/system.go\<close>; \<open>Delivery\<close>: what one delivery and a sequence of
    them do to a notification; \<open>Lifecycle\<close>: creation, polling and shutdown, with the races between them.
  \<^item> \<open>ServiceRun\<close>: the whole notification service as a step relation of its workers, its retry scheduler, the
    requests in progress, \<open>Shutdown\<close> and the world. \<open>ServiceFlow\<close>: an abstract machine on the rows and the
    notifications in memory that simulates every step of the service (\<open>svc_step_flow\<close>), and the contract of
    an invariant of it (locale \<open>flow_invariant\<close>); its instances are the integrity of contents and the rows
    that nothing takes up again (\<open>ServiceSafety\<close>, with the invariant of the channel), a typing of the data
    (\<open>ServiceTypes\<close>) and that SCHEDULED notifications wait (\<open>ServiceWaits\<close>, with who may change a status). \<open>ServiceTheorems\<close>: the properties of
    all runs. \<open>ServiceExit\<close>: the stages of \<open>main\<close> from the end of the context to its return. \<open>ServiceParts\<close>:
    the functions that model whole operations are paths of the step relation.
  \<^item> \<open>Auth\<close>: both authentication middlewares. \<open>NotificationHandlers\<close>: \<open>internal/handler\<close>. \<open>Router\<close>:
    \<open>internal/router\<close>, a request's way through the middlewares, and runs of requests.
  \<^item> \<open>TaskStore\<close>: \<open>internal/scheduler/domain\<close> and \<open>repository\<close>, with the Redis cache. \<open>TaskWorker\<close>:
    \<open>internal/scheduler/service/worker.go\<close>. \<open>TaskScheduler\<close>: \<open>internal/scheduler/service/scheduler.go\<close> as a step relation
    of the loop, the workers, the API, \<open>Stop\<close> and the world outside. \<open>TaskHandlers\<close>: \<open>internal/scheduler/handler\<close>.
    \<open>TaskCache\<close>: the parts of a cached read and what may happen between them. \<open>TaskExclusive\<close>: no task is with
    two workers, as an invariant of the relation. \<open>TaskExit\<close>: the end of
    \<open>cmd/task-scheduler/main.go\<close>, what \<open>Stop\<close> and the HTTP server's shutdown leave behind.
  \<^item> \<open>Config\<close>: both configurations. \<open>Database\<close>: \<open>internal/database\<close>. \<open>Boot\<close>: how the two \<open>main\<close> functions start
    and what they build, and the two HTTP connections between the services. This theory: the properties
    that span both services.

  \<^bold>\<open>How code becomes definitions.\<close> A Go struct is a record, an enumeration a datatype; an error value is its
  message or an error datatype, a fallible call returns a sum and the new state; \<open>int\<close> is an \<open>int\<close> with the
  64-bit wrap-around written out where it can matter. A database statement runs on the state \<open>'t db\<close>, which
  also holds the faults to come, the clock, the rows others have locked and the order in which \<open>RETURNING\<close>
  delivers. Goroutines interleave: \<open>NotificationSystem\<close> takes the effect of the others between two steps of a
  call as an arbitrary function; \<open>ServiceRun\<close> and \<open>TaskScheduler\<close> are step relations of the two programs whose
  steps are single database calls and channel operations, and undisturbed sequences of these steps are
  proved to be the functions they split (lemmas \<open>operations_are_runs\<close>, \<open>undisturbed_work\<close>). A \<open>select\<close>
  with several ready cases takes its choice as an argument.

  \<^bold>\<open>What is proved.\<close> Per component: exclusive and exact claims, the life of a notification and of a task as
  refinements of \<open>retry_machine\<close>, the invariants of the scheduler (nothing lost on the way, no task processed
  twice at once unless a request reschedules it in flight) and of the notification service (its channel, the
  integrity and the typing of what it delivers, the number of notifications it stores, what is SCHEDULED waits),
  that both processes come to an end and what they leave, the outcome of every handler on
  every branch, exact rate limits and the quota of the deployed service, tenant isolation end to end,
  who may change a notification's status, round trips of stored rows and of configuration values, and equivalences
  of the renderer and of the template lookup with reference definitions. The theorems also show where the
  code does not do what it means to: the races of creation, polling and shutdown, the claims that are
  stranded, the stale cache, and, here, that a scheduled notification is never delivered.

  \<^bold>\<open>Parameters.\<close> The Unicode tables of \<open>strings\<close>, parsing and formatting of times, JSON binding, the answers of
  Auth0, Resend and of callbacks, the embedded landing page and the file server of the dashboard, random draws, fresh ids and clock readings, \<open>net/url\<close>, the migration library
  and the connection pool. No fuel is used: every loop
  of the code is a recursion on the list it walks through, and the endless loops (workers, ticker, poller)
  are modelled by their iterations.

  \<^bold>\<open>Not modelled.\<close> Gin's path matching, recovery and logging, sockets (a signal is the step
  that ends the context, \<open>server.Shutdown\<close> the steps \<open>drain\<close>, \<open>drained\<close> and \<open>timed_out\<close>), the
  SQL text of the migrations (the tables they end with are the rows of the model), and a task table that
  is missing because its creation failed after the drop. JSON encodings of variables and of cached tasks keep
  their strings as they are, which is exact for valid UTF-8 only.
\<close>

section \<open>The two services together\<close>

definition plain_env :: environment where
  "plain_env = (\<lambda>k. if k = ''DATABASE_URL'' then ''postgres://db'' else '''')"

definition plain_notification :: Notification where
  "plain_notification = new_notification 1 1 ''a'' (demo_args 7)"

lemma plain_loads:
  "\<exists>nc. Load_Notification (\<lambda>_. None) plain_env = Inr nc" "\<exists>sc. Load_Scheduler plain_env = Inr sc"
  by (simp_all add: Load_Notification_def Load_Scheduler_def plain_env_def getEnv_def Let_def)

lemma no_task: "tview (demo_store []) k = None"
  by (simp add: demo_store_facts row_of_def)

text \<open>
  C28. The two services agree on the delegation of a scheduled notification. When both are configured from
  one environment and the scheduler's store is up and does not know the notification's task yet, the
  scheduler accepts \<open>ScheduleNotification\<close>'s request - also when no key is set, since then it checks none -
  and holds one PENDING task more, due at the requested time, with the notification's dispatch endpoint
  as its callback; the exception is a key with a space in it, with which every delegation is refused.
\<close>

theorem delegation_handshake:
  assumes "Load_Notification pd env = Inr nc" and "Load_Scheduler env = Inr sc"
    and "n = en_system (main_engine U assets nc resendKey)"
    and "all_up s" and "tview s (''task_notif_'' @ n_ID x) = None"
    and "parse (format t) = Inr at'" and "\<not> is_zero at'"
    and "post_task U (sc_SchedulerAPIKey sc) rdb fmt parse now (task_payload n format x t) s = (reply, s1)"
  shows "if CHR '' '' \<in> set (env ''SCHEDULER_API_KEY'')
     then (\<exists>err. ScheduleNotification n format (\<lambda>_. reply) x t = Inl err) \<and> s1 = s
     else ScheduleNotification n format (\<lambda>_. reply) x t = Inr () \<and> all_up s1
       \<and> (\<exists>task. tview s1 = (tview s)(''task_notif_'' @ n_ID x \<mapsto> task) \<and> t_Status task = StatusPending \<and> t_RetryCount task = 0
            \<and> t_MaxRetries task = 3 \<and> t_CallbackURL task = callback_url (n_ID x) \<and> t_ExecuteAt task = tstamp s at')"
proof -
  have "ns_SchedulerAPIKey n = nc_SchedulerAPIKey nc" by (simp add: assms(3) main_engine_def)
  from handshake [OF assms(1,2) this assms(4-8)] show ?thesis .
qed

theorem delegation_handshake_witness:
  "\<exists>nc sc reply s1. Load_Notification (\<lambda>_. None) plain_env = Inr nc \<and> Load_Scheduler plain_env = Inr sc
     \<and> post_task ascii_only (sc_SchedulerAPIKey sc) False (\<lambda>_. []) (\<lambda>_. Inr 7) 5
         (task_payload (en_system (main_engine ascii_only None nc [])) (\<lambda>_. ''t'') plain_notification 7) (demo_store []) = (reply, s1)
     \<and> task_status (''task_notif_'' @ n_ID plain_notification) s1 = Some StatusPending"
proof -
  obtain nc sc where l: "Load_Notification (\<lambda>_. None) plain_env = Inr nc" "Load_Scheduler plain_env = Inr sc"
    using plain_loads by blast
  let ?n = "en_system (main_engine ascii_only None nc [])"
  obtain reply s1 where p: "post_task ascii_only (sc_SchedulerAPIKey sc) False (\<lambda>_. []) (\<lambda>_. Inr 7) 5
      (task_payload ?n (\<lambda>_. ''t'') plain_notification 7) (demo_store []) = (reply, s1)" by fastforce
  have "CHR '' '' \<notin> set (plain_env ''SCHEDULER_API_KEY'')" by (simp add: plain_env_def)
  moreover note delegation_handshake [OF l refl demo_store_facts(1) no_task _ _ p, of 7]
  ultimately have "task_status (''task_notif_'' @ n_ID plain_notification) s1 = Some StatusPending"
    by (auto simp: is_zero_def zero_time_def task_status_def simp del: append.simps)
  with l p show ?thesis by blast
qed

text \<open>
  C1. And yet a scheduled notification is never delivered: the worker's callback carries no \<open>Authorization\<close>
  header, and the dispatch endpoint refuses every request without the key. From the request that
  \<open>ScheduleNotification\<close> reports as accepted, whatever the notification service does between the attempts,
  the attempts change nothing in it (the notification stays SCHEDULED, nothing is enqueued), and after
  four of them the task is FAILED for good.
\<close>

theorem scheduled_never_delivered:
  assumes "Load_Notification pd env = Inr nc" and "Load_Scheduler env = Inr sc"
    and key: "CHR '' '' \<notin> set (env ''SCHEDULER_API_KEY'')" and g: "g = main_engine U assets nc resendKey"
    and "all_up s" and "tview s (''task_notif_'' @ n_ID x) = None"
    and "parse (format t) = Inr at'" and "\<not> is_zero at'"
    and post: "post_task U (sc_SchedulerAPIKey sc) rdb fmt parse now (task_payload (en_system g) format x t) s = (reply, s1)"
    and many: "4 \<le> length as" and run: "run_steps (fire g rdb fmt (n_ID x)) as (w, s1) = (w', s')"
  shows "ScheduleNotification (en_system g) format (\<lambda>_. reply) x t = Inr ()
     \<and> w' = fold (\<lambda>(e, f, env). f) as w
     \<and> task_status (''task_notif_'' @ n_ID x) s' = Some StatusFailed"
proof -
  let ?k = "''task_notif_'' @ n_ID x"
  have "ns_SchedulerAPIKey (en_system g) = nc_SchedulerAPIKey nc" by (simp add: g main_engine_def)
  from handshake [OF assms(1,2) this assms(5-8) post] key obtain task where
    h: "ScheduleNotification (en_system g) format (\<lambda>_. reply) x t = Inr ()" "all_up s1" "tview s1 = (tview s)(?k \<mapsto> task)"
      "t_Status task = StatusPending" "t_RetryCount task = 0" "t_MaxRetries task = 3" "t_CallbackURL task = callback_url (n_ID x)"
    by auto
  have v: "tview s1 ?k = Some task" using h(3) by simp
  have "task_ok ?k 3 s1" "task_phase ?k s1 = Waiting" "task_retries ?k s1 = 0"
    using v h(2,4-6) by (simp_all add: task_ok_def task_phase_def task_status_def task_retries_def max_int64_def del: append.simps)
  from fire_run [OF this(1,2) v h(7) run] this(3) many h(1) show ?thesis by simp
qed

theorem scheduled_never_delivered_witness:
  "\<exists>nc sc reply s1 w' s'. Load_Notification (\<lambda>_. None) plain_env = Inr nc \<and> Load_Scheduler plain_env = Inr sc
     \<and> post_task ascii_only (sc_SchedulerAPIKey sc) False (\<lambda>_. []) (\<lambda>_. Inr 7) 5
         (task_payload (en_system (main_engine ascii_only None nc [])) (\<lambda>_. ''t'') plain_notification 7) (demo_store []) = (reply, s1)
     \<and> run_steps (fire (main_engine ascii_only None nc []) False (\<lambda>_. []) (n_ID plain_notification))
         (replicate 4 (demo_wenv 9 (Unreachable []), id, refused 9)) (main_web nc [] scheduled_db, s1) = (w', s')
     \<and> w' = main_web nc [] scheduled_db"
proof -
  obtain nc sc where l: "Load_Notification (\<lambda>_. None) plain_env = Inr nc" "Load_Scheduler plain_env = Inr sc"
    using plain_loads by blast
  let ?g = "main_engine ascii_only None nc []" and ?as = "replicate 4 (demo_wenv 9 (Unreachable []), id, refused 9)"
  obtain reply s1 where p: "post_task ascii_only (sc_SchedulerAPIKey sc) False (\<lambda>_. []) (\<lambda>_. Inr 7) 5
      (task_payload (en_system ?g) (\<lambda>_. ''t'') plain_notification 7) (demo_store []) = (reply, s1)" by fastforce
  obtain w' s' where r: "run_steps (fire ?g False (\<lambda>_. []) (n_ID plain_notification)) ?as (main_web nc [] scheduled_db, s1) = (w', s')"
    by fastforce
  have "CHR '' '' \<notin> set (plain_env ''SCHEDULER_API_KEY'')" by (simp add: plain_env_def)
  from scheduled_never_delivered [OF l this refl demo_store_facts(1) no_task _ _ p _ r, of 7]
  have "w' = fold (\<lambda>(e, f, env). f) ?as (main_web nc [] scheduled_db)" by (simp add: is_zero_def zero_time_def)
  then have "w' = main_web nc [] scheduled_db" by (simp add: eval_nat_numeral)
  with l p r show ?thesis by blast
qed

end

